(* ===== verification/Prelude.thy ===== *)
theory Prelude
  imports Main "HOL-Library.Word"
begin

text \<open>
  Shared foundations of the development: the fixed-width integer types of the Rust code, the
  outcome of a Rust computation (a value, an \<open>Err\<close>, a panic, or the exhausted fuel of a bounded
  execution), state-passing computations over it with their laws, the build-dependent overflow
  check of Rust's arithmetic, Rust strings as UTF-8 byte sequences, and the notion \<open>keeps\<close> that
  carries every frame and monotonicity proof of the virtual machine.
\<close>

section \<open>Machine integers and byte strings\<close>

type_synonym u8 = "8 word"
type_synonym u16 = "16 word"
type_synonym u32 = "32 word"
type_synonym u64 = "64 word"
type_synonym i32 = "32 word"
type_synonym i64 = "64 word"
type_synonym bytes = "u8 list"

named_theorems rust_simps "unfolding rules of the state-passing combinators"

section \<open>Outcomes\<close>

text \<open>
  \<open>Ok\<close> and \<open>Err\<close> are Rust's \<open>Result\<close>. \<open>Panic\<close> is an unwinding panic with its message; the
  programs modelled here never catch one inside the virtual machine, so nothing follows it.
  \<open>Timeout\<close> is not a value of the program: it says that the fuel of a bounded execution was used
  up, or that a function of a library did not return, and the termination theorems say when it
  cannot occur.
\<close>

datatype ('e, 'a) outcome = Ok 'a | Err 'e | Panic string | Timeout

type_synonym ('s, 'e, 'a) rust = "'s \<Rightarrow> ('e, 'a) outcome \<times> 's"

definition ret :: "'a \<Rightarrow> ('s, 'e, 'a) rust" where
  "ret a = (\<lambda>s. (Ok a, s))"

definition throw :: "'e \<Rightarrow> ('s, 'e, 'a) rust" where
  "throw e = (\<lambda>s. (Err e, s))"

definition panic :: "string \<Rightarrow> ('s, 'e, 'a) rust" where
  "panic msg = (\<lambda>s. (Panic msg, s))"

text \<open>
  Computations that touch no state and can only return or panic: \<open>Inl\<close> is the panic message.
\<close>

type_synonym 'a may_panic = "string + 'a"

definition lift_panic :: "'a may_panic \<Rightarrow> ('s, 'e, 'a) rust" where
  "lift_panic r = (case r of Inl p \<Rightarrow> panic p | Inr a \<Rightarrow> ret a)"

definition panic_bind :: "'a may_panic \<Rightarrow> ('a \<Rightarrow> 'b may_panic) \<Rightarrow> 'b may_panic" where
  "panic_bind r f = (case r of Inl p \<Rightarrow> Inl p | Inr a \<Rightarrow> f a)"

definition and_then :: "('s, 'e, 'a) rust \<Rightarrow> ('a \<Rightarrow> ('s, 'e, 'b) rust) \<Rightarrow> ('s, 'e, 'b) rust" where
  "and_then m f = (\<lambda>s. case m s of
      (Ok a, s') \<Rightarrow> f a s'
    | (Err e, s') \<Rightarrow> (Err e, s')
    | (Panic p, s') \<Rightarrow> (Panic p, s')
    | (Timeout, s') \<Rightarrow> (Timeout, s'))"

text \<open>\<open>attempt m\<close> is the scrutinee of a Rust \<open>match m { Ok(..) .. Err(..) .. }\<close>.\<close>

definition attempt :: "('s, 'e, 'a) rust \<Rightarrow> ('s, 'f, 'e + 'a) rust" where
  "attempt m = (\<lambda>s. case m s of
      (Ok a, s') \<Rightarrow> (Ok (Inr a), s')
    | (Err e, s') \<Rightarrow> (Ok (Inl e), s')
    | (Panic p, s') \<Rightarrow> (Panic p, s')
    | (Timeout, s') \<Rightarrow> (Timeout, s'))"

definition gets :: "('s \<Rightarrow> 'a) \<Rightarrow> ('s, 'e, 'a) rust" where
  "gets f = (\<lambda>s. (Ok (f s), s))"

definition modify :: "('s \<Rightarrow> 's) \<Rightarrow> ('s, 'e, unit) rust" where
  "modify f = (\<lambda>s. (Ok (), f s))"

text \<open>\<open>unwrap msg\<close> is Rust's \<open>Option::expect\<close>: the value, or a panic with the message.\<close>

definition unwrap :: "string \<Rightarrow> 'a option \<Rightarrow> ('s, 'e, 'a) rust" where
  "unwrap msg x = (case x of Some a \<Rightarrow> ret a | None \<Rightarrow> panic msg)"

text \<open>An outcome computed without the state.\<close>

definition lift_outcome :: "('e, 'a) outcome \<Rightarrow> ('s, 'e, 'a) rust" where
  "lift_outcome r = (\<lambda>s. (r, s))"

text \<open>The messages of the standard library's panics.\<close>

definition unwrap_err_msg :: string where
  "unwrap_err_msg = ''called `Result::unwrap()` on an `Err` value''"

definition unwrap_none_msg :: string where
  "unwrap_none_msg = ''called `Option::unwrap()` on a `None` value''"

lemma ret_apply [simp, rust_simps]: "ret a s = (Ok a, s)"
  by (simp add: ret_def)

lemma throw_apply [simp, rust_simps]: "throw e s = (Err e, s)"
  by (simp add: throw_def)

lemma panic_apply [simp, rust_simps]: "panic p s = (Panic p, s)"
  by (simp add: panic_def)

lemma gets_apply [simp, rust_simps]: "gets f s = (Ok (f s), s)"
  by (simp add: gets_def)

lemma modify_apply [simp, rust_simps]: "modify f s = (Ok (), f s)"
  by (simp add: modify_def)

lemma lift_panic_simps [simp, rust_simps]:
  "lift_panic (Inl p) = panic p" "lift_panic (Inr a) = ret a"
  by (simp_all add: lift_panic_def)

lemma lift_outcome_apply [simp, rust_simps]: "lift_outcome r s = (r, s)"
  by (simp add: lift_outcome_def)

lemma lift_panic_eq_Ok_iff: "lift_panic x s = (Ok a, t) \<longleftrightarrow> x = Inr a \<and> t = s"
  by (cases x) auto

lemma panic_bind_simps [simp]:
  "panic_bind (Inl p) f = Inl p" "panic_bind (Inr a) f = f a"
  by (simp_all add: panic_bind_def)

lemma panic_bind_eq_Inr_iff: "panic_bind r f = Inr b \<longleftrightarrow> (\<exists>a. r = Inr a \<and> f a = Inr b)"
  by (cases r) simp_all

lemma unwrap_simps [simp, rust_simps]:
  "unwrap msg (Some a) = ret a"
  "unwrap msg None = panic msg"
  by (simp_all add: unwrap_def)

lemma and_then_apply [rust_simps]:
  "and_then m f s = (case m s of
      (Ok a, s') \<Rightarrow> f a s'
    | (Err e, s') \<Rightarrow> (Err e, s')
    | (Panic p, s') \<Rightarrow> (Panic p, s')
    | (Timeout, s') \<Rightarrow> (Timeout, s'))"
  by (simp add: and_then_def)

lemma attempt_apply [rust_simps]:
  "attempt m s = (case m s of
      (Ok a, s') \<Rightarrow> (Ok (Inr a), s')
    | (Err e, s') \<Rightarrow> (Ok (Inl e), s')
    | (Panic p, s') \<Rightarrow> (Panic p, s')
    | (Timeout, s') \<Rightarrow> (Timeout, s'))"
  by (simp add: attempt_def)

lemma and_then_ret [simp]: "and_then (ret a) f = f a"
  by (simp add: and_then_def)

lemma and_then_Ok: "m s = (Ok a, s') \<Longrightarrow> and_then m f s = f a s'"
  by (simp add: and_then_def)

lemma and_then_Err: "m s = (Err e, s') \<Longrightarrow> and_then m f s = (Err e, s')"
  by (simp add: and_then_def)

lemma and_then_Panic: "m s = (Panic e, s') \<Longrightarrow> and_then m f s = (Panic e, s')"
  by (simp add: and_then_def)

lemma and_then_assoc: "and_then (and_then m f) g = and_then m (\<lambda>a. and_then (f a) g)"
  by (rule ext) (simp add: and_then_def split: prod.split outcome.split)

lemma and_then_eq_Ok_iff:
  "and_then m f s = (Ok b, t) \<longleftrightarrow> (\<exists>a s'. m s = (Ok a, s') \<and> f a s' = (Ok b, t))"
  by (auto simp: and_then_def split: prod.splits outcome.splits)

lemma and_then_eq_OkE:
  assumes "and_then m f s = (Ok b, t)"
  obtains a s' where "m s = (Ok a, s')" and "f a s' = (Ok b, t)"
  using assms by (auto simp: and_then_eq_Ok_iff)

lemma attempt_eq_Ok_iff:
  "attempt m s = (Ok r, t) \<longleftrightarrow>
     (case r of Inl e \<Rightarrow> m s = (Err e, t) | Inr a \<Rightarrow> m s = (Ok a, t))"
  by (auto simp: attempt_def split: prod.splits outcome.splits sum.splits)

lemma and_then_attempt_eq_Ok_iff:
  "and_then (attempt m) f s = (Ok b, t) \<longleftrightarrow>
     (\<exists>e s'. m s = (Err e, s') \<and> f (Inl e) s' = (Ok b, t)) \<or>
     (\<exists>a s'. m s = (Ok a, s') \<and> f (Inr a) s' = (Ok b, t))"
  by (auto simp: and_then_def attempt_def split: prod.splits outcome.splits)

lemma attempt_never_Err: "fst (attempt m s) \<noteq> Err e"
  by (auto simp: attempt_def split: prod.splits outcome.splits)

lemma unwrap_eq_Ok_iff: "unwrap msg x s = (Ok a, t) \<longleftrightarrow> x = Some a \<and> t = s"
  by (auto simp: unwrap_def split: option.splits)

section \<open>The order of the fuel\<close>

text \<open>
  Outcomes are ordered by how much is known of them: exhausted fuel is below every other outcome,
  and these are incomparable. A computation with fuel is monotone when more fuel changes nothing
  but a timeout.
\<close>

instantiation outcome :: (type, type) order_bot
begin

definition bot_outcome :: "('a, 'b) outcome" where
  "bot_outcome = Timeout"

definition less_eq_outcome :: "('a, 'b) outcome \<Rightarrow> ('a, 'b) outcome \<Rightarrow> bool" where
  "less_eq_outcome r r' \<longleftrightarrow> r = Timeout \<or> r' = r"

definition less_outcome :: "('a, 'b) outcome \<Rightarrow> ('a, 'b) outcome \<Rightarrow> bool" where
  "less_outcome r r' \<longleftrightarrow> r = Timeout \<and> r' \<noteq> Timeout"

instance
  by standard (auto simp: bot_outcome_def less_eq_outcome_def less_outcome_def)

end

lemma outcome_leI: "(r \<noteq> Timeout \<Longrightarrow> r' = r) \<Longrightarrow> r \<le> (r' :: ('e, 'a) outcome)"
  by (auto simp: less_eq_outcome_def)

lemma outcome_leD: "r \<le> (r' :: ('e, 'a) outcome) \<Longrightarrow> r \<noteq> Timeout \<Longrightarrow> r' = r"
  by (auto simp: less_eq_outcome_def)

lemma fuel_mono_Suc:
  assumes "\<And>fuel. f fuel \<le> f (Suc fuel)"
  shows "mono (f :: nat \<Rightarrow> ('e, 'a) outcome)"
  using assms by (simp add: mono_iff_le_Suc)

section \<open>Frame conditions\<close>

text \<open>\<open>keeps R m\<close>: whatever the outcome, the state before and after \<open>m\<close> are related by \<open>R\<close>.\<close>

definition keeps :: "('s \<Rightarrow> 's \<Rightarrow> bool) \<Rightarrow> ('s, 'e, 'a) rust \<Rightarrow> bool" where
  "keeps R m \<longleftrightarrow> (\<forall>s. R s (snd (m s)))"

lemma keepsI: "(\<And>s r s'. m s = (r, s') \<Longrightarrow> R s s') \<Longrightarrow> keeps R m"
  by (metis keeps_def prod.collapse)

lemma keepsD: "keeps R m \<Longrightarrow> m s = (r, s') \<Longrightarrow> R s s'"
  by (metis keeps_def snd_conv)

text \<open>The weaker form for computations that may panic half-way: only what returns is related.\<close>

definition returned :: "('e, 'a) outcome \<Rightarrow> bool" where
  "returned r \<longleftrightarrow> (case r of Ok a \<Rightarrow> True | Err e \<Rightarrow> True | Panic p \<Rightarrow> False | Timeout \<Rightarrow> False)"

lemma returned_simps [simp]:
  "returned (Ok a)" "returned (Err e)" "\<not> returned (Panic p)" "\<not> returned Timeout"
  by (simp_all add: returned_def)

definition returns_in :: "('s \<Rightarrow> 's \<Rightarrow> bool) \<Rightarrow> ('s, 'e, 'a) rust \<Rightarrow> bool" where
  "returns_in R m \<longleftrightarrow> (\<forall>s r s'. m s = (r, s') \<longrightarrow> returned r \<longrightarrow> R s s')"

lemma returns_inI: "(\<And>s r s'. m s = (r, s') \<Longrightarrow> returned r \<Longrightarrow> R s s') \<Longrightarrow> returns_in R m"
  by (simp add: returns_in_def)

lemma returns_inD: "returns_in R m \<Longrightarrow> m s = (r, s') \<Longrightarrow> returned r \<Longrightarrow> R s s'"
  by (simp add: returns_in_def)

lemma keeps_returns_in: "keeps R m \<Longrightarrow> returns_in R m"
  by (auto intro: returns_inI dest: keepsD)

lemma returns_in_mono: "returns_in R m \<Longrightarrow> (\<And>s t. R s t \<Longrightarrow> Q s t) \<Longrightarrow> returns_in Q m"
  by (auto simp: returns_in_def)

text \<open>A preorder on states is what frame conditions need to compose.\<close>

locale preorder_rel =
  fixes R :: "'s \<Rightarrow> 's \<Rightarrow> bool"
  assumes rel_refl: "R s s"
    and rel_trans: "R s t \<Longrightarrow> R t u \<Longrightarrow> R s u"
begin

lemma keeps_ret: "keeps R (ret a)"
  by (simp add: keeps_def rel_refl)

lemma keeps_throw: "keeps R (throw e)"
  by (simp add: keeps_def rel_refl)

lemma keeps_panic: "keeps R (panic p)"
  by (simp add: keeps_def rel_refl)

lemma keeps_lift: "keeps R (lift_panic r)"
  by (cases r) (simp_all add: keeps_def rel_refl)

lemma keeps_lift_outcome: "keeps R (lift_outcome r)"
  by (simp add: keeps_def rel_refl)

lemma keeps_gets: "keeps R (gets f)"
  by (simp add: keeps_def rel_refl)

lemma keeps_unwrap: "keeps R (unwrap msg x)"
  by (cases x) (simp_all add: keeps_def rel_refl)

lemma keeps_and_then:
  assumes "keeps R m" and "\<And>a. keeps R (f a)"
  shows "keeps R (and_then m f)"
proof (rule keepsI)
  fix s r s'
  assume *: "and_then m f s = (r, s')"
  obtain q t where m: "m s = (q, t)" by force
  have st: "R s t" using assms(1) m by (rule keepsD)
  show "R s s'"
  proof (cases q)
    case (Ok a)
    with * m have "f a t = (r, s')" by (simp add: and_then_def)
    with assms(2) have "R t s'" by (rule keepsD)
    with st show ?thesis by (rule rel_trans)
  qed (use * m st in \<open>simp_all add: and_then_def\<close>)
qed

lemma keeps_attempt: "keeps R m \<Longrightarrow> keeps R (attempt m)"
  by (rule keepsI) (auto simp: attempt_def dest: keepsD split: prod.splits outcome.splits)

lemmas keeps_basic =
  keeps_ret keeps_throw keeps_panic keeps_lift keeps_lift_outcome keeps_gets keeps_unwrap keeps_and_then keeps_attempt

lemma returns_and_then:
  assumes m: "returns_in R m" and f: "\<And>a. returns_in R (f a)"
  shows "returns_in R (and_then m f)"
proof (rule returns_inI)
  fix s r s'
  assume *: "and_then m f s = (r, s')" and r: "returned r"
  obtain q t where q: "m s = (q, t)" by force
  show "R s s'"
  proof (cases q)
    case (Ok a)
    with * q have "f a t = (r, s')" by (simp add: and_then_def)
    with f r have "R t s'" by (blast dest: returns_inD)
    moreover have "R s t" using m q by (rule returns_inD) (simp add: Ok)
    ultimately show ?thesis by (blast intro: rel_trans)
  next
    case (Err e)
    with * q m show ?thesis by (auto simp: and_then_def dest: returns_inD)
  qed (use * q r in \<open>auto simp: and_then_def\<close>)
qed

lemma returns_attempt: "returns_in R m \<Longrightarrow> returns_in R (attempt m)"
  by (rule returns_inI) (auto simp: attempt_def dest: returns_inD split: prod.splits outcome.splits)

lemmas returns_basic = returns_and_then returns_attempt
  keeps_ret [THEN keeps_returns_in] keeps_throw [THEN keeps_returns_in]
  keeps_panic [THEN keeps_returns_in] keeps_lift [THEN keeps_returns_in]
  keeps_lift_outcome [THEN keeps_returns_in] keeps_gets [THEN keeps_returns_in]
  keeps_unwrap [THEN keeps_returns_in]

end

text \<open>Equality is the strongest such preorder: the computations that only read.\<close>

interpretation reads: preorder_rel "(=) :: 's \<Rightarrow> 's \<Rightarrow> bool"
  by unfold_locales auto

lemma reads_keeps: "keeps (=) m \<Longrightarrow> preorder_rel R \<Longrightarrow> keeps R m"
  by (simp add: keeps_def preorder_rel_def)

section \<open>Arithmetic of the two build modes\<close>

text \<open>
  The crates are built in release mode in production and in debug mode otherwise (the crate list
  of mix.exs). A debug build panics where an operation overflows, a release build wraps around.
\<close>

datatype build_mode = Debug | Release

definition overflow_check :: "build_mode \<Rightarrow> bool \<Rightarrow> string \<Rightarrow> 'a \<Rightarrow> 'a may_panic" where
  "overflow_check mode fits opname v =
     (if fits \<or> mode = Release then Inr v
      else Inl (''attempt to '' @ opname @ '' with overflow''))"

definition mul_u32 :: "build_mode \<Rightarrow> u32 \<Rightarrow> u32 \<Rightarrow> u32 may_panic" where
  "mul_u32 mode a b = overflow_check mode (uint a * uint b < 2 ^ 32) ''multiply'' (a * b)"

definition sub_u32 :: "build_mode \<Rightarrow> u32 \<Rightarrow> u32 \<Rightarrow> u32 may_panic" where
  "sub_u32 mode a b = overflow_check mode (b \<le> a) ''subtract'' (a - b)"

definition sub_u64 :: "build_mode \<Rightarrow> u64 \<Rightarrow> u64 \<Rightarrow> u64 may_panic" where
  "sub_u64 mode a b = overflow_check mode (b \<le> a) ''subtract'' (a - b)"

definition add_u64 :: "build_mode \<Rightarrow> u64 \<Rightarrow> u64 \<Rightarrow> u64 may_panic" where
  "add_u64 mode a b = overflow_check mode (uint a + uint b < 2 ^ 64) ''add'' (a + b)"

definition add_i32 :: "build_mode \<Rightarrow> i32 \<Rightarrow> i32 \<Rightarrow> i32 may_panic" where
  "add_i32 mode a b =
     overflow_check mode (- (2 ^ 31) \<le> sint a + sint b \<and> sint a + sint b < 2 ^ 31) ''add'' (a + b)"

lemmas arith_defs = overflow_check_def mul_u32_def sub_u32_def sub_u64_def add_u64_def add_i32_def

lemma sub_u32_Ok: "b \<le> a \<Longrightarrow> sub_u32 mode a b = Inr (a - b)"
  by (simp add: sub_u32_def overflow_check_def)

lemma sub_u64_Ok: "b \<le> a \<Longrightarrow> sub_u64 mode a b = Inr (a - b)"
  by (simp add: sub_u64_def overflow_check_def)

section \<open>Rust strings\<close>

text \<open>
  A Rust \<open>String\<close> is a HOL \<open>string\<close> whose characters are the bytes of its UTF-8 encoding;
  \<open>as_bytes\<close> and \<open>of_bytes\<close> convert. \<open>from_utf8\<close> is \<open>std::str::from_utf8\<close>, whose table of
  well-formed sequences is \<open>utf8_valid\<close>.
\<close>

definition as_bytes :: "string \<Rightarrow> bytes" where
  "as_bytes s = map (\<lambda>c. word_of_nat (of_char c)) s"

definition of_bytes :: "bytes \<Rightarrow> string" where
  "of_bytes bs = map (\<lambda>b. char_of (unat b)) bs"

definition utf8_cont :: "u8 \<Rightarrow> bool" where
  "utf8_cont b \<longleftrightarrow> 0x80 \<le> b \<and> b \<le> 0xBF"

fun utf8_valid :: "bytes \<Rightarrow> bool" where
  "utf8_valid [] = True"
| "utf8_valid (a # r) =
     (if a < 0x80 then utf8_valid r
      else (case r of [] \<Rightarrow> False | b # r2 \<Rightarrow>
        if 0xC2 \<le> a \<and> a \<le> 0xDF then utf8_cont b \<and> utf8_valid r2
        else (case r2 of [] \<Rightarrow> False | c # r3 \<Rightarrow>
          if a = 0xE0 then 0xA0 \<le> b \<and> b \<le> 0xBF \<and> utf8_cont c \<and> utf8_valid r3
          else if a = 0xED then 0x80 \<le> b \<and> b \<le> 0x9F \<and> utf8_cont c \<and> utf8_valid r3
          else if 0xE1 \<le> a \<and> a \<le> 0xEF then utf8_cont b \<and> utf8_cont c \<and> utf8_valid r3
          else (case r3 of [] \<Rightarrow> False | d # r4 \<Rightarrow>
            if a = 0xF0 then 0x90 \<le> b \<and> b \<le> 0xBF \<and> utf8_cont c \<and> utf8_cont d \<and> utf8_valid r4
            else if 0xF1 \<le> a \<and> a \<le> 0xF3
              then utf8_cont b \<and> utf8_cont c \<and> utf8_cont d \<and> utf8_valid r4
            else if a = 0xF4
              then 0x80 \<le> b \<and> b \<le> 0x8F \<and> utf8_cont c \<and> utf8_cont d \<and> utf8_valid r4
            else False))))"

definition from_utf8 :: "bytes \<Rightarrow> string option" where
  "from_utf8 bs = (if utf8_valid bs then Some (of_bytes bs) else None)"

lemma length_as_bytes [simp]: "length (as_bytes s) = length s"
  by (simp add: as_bytes_def)

lemma length_of_bytes [simp]: "length (of_bytes bs) = length bs"
  by (simp add: of_bytes_def)

lemma of_bytes_as_bytes [simp]: "of_bytes (as_bytes s) = s"
proof -
  have "char_of (unat (word_of_nat (of_char c) :: u8)) = c" for c :: char
    by (simp add: unat_of_nat)
  then show ?thesis by (simp add: of_bytes_def as_bytes_def comp_def)
qed

lemma as_bytes_of_bytes [simp]: "as_bytes (of_bytes bs) = bs"
proof -
  have "word_of_nat (of_char (char_of (unat b) :: char)) = b" for b :: u8
  proof -
    have "unat b < 2 ^ LENGTH(8)" by (rule unsigned_less)
    then show ?thesis by simp
  qed
  then show ?thesis by (simp add: of_bytes_def as_bytes_def comp_def)
qed

lemma as_bytes_inject [simp]: "as_bytes s = as_bytes t \<longleftrightarrow> s = t"
  by (metis of_bytes_as_bytes)

lemma as_bytes_append [simp]: "as_bytes (s @ t) = as_bytes s @ as_bytes t"
  by (simp add: as_bytes_def)

lemma utf8_valid_ascii: "\<forall>b \<in> set bs. b < 0x80 \<Longrightarrow> utf8_valid bs"
  by (induction bs) auto

lemma from_utf8_ascii: "\<forall>b \<in> set (as_bytes s). b < 0x80 \<Longrightarrow> from_utf8 (as_bytes s) = Some s"
  by (simp add: from_utf8_def utf8_valid_ascii)

end
