(* ===== verification/Vm_Helpers.thy ===== *)
theory Vm_Helpers
  imports Prelude
begin

unbundle bit_operations_syntax

text \<open>
  native/vm/src/helpers.rs, gas_costs.rs and changeset.rs. The three \<open>transmute\<close>s reinterpret an
  integer as its bytes in memory order; the supported targets are little-endian, so the model
  lists the bytes from the least significant one. \<open>of_le_bytes\<close> is the transmute in the other
  direction (vm/memory.rs, result.rs). \<open>right_pad_vec\<close> is the push loop of the source.
\<close>

section \<open>Integers as little-endian bytes\<close>

fun le_bytes :: "nat \<Rightarrow> 'a::len word \<Rightarrow> bytes" where
  "le_bytes 0 w = []"
| "le_bytes (Suc n) w = ucast w # le_bytes n (drop_bit 8 w)"

fun of_le_bytes :: "bytes \<Rightarrow> 'a::len word" where
  "of_le_bytes [] = 0"
| "of_le_bytes (b # bs) = ucast b OR push_bit 8 (of_le_bytes bs)"

definition i32_to_vec :: "i32 \<Rightarrow> bytes" where
  "i32_to_vec n = le_bytes 4 n"

definition u64_to_vec :: "u64 \<Rightarrow> bytes" where
  "u64_to_vec n = le_bytes 8 n"

definition u32_to_vec :: "u32 \<Rightarrow> bytes" where
  "u32_to_vec n = le_bytes 4 n"

lemma length_le_bytes [simp]: "length (le_bytes n w) = n"
  by (induction n arbitrary: w) auto

lemma length_to_vec [simp]:
  "length (i32_to_vec n) = 4" "length (u32_to_vec n) = 4" "length (u64_to_vec m) = 8"
  by (simp_all add: i32_to_vec_def u32_to_vec_def u64_to_vec_def)

lemma of_le_bytes_le_bytes: "of_le_bytes (le_bytes n w) = take_bit (8 * n) w"
proof (induction n arbitrary: w)
  case 0
  then show ?case by simp
next
  case (Suc n)
  show ?case
  proof (rule bit_word_eqI)
    fix k assume k: "k < LENGTH('a)"
    show "bit (of_le_bytes (le_bytes (Suc n) w) :: 'a word) k = bit (take_bit (8 * Suc n) w) k"
      using k by (auto simp: Suc.IH bit_simps dest: bit_imp_le_length)
  qed
qed

lemma of_le_bytes_i32 [simp]: "of_le_bytes (i32_to_vec n) = n"
  by (simp add: i32_to_vec_def of_le_bytes_le_bytes take_bit_word_eq_self)

lemma of_le_bytes_u32 [simp]: "of_le_bytes (u32_to_vec n) = n"
  by (simp add: u32_to_vec_def of_le_bytes_le_bytes take_bit_word_eq_self)

lemma of_le_bytes_u64 [simp]: "of_le_bytes (u64_to_vec n) = n"
  by (simp add: u64_to_vec_def of_le_bytes_le_bytes take_bit_word_eq_self)

lemma u64_to_vec_inject [simp]: "u64_to_vec a = u64_to_vec b \<longleftrightarrow> a = b"
  by (metis of_le_bytes_u64)

lemma u32_to_vec_inject [simp]: "u32_to_vec a = u32_to_vec b \<longleftrightarrow> a = b"
  by (metis of_le_bytes_u32)

text \<open>The other direction, for byte strings that fit the integer.\<close>

lemma bit_of_le_bytes_bound: "bit (of_le_bytes bs :: 'a::len word) k \<Longrightarrow> k < 8 * length bs"
proof (induction bs arbitrary: k)
  case (Cons b bs)
  then consider "bit b k" | "8 \<le> k" "bit (of_le_bytes bs :: 'a word) (k - 8)"
    by (auto simp: bit_simps)
  then show ?case
  proof cases
    case 1
    then have "k < 8" by (auto dest: bit_imp_le_length)
    then show ?thesis by simp
  next
    case 2
    with Cons.IH [OF 2(2)] show ?thesis by simp
  qed
qed simp

lemma le_bytes_of_le_bytes:
  "8 * length bs \<le> LENGTH('a) \<Longrightarrow> le_bytes (length bs) (of_le_bytes bs :: 'a::len word) = bs"
proof (induction bs)
  case (Cons b bs)
  have hd: "ucast (of_le_bytes (b # bs) :: 'a word) = b"
    using Cons.prems by (intro bit_word_eqI) (auto simp: bit_simps)
  have "drop_bit 8 (of_le_bytes (b # bs) :: 'a word) = of_le_bytes bs"
  proof (rule bit_word_eqI)
    fix k
    have "\<not> bit b (8 + k)" by (auto dest: bit_imp_le_length)
    moreover have "8 + k < LENGTH('a)" if "bit (of_le_bytes bs :: 'a word) k"
    proof -
      from that have "k < 8 * length bs" by (rule bit_of_le_bytes_bound)
      with Cons.prems show ?thesis by simp
    qed
    ultimately show "bit (drop_bit 8 (of_le_bytes (b # bs) :: 'a word)) k
        = bit (of_le_bytes bs :: 'a word) k"
      by (auto simp: bit_simps add.commute)
  qed
  then show ?case using Cons hd by simp
qed simp

section \<open>Padding\<close>

function right_pad_vec :: "'a list \<Rightarrow> nat \<Rightarrow> 'a \<Rightarrow> 'a list" where
  "right_pad_vec vec len pad =
     (if length vec < len then right_pad_vec (vec @ [pad]) len pad else vec)"
  by pat_completeness auto
termination
  by (relation "measure (\<lambda>(vec, len, pad). len - length vec)") auto

declare right_pad_vec.simps [simp del]

text \<open>The loop appends exactly the missing elements and never truncates.\<close>

lemma right_pad_vec_eq: "right_pad_vec vec len pad = vec @ replicate (len - length vec) pad"
proof (induction vec len pad rule: right_pad_vec.induct)
  case (1 vec len pad)
  show ?case
  proof (cases "length vec < len")
    case True
    then have "replicate (len - length vec) pad = pad # replicate (len - Suc (length vec)) pad"
      by (metis Suc_diff_Suc replicate_Suc)
    with True 1 show ?thesis by (simp add: right_pad_vec.simps [of vec])
  qed (simp add: right_pad_vec.simps [of vec])
qed

lemma length_right_pad_vec: "length (right_pad_vec vec len pad) = max len (length vec)"
  by (simp add: right_pad_vec_eq)

lemma right_pad_vec_long: "len \<le> length vec \<Longrightarrow> right_pad_vec vec len pad = vec"
  by (simp add: right_pad_vec_eq)

section \<open>Gas prices\<close>

definition INSTRUCTION :: u32 where "INSTRUCTION = 1"
definition GET_BYTE_MEMORY :: u32 where "GET_BYTE_MEMORY = 200"
definition SET_BYTE_MEMORY :: u32 where "SET_BYTE_MEMORY = 5000"
definition GET_BYTE_STORAGE :: u32 where "GET_BYTE_STORAGE = 10"
definition SET_BYTE_STORAGE :: u32 where "SET_BYTE_STORAGE = 500"

lemmas gas_cost_defs = INSTRUCTION_def GET_BYTE_MEMORY_def SET_BYTE_MEMORY_def
  GET_BYTE_STORAGE_def SET_BYTE_STORAGE_def

section \<open>Changesets\<close>

text \<open>A \<open>HashMap<Vec<u8>, Vec<u8>>\<close>; \<open>insert\<close> is map update, \<open>extend\<close> is \<open>++\<close>.\<close>

type_synonym changeset = "bytes \<rightharpoonup> bytes"

end
