(* ===== verification/Vm_Store.thy ===== *)
theory Vm_Store
  imports Vm_Helpers
begin

text \<open>
  The contract that native/vm/src/memory.rs and native/vm/src/storage.rs share and that the
  virtual machine relies on: writes are staged in a working changeset, \<open>commit\<close> merges them into
  the changeset and \<open>rollback\<close> drops them, and reads see committed entries only. Also the interface
  of the two databases behind them (crates redis and rocksdb, not under src/), which the stores
  only read. An answer \<open>None\<close> of the connection is a Redis error, on which the code panics.
\<close>

section \<open>The databases\<close>

text \<open>
  \<open>lrange key start stop\<close> is the reply to LRANGE read as a \<open>Vec<u64>\<close>; \<open>hget name field\<close> the reply to
  HGET read as a \<open>Vec<u8>\<close>. A rocksdb lookup is \<open>Inl\<close> an error text or \<open>Inr\<close> the optional value.
\<close>

record redis_conn =
  lrange :: "bytes \<Rightarrow> int \<Rightarrow> int \<Rightarrow> u64 list option"
  hget :: "bytes \<Rightarrow> bytes \<Rightarrow> bytes option"

type_synonym rocksdb = "bytes \<Rightarrow> string + bytes option"

section \<open>The abstract store\<close>

text \<open>
  The operations that change a store, and what they promise, key by key: a value that every read
  shows and one that waits for the commit.
\<close>

datatype store_op = Put bytes bytes | Commit | Rollback

fun shown :: "store_op list \<Rightarrow> bytes \<Rightarrow> bytes option \<Rightarrow> bytes \<Rightarrow> bytes" where
  "shown [] visible waiting k = visible"
| "shown (Put k' v # ops) visible waiting k = shown ops visible (if k' = k then Some v else waiting) k"
| "shown (Commit # ops) visible waiting k =
     shown ops (case waiting of Some v \<Rightarrow> v | None \<Rightarrow> visible) None k"
| "shown (Rollback # ops) visible waiting k = shown ops visible None k"

text \<open>An operation as a change of a store that has the three functions.\<close>

definition store_apply ::
  "(bytes \<Rightarrow> bytes \<Rightarrow> 's \<Rightarrow> 's) \<Rightarrow> ('s \<Rightarrow> 's) \<Rightarrow> ('s \<Rightarrow> 's) \<Rightarrow> store_op \<Rightarrow> 's \<Rightarrow> 's" where
  "store_apply put commit rollback op =
     (case op of Put k v \<Rightarrow> put k v | Commit \<Rightarrow> commit | Rollback \<Rightarrow> rollback)"

section \<open>The staged store interface\<close>

locale staged_store =
  fixes committed :: "'s \<Rightarrow> changeset"
    and pending :: "'s \<Rightarrow> changeset"
    and get_cached :: "'s \<Rightarrow> bytes \<Rightarrow> bytes option"
    and store_set :: "bytes \<Rightarrow> bytes \<Rightarrow> 's \<Rightarrow> 's"
    and commit :: "'s \<Rightarrow> 's"
    and rollback :: "'s \<Rightarrow> 's"
  assumes cached: "get_cached s k = committed s k"
    and committed_set: "committed (store_set k v s) = committed s"
    and pending_set: "pending (store_set k v s) = (pending s)(k \<mapsto> v)"
    and committed_commit: "committed (commit s) = committed s ++ pending s"
    and pending_commit: "pending (commit s) = Map.empty"
    and committed_rollback: "committed (rollback s) = committed s"
    and pending_rollback: "pending (rollback s) = Map.empty"
begin

lemmas store_laws = cached committed_set pending_set committed_commit pending_commit
  committed_rollback pending_rollback

text \<open>The refinement: an operation sequence on the store shows what it shows on the abstract store.\<close>

abbreviation operate :: "store_op list \<Rightarrow> 's \<Rightarrow> 's" where
  "operate \<equiv> fold (store_apply store_set commit rollback)"

abbreviation shows_at :: "'s \<Rightarrow> bytes \<Rightarrow> bytes \<Rightarrow> bytes" where
  "shows_at s stored k \<equiv> (case get_cached s k of Some v \<Rightarrow> v | None \<Rightarrow> stored)"

lemma refines_shown:
  "shows_at (operate ops s) stored k = shown ops (shows_at s stored k) (pending s k) k"
proof (induction ops arbitrary: s)
  case (Cons op ops)
  have "shown (op # ops) (shows_at s stored k) (pending s k) k =
      shown ops (shows_at (store_apply store_set commit rollback op s) stored k) (pending (store_apply store_set commit rollback op s) k) k"
    by (cases op) (auto simp: store_apply_def store_laws map_add_def split: option.split)
  with Cons show ?case by simp
qed simp

lemma kept_by_operations:
  assumes "\<And>k v s. f (store_set k v s) = f s" "\<And>s. f (commit s) = f s" "\<And>s. f (rollback s) = f s"
  shows "f (operate ops s) = f s"
proof (induction ops arbitrary: s)
  case (Cons op ops)
  have "f (store_apply store_set commit rollback op s) = f s" using assms by (cases op) (simp_all add: store_apply_def)
  with Cons show ?case by simp
qed simp

text \<open>A batch of writes, in order.\<close>

abbreviation set_all :: "(bytes \<times> bytes) list \<Rightarrow> 's \<Rightarrow> 's" where
  "set_all kvs s \<equiv> fold (\<lambda>(k, v). store_set k v) kvs s"

lemma committed_set_all: "committed (set_all kvs s) = committed s"
  by (induction kvs arbitrary: s) (auto simp: committed_set)

lemma pending_set_all: "pending (set_all kvs s) = pending s ++ map_of (rev kvs)"
  by (induction kvs arbitrary: s) (auto simp: pending_set map_add_upd_left fun_eq_iff map_add_def
      split: option.splits)

text \<open>A write is not visible to the reads that follow it in the same call.\<close>

lemma read_after_set: "get_cached (store_set k v s) k' = get_cached s k'"
  by (simp add: store_laws)

lemma read_after_set_all: "get_cached (set_all kvs s) k = get_cached s k"
  by (simp add: cached committed_set_all)

text \<open>After the commit the last write of each key is what reads return.\<close>

lemma commit_set_all:
  "committed (commit (set_all kvs s)) = committed s ++ pending s ++ map_of (rev kvs)"
  by (simp add: committed_commit committed_set_all pending_set_all)

lemma read_committed_write: "get_cached (commit (store_set k v s)) k = Some v"
  by (simp add: store_laws)

lemma read_committed_other:
  "k' \<noteq> k \<Longrightarrow> get_cached (commit (store_set k v s)) k' = get_cached (commit s) k'"
  by (simp add: store_laws map_add_def)

text \<open>A rollback forgets every write since the last commit.\<close>

lemma rollback_set_all: "committed (rollback (set_all kvs s)) = committed s"
  by (simp add: committed_rollback committed_set_all)

lemma commit_after_rollback: "committed (commit (rollback s)) = committed s"
  by (simp add: store_laws)

lemma commit_commit: "committed (commit (commit s)) = committed (commit s)"
  by (simp add: store_laws)

end

end
