(* ===== verification/Vm_Memory.thy ===== *)
theory Vm_Memory
  imports Vm_Store
begin

text \<open>
  native/vm/src/memory.rs: the contracts' memory, a changeset over a Redis database. The newest
  block that wrote a key is the head of the list \<open>memory:key\<close>; the value is the field
  block-number-then-key of the hash \<open>memory\<close>.
\<close>

datatype state_type = MemoryState | StorageState

definition NAMESPACE :: bytes where
  "NAMESPACE = as_bytes ''memory''"

record memory =
  mem_redis :: redis_conn
  mem_changeset :: changeset
  mem_working_changeset :: changeset

fun state_type_to_string :: "state_type \<Rightarrow> string" where
  "state_type_to_string MemoryState = ''memory''"
| "state_type_to_string StorageState = ''storage''"

definition block_index_key :: "state_type \<Rightarrow> bytes \<Rightarrow> bytes" where
  "block_index_key state_type key =
     concat [as_bytes (state_type_to_string state_type), as_bytes '':'', key]"

definition memory_new :: "redis_conn \<Rightarrow> changeset \<Rightarrow> memory" where
  "memory_new redis changeset =
     \<lparr>mem_redis = redis, mem_changeset = changeset, mem_working_changeset = Map.empty\<rparr>"

definition memory_get_latest :: "memory \<Rightarrow> state_type \<Rightarrow> bytes \<Rightarrow> u64 may_panic" where
  "memory_get_latest m state_type key =
     (case lrange (mem_redis m) (block_index_key state_type key) 0 0 of
        None \<Rightarrow> Inl ''invalid block index''
      | Some [] \<Rightarrow> Inr 0
      | Some (n # _) \<Rightarrow> Inr n)"

definition get_from_memory :: "memory \<Rightarrow> bytes \<Rightarrow> bytes may_panic" where
  "get_from_memory m key =
     panic_bind (memory_get_latest m MemoryState key) (\<lambda>latest_block.
     let hash_key = concat [u64_to_vec latest_block, key]
     in case hget (mem_redis m) NAMESPACE hash_key of
          None \<Rightarrow> Inl unwrap_err_msg
        | Some value \<Rightarrow> Inr value)"

definition memory_get_cached :: "memory \<Rightarrow> bytes \<Rightarrow> bytes option" where
  "memory_get_cached m key = mem_changeset m key"

text \<open>
  The argument of \<open>unwrap_or\<close> is evaluated before the call, so the database is read, and a
  database error is a panic, also when the key is in the changeset.
\<close>

definition memory_get :: "memory \<Rightarrow> bytes \<Rightarrow> bytes may_panic" where
  "memory_get m key =
     panic_bind (get_from_memory m key) (\<lambda>stored.
     Inr (case memory_get_cached m key of Some v \<Rightarrow> v | None \<Rightarrow> stored))"

definition memory_set :: "bytes \<Rightarrow> bytes \<Rightarrow> memory \<Rightarrow> memory" where
  "memory_set key value m =
     m\<lparr>mem_working_changeset := (mem_working_changeset m)(key \<mapsto> value)\<rparr>"

definition memory_commit :: "memory \<Rightarrow> memory" where
  "memory_commit m =
     m\<lparr>mem_changeset := mem_changeset m ++ mem_working_changeset m,
       mem_working_changeset := Map.empty\<rparr>"

definition memory_rollback :: "memory \<Rightarrow> memory" where
  "memory_rollback m = m\<lparr>mem_working_changeset := Map.empty\<rparr>"

lemmas memory_op_defs = memory_get_cached_def memory_set_def memory_commit_def
  memory_rollback_def memory_new_def

interpretation mem: staged_store mem_changeset mem_working_changeset memory_get_cached
  memory_set memory_commit memory_rollback
  by unfold_locales (simp_all add: memory_op_defs)

section \<open>Reads\<close>

text \<open>The database part of a read depends on the connections only, not on the changesets.\<close>

lemma get_from_memory_cong: "mem_redis m = mem_redis m' \<Longrightarrow> get_from_memory m = get_from_memory m'"
  by (rule ext) (simp add: get_from_memory_def memory_get_latest_def cong: option.case_cong)

lemma memory_get_cached_value:
  assumes "memory_get_cached m key = Some v" and "get_from_memory m key = Inr stored"
  shows "memory_get m key = Inr v"
  using assms by (simp add: memory_get_def)

lemma memory_ops_redis [simp]:
  "mem_redis (memory_set k v m) = mem_redis m" "mem_redis (memory_commit m) = mem_redis m"
  "mem_redis (memory_rollback m) = mem_redis m" "mem_redis (memory_new r c) = r"
  by (simp_all add: memory_op_defs)

end
