(* ===== verification/Vm_Storage.thy ===== *)
theory Vm_Storage
  imports Vm_Memory
begin

text \<open>
  native/vm/src/storage.rs: the contracts' storage and their code, a changeset over a read-only
  RocksDB. The block index of a key is still a Redis list, \<open>storage:key\<close>; the value is found under
  block-number-then-key in RocksDB. The file repeats \<open>StateType\<close> and the index key of memory.rs.
\<close>

record storage =
  sto_redis :: redis_conn
  sto_rocksdb :: rocksdb
  sto_changeset :: changeset
  sto_working_changeset :: changeset

fun storage_state_type_to_string :: "state_type \<Rightarrow> string" where
  "storage_state_type_to_string MemoryState = ''memory''"
| "storage_state_type_to_string StorageState = ''storage''"

definition storage_block_index_key :: "state_type \<Rightarrow> bytes \<Rightarrow> bytes" where
  "storage_block_index_key state_type key =
     concat [as_bytes (storage_state_type_to_string state_type), as_bytes '':'', key]"

definition storage_new :: "redis_conn \<Rightarrow> rocksdb \<Rightarrow> changeset \<Rightarrow> storage" where
  "storage_new redis rocksdb changeset =
     \<lparr>sto_redis = redis, sto_rocksdb = rocksdb, sto_changeset = changeset,
      sto_working_changeset = Map.empty\<rparr>"

definition storage_get_latest :: "storage \<Rightarrow> state_type \<Rightarrow> bytes \<Rightarrow> u64 may_panic" where
  "storage_get_latest st state_type key =
     (case lrange (sto_redis st) (storage_block_index_key state_type key) 0 0 of
        None \<Rightarrow> Inl ''invalid block index''
      | Some [] \<Rightarrow> Inr 0
      | Some (n # _) \<Rightarrow> Inr n)"

definition get_from_storage :: "storage \<Rightarrow> bytes \<Rightarrow> bytes may_panic" where
  "get_from_storage st key =
     panic_bind (storage_get_latest st StorageState key) (\<lambda>latest_block.
     let hash_key = concat [u64_to_vec latest_block, key]
     in case sto_rocksdb st hash_key of
          Inr (Some value) \<Rightarrow> Inr value
        | Inr None \<Rightarrow> Inr []
        | Inl e \<Rightarrow> Inl e)"

definition storage_get_cached :: "storage \<Rightarrow> bytes \<Rightarrow> bytes option" where
  "storage_get_cached st key = sto_changeset st key"

definition storage_get :: "storage \<Rightarrow> bytes \<Rightarrow> bytes may_panic" where
  "storage_get st key =
     panic_bind (get_from_storage st key) (\<lambda>stored.
     Inr (case storage_get_cached st key of Some v \<Rightarrow> v | None \<Rightarrow> stored))"

definition storage_set :: "bytes \<Rightarrow> bytes \<Rightarrow> storage \<Rightarrow> storage" where
  "storage_set key value st =
     st\<lparr>sto_working_changeset := (sto_working_changeset st)(key \<mapsto> value)\<rparr>"

definition storage_commit :: "storage \<Rightarrow> storage" where
  "storage_commit st =
     st\<lparr>sto_changeset := sto_changeset st ++ sto_working_changeset st,
        sto_working_changeset := Map.empty\<rparr>"

definition storage_rollback :: "storage \<Rightarrow> storage" where
  "storage_rollback st = st\<lparr>sto_working_changeset := Map.empty\<rparr>"

lemmas storage_op_defs = storage_get_cached_def storage_set_def storage_commit_def
  storage_rollback_def storage_new_def

interpretation sto: staged_store sto_changeset sto_working_changeset storage_get_cached
  storage_set storage_commit storage_rollback
  by unfold_locales (simp_all add: storage_op_defs)

section \<open>Reads\<close>

text \<open>The database part of a read depends on the connections only, not on the changesets.\<close>

lemma get_from_storage_cong:
  "sto_redis m = sto_redis m' \<Longrightarrow> sto_rocksdb m = sto_rocksdb m' \<Longrightarrow>
   get_from_storage m = get_from_storage m'"
  by (rule ext) (simp add: get_from_storage_def storage_get_latest_def cong: option.case_cong)

lemma storage_get_cached_value:
  assumes "storage_get_cached st key = Some v" and "get_from_storage st key = Inr stored"
  shows "storage_get st key = Inr v"
  using assms by (simp add: storage_get_def)

lemma storage_ops_dbs [simp]:
  "sto_redis (storage_set k v m) = sto_redis m" "sto_redis (storage_commit m) = sto_redis m"
  "sto_redis (storage_rollback m) = sto_redis m" "sto_redis (storage_new r d c) = r"
  "sto_rocksdb (storage_set k v m) = sto_rocksdb m" "sto_rocksdb (storage_commit m) = sto_rocksdb m"
  "sto_rocksdb (storage_rollback m) = sto_rocksdb m" "sto_rocksdb (storage_new r d c) = d"
  by (simp_all add: storage_op_defs)

end
