(* ===== verification/Vm_Data.thy ===== *)
theory Vm_Data
  imports Vm_Storage
begin

text \<open>
  The data of the virtual machine (native/vm/src/env.rs, transaction.rs, result.rs) and the
  interface of the third-party crates it is written against: serde_cbor and the metered_wasmi
  interpreter. Those crates are the fields of the record \<open>platform\<close>, an argument of every definition
  that uses them.
\<close>

section \<open>Values, environment and transactions\<close>

text \<open>\<open>serde_cbor::Value\<close>; a float is kept as its bits, a map as its entries in order.\<close>

datatype cbor_value =
    Null
  | Bool bool
  | Integer int
  | Float u64
  | Bytes bytes
  | Text string
  | Array "cbor_value list"
  | Map "(cbor_value \<times> cbor_value) list"

record env =
  block_number :: u64
  block_winner :: bytes
  block_hash :: bytes
  caller :: "bytes option"

record transaction =
  contract_address :: bytes
  sender :: bytes
  nonce :: u64
  gas_limit :: u64
  function_name :: string
  arguments :: "cbor_value list"

record completed_transaction = transaction +
  return_value :: cbor_value
  return_code :: u32

section \<open>The interface of metered\_wasmi and serde\_cbor\<close>

text \<open>
  The interpreter is a machine with an activation \<open>'a\<close> (its stacks) and a module instance \<open>'i\<close>
  (its linear memory, globals and tables). One \<open>wasm_step\<close> ends the invocation, asks the embedder
  to charge for an instruction (\<open>Externals::use_gas\<close>), or calls a host function
  (\<open>Externals::invoke_index\<close>) and waits for its answer. A trap is known here only by the debug text
  of its kind; \<open>OutOfGas\<close> is the one kind the code creates itself.
\<close>

datatype runtime_value = I32 i32 | I64 i64 | F32 u32 | F64 u64

datatype trap_kind = OutOfGas | OtherTrap string

datatype wasm_error = ErrTrap trap_kind | ErrOther string

datatype 'a wasm_event =
    Finished "runtime_value option"
  | Trapped trap_kind
  | Errored string
  | Meter 'a
  | CallHost nat "runtime_value list" "runtime_value option \<Rightarrow> 'a"

datatype value_type = TI32 | TI64 | TF32 | TF64

datatype extern_val = ExternMemory | ExternOther

text \<open>
  The start function of a module, if it has one, runs when the module is instantiated, with externals
  that have no gas counter (\<open>NopExternals\<close>): it returns, fails, or runs for ever.
\<close>

datatype 'i started = Started 'i | StartFailed | StartLoops

type_synonym host_func = "(value_type list \<times> value_type option) \<times> nat"

type_synonym import_resolvers = "string \<rightharpoonup> (string \<Rightarrow> string + host_func)"

record ('mo, 'i, 'a) platform =
  build :: build_mode
  from_buffer :: "bytes \<Rightarrow> 'mo option"
  instantiate :: "'mo \<Rightarrow> import_resolvers \<Rightarrow> 'i option"
  run_start :: "'i \<Rightarrow> 'i started"
  start_export :: "'i \<Rightarrow> string \<Rightarrow> runtime_value list \<Rightarrow> string + 'a"
  wasm_step :: "'a \<Rightarrow> 'i \<Rightarrow> 'a wasm_event \<times> 'i"
  exported :: "'i \<Rightarrow> string \<Rightarrow> extern_val option"
  mem_get :: "'i \<Rightarrow> u32 \<Rightarrow> nat \<Rightarrow> bytes option"
  mem_set :: "'i \<Rightarrow> u32 \<Rightarrow> bytes \<Rightarrow> 'i option"
  fresh_mem_set :: "nat \<Rightarrow> u32 \<Rightarrow> bytes \<Rightarrow> bool"
  value_to_vec :: "cbor_value \<Rightarrow> bytes option"
  value_from_slice :: "bytes \<Rightarrow> cbor_value option"
  values_from_slice :: "bytes \<Rightarrow> cbor_value list option"
  not_found_to_vec :: "(u32 \<times> cbor_value) \<times> u32 option \<Rightarrow> bytes option"

text \<open>\<open>RuntimeArgs::nth::<i32>\<close> panics on a missing argument and on one of another type.\<close>

definition args_nth :: "runtime_value list \<Rightarrow> nat \<Rightarrow> i32 may_panic" where
  "args_nth args n =
     (if n < length args then (case args ! n of I32 v \<Rightarrow> Inr v | _ \<Rightarrow> Inl ''bad argument type'')
      else Inl ''missing argument'')"

fun trap_kind_debug :: "trap_kind \<Rightarrow> string" where
  "trap_kind_debug OutOfGas = ''OutOfGas''"
| "trap_kind_debug (OtherTrap s) = s"

section \<open>Results\<close>

type_synonym result = "u32 \<times> cbor_value"

definition vm_panic :: result where
  "vm_panic = (1, Text ''vm panic'')"

definition wasm_trap :: "trap_kind \<Rightarrow> result" where
  "wasm_trap trap = (1, Text (''WebAssembly Trap: '' @ trap_kind_debug trap))"

definition contract_not_found :: "transaction \<Rightarrow> result" where
  "contract_not_found transaction = (2, Text ''Contract not found'')"

definition to_bytes :: "('mo, 'i, 'a) platform \<Rightarrow> result \<Rightarrow> bytes may_panic" where
  "to_bytes P result =
     (case value_to_vec P (snd result) of
        None \<Rightarrow> Inl unwrap_err_msg
      | Some return_bytes \<Rightarrow> Inr (concat [u32_to_vec (fst result), return_bytes]))"

text \<open>
  The length is tested for zero only: \<open>split_at(4)\<close> panics on one to three bytes, and the inner
  test for an empty input is never true.
\<close>

definition from_bytes :: "('mo, 'i, 'a) platform \<Rightarrow> bytes \<Rightarrow> result may_panic" where
  "from_bytes P bs =
     (if length bs = 0 then Inr vm_panic
      else if length bs < 4 then Inl ''mid > len''
      else case value_from_slice P (drop 4 bs) of
             None \<Rightarrow> Inl unwrap_err_msg
           | Some v \<Rightarrow> Inr (of_le_bytes (take 4 bs), v))"

text \<open>The calling convention between contracts round-trips whenever the CBOR codec does.\<close>

lemma from_bytes_to_bytes:
  assumes "value_to_vec P v = Some bs" and "value_from_slice P bs = Some v"
  shows "panic_bind (to_bytes P (code, v)) (from_bytes P) = Inr (code, v)"
  using assms by (simp add: to_bytes_def from_bytes_def)

section \<open>Completion of a transaction\<close>

definition complete :: "transaction \<Rightarrow> result \<Rightarrow> completed_transaction" where
  "complete tx result =
     \<lparr>contract_address = contract_address tx, sender = sender tx, nonce = nonce tx,
      gas_limit = gas_limit tx, function_name = function_name tx, arguments = arguments tx,
      return_value = snd result, return_code = fst result\<rparr>"

lemma complete_fields [simp]:
  "transaction.truncate (complete tx r) = tx"
  "return_value (complete tx r) = snd r" "return_code (complete tx r) = fst r"
  by (simp_all add: complete_def transaction.defs)

end
