(* ===== verification/Vm_Machine.thy ===== *)
theory Vm_Machine
  imports Vm_Data
begin

text \<open>
  native/vm/src/vm: the virtual machine. \<open>use_gas\<close> is vm/gas.rs, the linear-memory operations are
  vm/memory.rs, the host functions and their dispatch vm/externals.rs, the import table
  vm/import_resolver.rs, the call sequence vm/call.rs, and module instantiation vm/mod.rs.

  The interpreter calls back into the host functions, and three of them (allocating a result,
  calling another contract, and the call sequence itself) invoke the interpreter again. The
  operations below take that invocation as the argument \<open>invoke\<close>; \<open>invoke_export\<close> at the end ties the
  knot. Its fuel bounds both the nesting of invocations and the steps of one of them.
\<close>

section \<open>The machine\<close>

record 'i vm =
  vm_instance :: 'i
  vm_memory :: memory
  vm_storage :: storage
  vm_transaction :: transaction
  vm_gas :: "u32 option"
  vm_env :: env

type_synonym ('i, 'r) vm_op = "('i vm, trap_kind, 'r) rust"

type_synonym 'i invocation =
  "string \<Rightarrow> runtime_value list \<Rightarrow> ('i vm, wasm_error, runtime_value option) rust"

definition use_gas :: "u32 \<Rightarrow> ('i, unit) vm_op" where
  "use_gas amount vm =
     (case vm_gas vm of
        Some gas \<Rightarrow>
          if gas < amount then (Err OutOfGas, vm)
          else (Ok (), vm\<lparr>vm_gas := Some (gas - amount)\<rparr>)
      | None \<Rightarrow> (Ok (), vm))"

section \<open>Linear memory\<close>

text \<open>
  A negative length converts to a \<open>usize\<close> by sign extension, so the read fails as out of bounds.
  An export called memory that is not a memory reads as empty; writes to it go to a fresh memory
  of 256 pages that is dropped.
\<close>

definition read_memory :: "('mo, 'i, 'a) platform \<Rightarrow> i32 \<Rightarrow> i32 \<Rightarrow> ('i, bytes) vm_op" where
  "read_memory P pointer len =
     and_then (gets vm_instance) (\<lambda>inst.
     case exported P inst ''memory'' of
       None \<Rightarrow> panic ''error reading memory''
     | Some ExternMemory \<Rightarrow> unwrap unwrap_err_msg (mem_get P inst pointer (unat (scast len :: u64)))
     | Some ExternOther \<Rightarrow> ret [])"

definition write_memory :: "('mo, 'i, 'a) platform \<Rightarrow> i32 \<Rightarrow> bytes \<Rightarrow> ('i, unit) vm_op" where
  "write_memory P pointer v =
     and_then (gets vm_instance) (\<lambda>inst.
     case exported P inst ''memory'' of
       None \<Rightarrow> panic unwrap_none_msg
     | Some ExternMemory \<Rightarrow>
         and_then (unwrap unwrap_err_msg (mem_set P inst pointer v)) (\<lambda>inst'.
         modify (\<lambda>vm. vm\<lparr>vm_instance := inst'\<rparr>))
     | Some ExternOther \<Rightarrow>
         if fresh_mem_set P 256 pointer v then ret () else panic unwrap_err_msg)"

definition read_i32 :: "('mo, 'i, 'a) platform \<Rightarrow> i32 \<Rightarrow> ('i, i32) vm_op" where
  "read_i32 P ptr =
     and_then (read_memory P ptr 4) (\<lambda>slice.
     if length slice = 4 then ret (of_le_bytes slice)
     else panic ''destination and source slices have different lengths'')"

definition read_pointer :: "('mo, 'i, 'a) platform \<Rightarrow> i32 \<Rightarrow> ('i, bytes) vm_op" where
  "read_pointer P ptr =
     and_then (read_i32 P ptr) (\<lambda>len.
     and_then (lift_panic (add_i32 (build P) ptr 4)) (\<lambda>offset.
     read_memory P offset len))"

definition malloc :: "'i invocation \<Rightarrow> nat \<Rightarrow> ('i, i32) vm_op" where
  "malloc invoke n =
     and_then (attempt (invoke ''__malloc'' [I32 (word_of_nat n)])) (\<lambda>r.
     case r of
       Inr (Some (I32 v)) \<Rightarrow> ret v
     | Inl _ \<Rightarrow> throw OutOfGas
     | _ \<Rightarrow> panic ''malloc failed'')"

definition write_pointer ::
  "('mo, 'i, 'a) platform \<Rightarrow> 'i invocation \<Rightarrow> bytes \<Rightarrow> ('i, runtime_value option) vm_op" where
  "write_pointer P invoke vec =
     (let vec_with_length = concat [i32_to_vec (word_of_nat (length vec)), vec] in
      and_then (malloc invoke (length vec_with_length)) (\<lambda>vec_pointer.
      and_then (write_memory P vec_pointer vec_with_length) (\<lambda>_.
      ret (Some (I32 vec_pointer)))))"

section \<open>Import resolution and instantiation\<close>

definition CONTRACT_ADDRESS_FUNC_INDEX :: nat where "CONTRACT_ADDRESS_FUNC_INDEX = 0"
definition SENDER_FUNC_INDEX :: nat where "SENDER_FUNC_INDEX = 1"
definition BLOCK_HASH_FUNC_INDEX :: nat where "BLOCK_HASH_FUNC_INDEX = 2"
definition BLOCK_NUMBER_FUNC_INDEX :: nat where "BLOCK_NUMBER_FUNC_INDEX = 3"
definition BLOCK_WINNER_FUNC_INDEX :: nat where "BLOCK_WINNER_FUNC_INDEX = 4"
definition CALLER_FUNC_INDEX :: nat where "CALLER_FUNC_INDEX = 5"
definition GET_MEMORY_FUNC_INDEX :: nat where "GET_MEMORY_FUNC_INDEX = 6"
definition SET_MEMORY_FUNC_INDEX :: nat where "SET_MEMORY_FUNC_INDEX = 7"
definition GET_STORAGE_FUNC_INDEX :: nat where "GET_STORAGE_FUNC_INDEX = 8"
definition SET_STORAGE_FUNC_INDEX :: nat where "SET_STORAGE_FUNC_INDEX = 9"
definition THROW_FUNC_INDEX :: nat where "THROW_FUNC_INDEX = 10"
definition CALL_FUNC_INDEX :: nat where "CALL_FUNC_INDEX = 11"
definition LOG_WRITE :: nat where "LOG_WRITE = 12"

lemmas func_index_defs = CONTRACT_ADDRESS_FUNC_INDEX_def SENDER_FUNC_INDEX_def
  BLOCK_HASH_FUNC_INDEX_def BLOCK_NUMBER_FUNC_INDEX_def BLOCK_WINNER_FUNC_INDEX_def
  CALLER_FUNC_INDEX_def GET_MEMORY_FUNC_INDEX_def SET_MEMORY_FUNC_INDEX_def
  GET_STORAGE_FUNC_INDEX_def SET_STORAGE_FUNC_INDEX_def THROW_FUNC_INDEX_def
  CALL_FUNC_INDEX_def LOG_WRITE_def

definition resolve_func :: "string \<Rightarrow> string + host_func" where
  "resolve_func field_name =
     (if field_name = ''__contract_address'' then
        Inr (([], Some TI32), CONTRACT_ADDRESS_FUNC_INDEX)
      else if field_name = ''__sender'' then Inr (([], Some TI32), SENDER_FUNC_INDEX)
      else if field_name = ''__block_hash'' then Inr (([], Some TI32), BLOCK_HASH_FUNC_INDEX)
      else if field_name = ''__block_number'' then Inr (([], Some TI32), BLOCK_NUMBER_FUNC_INDEX)
      else if field_name = ''__block_winner'' then Inr (([], Some TI32), BLOCK_WINNER_FUNC_INDEX)
      else if field_name = ''__caller'' then Inr (([], Some TI32), CALLER_FUNC_INDEX)
      else if field_name = ''__get_memory'' then Inr (([TI32], Some TI32), GET_MEMORY_FUNC_INDEX)
      else if field_name = ''__set_memory'' then Inr (([TI32, TI32], None), SET_MEMORY_FUNC_INDEX)
      else if field_name = ''__get_storage'' then Inr (([TI32], Some TI32), GET_STORAGE_FUNC_INDEX)
      else if field_name = ''__set_storage'' then
        Inr (([TI32, TI32], None), SET_STORAGE_FUNC_INDEX)
      else if field_name = ''throw'' then Inr (([TI32], None), THROW_FUNC_INDEX)
      else if field_name = ''__call'' then Inr (([TI32, TI32, TI32], Some TI32), CALL_FUNC_INDEX)
      else if field_name = ''__log_write'' then Inr (([TI32, TI32], None), LOG_WRITE)
      else Inl (''host module doesn't export function with name '' @ field_name))"

text \<open>
  Nothing limits the start function that runs here: if it does not return, neither does the
  instantiation, whatever gas the transaction has.
\<close>

definition start_failed :: string where
  "start_failed = ''Failed to run start function in module''"

definition new_module_instance ::
  "('mo, 'i, 'a) platform \<Rightarrow> bytes \<Rightarrow> (trap_kind, 'i) outcome" where
  "new_module_instance P code =
     (case from_buffer P code of
        None \<Rightarrow> Panic unwrap_err_msg
      | Some module \<Rightarrow>
          (case instantiate P module [''env'' \<mapsto> resolve_func] of
             None \<Rightarrow> Panic ''Failed to instantiate module''
           | Some inst \<Rightarrow>
               (case run_start P inst of
                  Started inst' \<Rightarrow> Ok inst'
                | StartFailed \<Rightarrow> Panic start_failed
                | StartLoops \<Rightarrow> Timeout)))"

lemma new_module_instance_not_Err [simp]: "new_module_instance P code \<noteq> Err e"
  by (simp add: new_module_instance_def split: option.split started.split)

section \<open>The call sequence\<close>

text \<open>
  Every argument is encoded and copied into the contract's memory first. A trap while doing so
  ends the call without a rollback; a trap of the function itself rolls both stores back.
\<close>

fun push_arguments ::
  "('mo, 'i, 'a) platform \<Rightarrow> 'i invocation \<Rightarrow> cbor_value list \<Rightarrow> runtime_value list
     \<Rightarrow> ('i, result + runtime_value list) vm_op" where
  "push_arguments P invoke [] runtime_values = ret (Inr runtime_values)"
| "push_arguments P invoke (arg # args) runtime_values =
     and_then (unwrap ''no args'' (value_to_vec P arg)) (\<lambda>arg_vec.
     and_then (attempt (write_pointer P invoke arg_vec)) (\<lambda>r.
     case r of
       Inr (Some arg_pointer) \<Rightarrow> push_arguments P invoke args (runtime_values @ [arg_pointer])
     | Inr None \<Rightarrow> ret (Inl vm_panic)
     | Inl trap \<Rightarrow> ret (Inl (wasm_trap trap))))"

definition commit_both :: "'i vm \<Rightarrow> 'i vm" where
  "commit_both vm = vm\<lparr>vm_memory := memory_commit (vm_memory vm),
                       vm_storage := storage_commit (vm_storage vm)\<rparr>"

definition rollback_both :: "'i vm \<Rightarrow> 'i vm" where
  "rollback_both vm = vm\<lparr>vm_memory := memory_rollback (vm_memory vm),
                         vm_storage := storage_rollback (vm_storage vm)\<rparr>"

definition finish_call ::
  "('mo, 'i, 'a) platform \<Rightarrow> wasm_error + runtime_value option \<Rightarrow> ('i, result \<times> u32 option) vm_op"
  where
  "finish_call P r =
     (case r of
        Inr (Some (I32 v)) \<Rightarrow>
          and_then (modify commit_both) (\<lambda>_.
          and_then (read_pointer P v) (\<lambda>bs.
          and_then (lift_panic (from_bytes P bs)) (\<lambda>res.
          gets (\<lambda>vm. (res, vm_gas vm)))))
      | Inl (ErrTrap trap) \<Rightarrow>
          and_then (modify rollback_both) (\<lambda>_. gets (\<lambda>vm. (wasm_trap trap, vm_gas vm)))
      | Inl (ErrOther e) \<Rightarrow> panic e
      | _ \<Rightarrow> panic ''vm error'')"

definition call ::
  "('mo, 'i, 'a) platform \<Rightarrow> 'i invocation \<Rightarrow> string \<Rightarrow> cbor_value list
     \<Rightarrow> ('i, result \<times> u32 option) vm_op" where
  "call P invoke func args =
     and_then (push_arguments P invoke args []) (\<lambda>pushed.
     case pushed of
       Inl res \<Rightarrow> gets (\<lambda>vm. (res, vm_gas vm))
     | Inr runtime_values \<Rightarrow>
         and_then (attempt (invoke func runtime_values)) (finish_call P))"

section \<open>Host functions\<close>

definition vm_contract_address :: "'i vm \<Rightarrow> bytes" where
  "vm_contract_address vm = contract_address (vm_transaction vm)"

definition vm_sender :: "'i vm \<Rightarrow> bytes" where
  "vm_sender vm = sender (vm_transaction vm)"

definition vm_block_hash :: "'i vm \<Rightarrow> bytes" where
  "vm_block_hash vm = block_hash (vm_env vm)"

definition vm_block_number :: "('mo, 'i, 'a) platform \<Rightarrow> ('i, bytes) vm_op" where
  "vm_block_number P =
     and_then (gets (\<lambda>vm. block_number (vm_env vm))) (\<lambda>n.
     unwrap unwrap_err_msg (value_to_vec P (Integer (uint n))))"

definition vm_block_winner :: "'i vm \<Rightarrow> bytes" where
  "vm_block_winner vm = block_winner (vm_env vm)"

definition vm_caller :: "'i vm \<Rightarrow> bytes" where
  "vm_caller vm = (case caller (vm_env vm) of Some v \<Rightarrow> v | None \<Rightarrow> [])"

definition namespaced_key :: "bytes \<Rightarrow> bytes \<Rightarrow> bytes" where
  "namespaced_key address key = concat [right_pad_vec address 64 0, key]"

abbreviation vm_namespaced_key :: "'i vm \<Rightarrow> bytes \<Rightarrow> bytes" where
  "vm_namespaced_key vm \<equiv> namespaced_key (vm_contract_address vm)"

text \<open>\<open>value.len() as u32 * price\<close>, in the arithmetic of the build.\<close>

definition byte_cost :: "('mo, 'i, 'a) platform \<Rightarrow> bytes \<Rightarrow> u32 \<Rightarrow> u32 may_panic" where
  "byte_cost P v price = mul_u32 (build P) (word_of_nat (length v)) price"

definition get_memory :: "('mo, 'i, 'a) platform \<Rightarrow> i32 \<Rightarrow> ('i, bytes) vm_op" where
  "get_memory P key_pointer =
     and_then (read_pointer P key_pointer) (\<lambda>key.
     and_then (gets (\<lambda>vm. memory_get (vm_memory vm) (vm_namespaced_key vm key))) (\<lambda>got.
     and_then (lift_panic got) (\<lambda>v.
     and_then (lift_panic (byte_cost P v GET_BYTE_MEMORY)) (\<lambda>cost.
     and_then (use_gas cost) (\<lambda>_. ret v)))))"

definition set_memory ::
  "('mo, 'i, 'a) platform \<Rightarrow> i32 \<Rightarrow> i32 \<Rightarrow> ('i, runtime_value option) vm_op" where
  "set_memory P key_pointer value_pointer =
     and_then (read_pointer P key_pointer) (\<lambda>key.
     and_then (read_pointer P value_pointer) (\<lambda>v.
     and_then (lift_panic (byte_cost P v SET_BYTE_MEMORY)) (\<lambda>cost.
     and_then (use_gas cost) (\<lambda>_.
     and_then (modify (\<lambda>vm. vm\<lparr>vm_memory :=
         memory_set (vm_namespaced_key vm key) v (vm_memory vm)\<rparr>)) (\<lambda>_.
     ret None)))))"

definition get_storage :: "('mo, 'i, 'a) platform \<Rightarrow> i32 \<Rightarrow> ('i, bytes) vm_op" where
  "get_storage P key_pointer =
     and_then (read_pointer P key_pointer) (\<lambda>key.
     and_then (gets (\<lambda>vm. storage_get (vm_storage vm) (vm_namespaced_key vm key))) (\<lambda>got.
     and_then (lift_panic got) (\<lambda>v.
     and_then (lift_panic (byte_cost P v GET_BYTE_STORAGE)) (\<lambda>cost.
     and_then (use_gas cost) (\<lambda>_. ret v)))))"

definition set_storage ::
  "('mo, 'i, 'a) platform \<Rightarrow> i32 \<Rightarrow> i32 \<Rightarrow> ('i, runtime_value option) vm_op" where
  "set_storage P key_pointer value_pointer =
     and_then (read_pointer P key_pointer) (\<lambda>key.
     and_then (read_pointer P value_pointer) (\<lambda>v.
     and_then (lift_panic (byte_cost P v SET_BYTE_STORAGE)) (\<lambda>cost.
     and_then (use_gas cost) (\<lambda>_.
     and_then (modify (\<lambda>vm. vm\<lparr>vm_storage :=
         storage_set (vm_namespaced_key vm key) v (vm_storage vm)\<rparr>)) (\<lambda>_.
     ret None)))))"

text \<open>
  The nested machine of an external call borrows the caller's memory and storage, so what it
  commits or rolls back is the caller's; \<open>with_borrowed\<close> runs it and returns the borrows.
\<close>

definition with_borrowed ::
  "('i vm \<Rightarrow> 'i vm) \<Rightarrow> ('i, 'r) vm_op \<Rightarrow> ('i, 'r) vm_op" where
  "with_borrowed setup m vm =
     (case m (setup vm) of (r, inner) \<Rightarrow>
        (r, vm\<lparr>vm_memory := vm_memory inner, vm_storage := vm_storage inner\<rparr>))"

definition nested_vm :: "'i \<Rightarrow> bytes \<Rightarrow> string \<Rightarrow> 'i vm \<Rightarrow> 'i vm" where
  "nested_vm inst address fname vm =
     vm\<lparr>vm_instance := inst,
        vm_transaction := (vm_transaction vm)\<lparr>contract_address := address, function_name := fname\<rparr>,
        vm_env := (vm_env vm)\<lparr>caller := Some (contract_address (vm_transaction vm))\<rparr>\<rparr>"

definition external_call ::
  "('mo, 'i, 'a) platform \<Rightarrow> 'i invocation \<Rightarrow> i32 \<Rightarrow> i32 \<Rightarrow> i32 \<Rightarrow> ('i, bytes) vm_op" where
  "external_call P invoke contract_address_pointer function_name_pointer arguments_pointer =
     and_then (read_pointer P contract_address_pointer) (\<lambda>address.
     and_then (read_pointer P function_name_pointer) (\<lambda>function_name_bytes.
     and_then (unwrap unwrap_err_msg (from_utf8 function_name_bytes)) (\<lambda>fname.
     and_then (read_pointer P arguments_pointer) (\<lambda>argument_bytes.
     and_then (unwrap unwrap_err_msg (values_from_slice P argument_bytes)) (\<lambda>args.
     and_then (gets (\<lambda>vm. storage_get (vm_storage vm) (right_pad_vec address 64 0))) (\<lambda>got.
     and_then (lift_panic got) (\<lambda>code.
     if length code = 0 then
       and_then (gets vm_transaction) (\<lambda>tx.
       unwrap unwrap_err_msg
         (not_found_to_vec P (contract_not_found tx, Some (ucast (gas_limit tx)))))
     else
       and_then (lift_outcome (new_module_instance P code)) (\<lambda>module_instance.
       and_then (with_borrowed (nested_vm module_instance address fname) (call P invoke fname args))
         (\<lambda>(res, gas_left).
       and_then (gets vm_gas) (\<lambda>gas.
       and_then (unwrap unwrap_none_msg gas) (\<lambda>gas_before.
       and_then (unwrap ''no gas left'' gas_left) (\<lambda>gas_after.
       and_then (lift_panic (sub_u32 (build P) gas_before gas_after)) (\<lambda>gas_used.
       and_then (use_gas gas_used) (\<lambda>_.
       lift_panic (to_bytes P res)))))))))))))))"

definition log_message :: "('mo, 'i, 'a) platform \<Rightarrow> i32 \<Rightarrow> i32 \<Rightarrow> ('i, runtime_value option) vm_op"
  where
  "log_message P log_level_pointer log_message_pointer =
     and_then (read_pointer P log_level_pointer) (\<lambda>_.
     and_then (read_pointer P log_message_pointer) (\<lambda>message.
     and_then (unwrap unwrap_err_msg (from_utf8 message)) (\<lambda>_. ret None)))"

definition invoke_index ::
  "('mo, 'i, 'a) platform \<Rightarrow> 'i invocation \<Rightarrow> nat \<Rightarrow> runtime_value list
     \<Rightarrow> ('i, runtime_value option) vm_op" where
  "invoke_index P invoke index args =
     (if index = CONTRACT_ADDRESS_FUNC_INDEX then
        and_then (gets vm_contract_address) (write_pointer P invoke)
      else if index = SENDER_FUNC_INDEX then and_then (gets vm_sender) (write_pointer P invoke)
      else if index = BLOCK_HASH_FUNC_INDEX then and_then (gets vm_block_hash) (write_pointer P invoke)
      else if index = BLOCK_NUMBER_FUNC_INDEX then
        and_then (vm_block_number P) (write_pointer P invoke)
      else if index = BLOCK_WINNER_FUNC_INDEX then
        and_then (gets vm_block_winner) (write_pointer P invoke)
      else if index = CALLER_FUNC_INDEX then and_then (gets vm_caller) (write_pointer P invoke)
      else if index = GET_MEMORY_FUNC_INDEX then
        and_then (lift_panic (args_nth args 0)) (\<lambda>a0.
        and_then (get_memory P a0) (write_pointer P invoke))
      else if index = SET_MEMORY_FUNC_INDEX then
        and_then (lift_panic (args_nth args 0)) (\<lambda>a0.
        and_then (lift_panic (args_nth args 1)) (\<lambda>a1. set_memory P a0 a1))
      else if index = GET_STORAGE_FUNC_INDEX then
        and_then (lift_panic (args_nth args 0)) (\<lambda>a0.
        and_then (get_storage P a0) (write_pointer P invoke))
      else if index = SET_STORAGE_FUNC_INDEX then
        and_then (lift_panic (args_nth args 0)) (\<lambda>a0.
        and_then (lift_panic (args_nth args 1)) (\<lambda>a1. set_storage P a0 a1))
      else if index = THROW_FUNC_INDEX then ret None
      else if index = CALL_FUNC_INDEX then
        and_then (lift_panic (args_nth args 0)) (\<lambda>a0.
        and_then (lift_panic (args_nth args 1)) (\<lambda>a1.
        and_then (lift_panic (args_nth args 2)) (\<lambda>a2.
        and_then (external_call P invoke a0 a1 a2) (write_pointer P invoke))))
      else if index = LOG_WRITE then
        and_then (lift_panic (args_nth args 0)) (\<lambda>a0.
        and_then (lift_panic (args_nth args 1)) (\<lambda>a1. log_message P a0 a1))
      else panic ''Called an unknown function index'')"

section \<open>The interpreter driven by the host functions\<close>

text \<open>
  \<open>run_wasm\<close> answers the requests of the interpreter: \<open>Externals::use_gas\<close> charges one
  \<open>INSTRUCTION\<close>, \<open>Externals::invoke_index\<close> is the argument \<open>host\<close>. A trap of either ends the
  invocation.
\<close>

definition charge_instruction :: "('i, unit) vm_op" where
  "charge_instruction = use_gas INSTRUCTION"

fun run_wasm ::
  "('mo, 'i, 'a) platform \<Rightarrow> (nat \<Rightarrow> runtime_value list \<Rightarrow> ('i, runtime_value option) vm_op)
     \<Rightarrow> nat \<Rightarrow> 'a \<Rightarrow> ('i vm, wasm_error, runtime_value option) rust" where
  "run_wasm P host 0 act = (\<lambda>vm. (Timeout, vm))"
| "run_wasm P host (Suc fuel) act =
     and_then (gets (\<lambda>vm. wasm_step P act (vm_instance vm))) (\<lambda>(event, inst).
     and_then (modify (\<lambda>vm. vm\<lparr>vm_instance := inst\<rparr>)) (\<lambda>_.
     case event of
       Finished v \<Rightarrow> ret v
     | Trapped t \<Rightarrow> throw (ErrTrap t)
     | Errored e \<Rightarrow> throw (ErrOther e)
     | Meter act' \<Rightarrow>
         and_then (attempt charge_instruction) (\<lambda>r.
         case r of Inl t \<Rightarrow> throw (ErrTrap t) | Inr _ \<Rightarrow> run_wasm P host fuel act')
     | CallHost index args k \<Rightarrow>
         and_then (attempt (host index args)) (\<lambda>r.
         case r of Inl t \<Rightarrow> throw (ErrTrap t) | Inr v \<Rightarrow> run_wasm P host fuel (k v))))"

declare run_wasm.simps(2) [simp del]

lemma run_wasm_step:
  assumes "wasm_step P act (vm_instance vm) = (ev, inst)"
  shows "run_wasm P host (Suc fuel) act vm =
    (case ev of
       Finished v \<Rightarrow> ret v
     | Trapped t \<Rightarrow> throw (ErrTrap t)
     | Errored e \<Rightarrow> throw (ErrOther e)
     | Meter act' \<Rightarrow>
         and_then (attempt charge_instruction) (\<lambda>r.
         case r of Inl t \<Rightarrow> throw (ErrTrap t) | Inr _ \<Rightarrow> run_wasm P host fuel act')
     | CallHost index args k \<Rightarrow>
         and_then (attempt (host index args)) (\<lambda>r.
         case r of Inl t \<Rightarrow> throw (ErrTrap t) | Inr v \<Rightarrow> run_wasm P host fuel (k v)))
      (vm\<lparr>vm_instance := inst\<rparr>)"
  using assms by (simp add: run_wasm.simps(2) and_then_def split: wasm_event.split)

fun invoke_export :: "('mo, 'i, 'a) platform \<Rightarrow> nat \<Rightarrow> 'i invocation" where
  "invoke_export P 0 func args = (\<lambda>vm. (Timeout, vm))"
| "invoke_export P (Suc fuel) func args =
     and_then (gets (\<lambda>vm. start_export P (vm_instance vm) func args)) (\<lambda>started.
     case started of
       Inl e \<Rightarrow> throw (ErrOther e)
     | Inr act \<Rightarrow> run_wasm P (invoke_index P (invoke_export P fuel)) fuel act)"

end
