(* ===== verification/Vm_Frames.thy ===== *)
theory Vm_Frames
  imports Vm_Machine
begin

text \<open>
  What the operations of the virtual machine leave alone. The three locales state what a relation
  on machine states has to tolerate: the interpreter and gas charging (\<open>vm_frame\<close>), the contract's
  own writes (\<open>vm_frame_writes\<close>), and calls between contracts (\<open>vm_frame_calls\<close>). Each proves once that
  the corresponding operations keep the relation. They are interpreted for the gas order, for the
  read-only context of a call, and for the committed changesets.
\<close>

section \<open>The interpreter, gas and reads\<close>

locale vm_frame = preorder_rel R for R :: "'i vm \<Rightarrow> 'i vm \<Rightarrow> bool" +
  assumes frame_instance: "R vm (vm\<lparr>vm_instance := i\<rparr>)"
    and frame_gas: "vm_gas vm = Some g \<Longrightarrow> a \<le> g \<Longrightarrow> R vm (vm\<lparr>vm_gas := Some (g - a)\<rparr>)"
begin

lemma keeps_use_gas: "keeps R (use_gas n)"
proof (rule keepsI)
  fix vm vm' :: "'i vm" and r
  assume "use_gas n vm = (r, vm')"
  then show "R vm vm'"
    by (cases "vm_gas vm") (auto simp: use_gas_def rel_refl not_less intro: frame_gas split: if_splits)
qed

lemma keeps_set_instance: "keeps R (modify (\<lambda>vm. vm\<lparr>vm_instance := i\<rparr>))"
  by (simp add: keeps_def frame_instance)

lemma keeps_read_memory: "keeps R (read_memory P ptr len)"
  unfolding read_memory_def
  by (intro keeps_basic) (auto split: option.split extern_val.split intro: keeps_basic)

lemma keeps_write_memory: "keeps R (write_memory P ptr v)"
  unfolding write_memory_def
  by (intro keeps_basic)
     (auto split: option.split extern_val.split intro!: keeps_basic keeps_set_instance)

lemma keeps_read_i32: "keeps R (read_i32 P ptr)"
  unfolding read_i32_def by (auto intro!: keeps_basic keeps_read_memory)

lemma keeps_read_pointer: "keeps R (read_pointer P ptr)"
  unfolding read_pointer_def by (intro keeps_basic keeps_read_i32 keeps_read_memory)

lemma keeps_get_memory: "keeps R (get_memory P ptr)"
  unfolding get_memory_def by (intro keeps_basic keeps_read_pointer keeps_use_gas)

lemma keeps_get_storage: "keeps R (get_storage P ptr)"
  unfolding get_storage_def by (intro keeps_basic keeps_read_pointer keeps_use_gas)

lemma keeps_log_message: "keeps R (log_message P a b)"
  unfolding log_message_def by (intro keeps_basic keeps_read_pointer)

lemma keeps_block_number: "keeps R (vm_block_number P)"
  unfolding vm_block_number_def by (intro keeps_basic)

lemma keeps_malloc:
  assumes "\<And>f args. keeps R (invoke f args)"
  shows "keeps R (malloc invoke n)"
  unfolding malloc_def
  by (intro keeps_basic assms)
     (auto split: sum.split option.split runtime_value.split intro: keeps_basic)

lemma keeps_write_pointer:
  assumes "\<And>f args. keeps R (invoke f args)"
  shows "keeps R (write_pointer P invoke v)"
  unfolding write_pointer_def Let_def
  by (intro keeps_basic keeps_malloc keeps_write_memory assms)

lemma keeps_push_arguments:
  assumes "\<And>f args. keeps R (invoke f args)"
  shows "keeps R (push_arguments P invoke args acc)"
proof (induction args arbitrary: acc)
  case (Cons arg args)
  show ?case
    unfolding push_arguments.simps
    by (intro keeps_basic keeps_write_pointer assms)
       (auto split: sum.split option.split intro!: keeps_basic Cons.IH)
qed (simp add: keeps_ret)

text \<open>
  The interpreter loop keeps what the host functions it may call keep. \<open>allowed\<close> restricts the
  indices the code calls.
\<close>

lemma keeps_run_wasm:
  assumes host: "\<And>index args. allowed index \<Longrightarrow> keeps R (host index args)"
    and code: "\<And>act inst index args k inst'.
      wasm_step P act inst = (CallHost index args k, inst') \<Longrightarrow> allowed index"
  shows "keeps R (run_wasm P host fuel act)"
proof (induction fuel arbitrary: act)
  case 0
  then show ?case by (simp add: keeps_def rel_refl)
next
  case (Suc fuel)
  show ?case
  proof (rule keepsI)
    fix vm vm' :: "'i vm" and r
    assume run: "run_wasm P host (Suc fuel) act vm = (r, vm')"
    obtain ev inst where st: "wasm_step P act (vm_instance vm) = (ev, inst)" by force
    define vm1 where "vm1 = vm\<lparr>vm_instance := inst\<rparr>"
    have 1: "R vm vm1" unfolding vm1_def by (rule frame_instance)
    define rest :: "('i vm, wasm_error, runtime_value option) rust" where "rest =
      (case ev of Finished v \<Rightarrow> ret v | Trapped t \<Rightarrow> throw (ErrTrap t) | Errored e \<Rightarrow> throw (ErrOther e)
       | Meter act' \<Rightarrow> and_then (attempt charge_instruction) (\<lambda>r.
           case r of Inl t \<Rightarrow> throw (ErrTrap t) | Inr _ \<Rightarrow> run_wasm P host fuel act')
       | CallHost index args k \<Rightarrow> and_then (attempt (host index args)) (\<lambda>r.
           case r of Inl t \<Rightarrow> throw (ErrTrap t) | Inr v \<Rightarrow> run_wasm P host fuel (k v)))"
    have "keeps R rest"
      using code [of act "vm_instance vm"] st unfolding rest_def charge_instruction_def
      by (cases ev) (auto split: sum.split intro!: keeps_basic Suc.IH host keeps_use_gas)
    moreover have "rest vm1 = (r, vm')"
      using run st by (simp add: run_wasm_step rest_def vm1_def)
    ultimately have "R vm1 vm'" by (rule keepsD)
    with 1 show "R vm vm'" by (rule rel_trans)
  qed
qed

end

section \<open>The contract's own writes\<close>

locale vm_frame_writes = vm_frame R for R :: "'i vm \<Rightarrow> 'i vm \<Rightarrow> bool" +
  assumes frame_set_memory:
      "R vm (vm\<lparr>vm_memory := memory_set (vm_namespaced_key vm k) v (vm_memory vm)\<rparr>)"
    and frame_set_storage:
      "R vm (vm\<lparr>vm_storage := storage_set (vm_namespaced_key vm k) v (vm_storage vm)\<rparr>)"
begin

lemma keeps_set_memory: "keeps R (set_memory P a b)"
proof -
  have "keeps R (modify (\<lambda>vm. vm\<lparr>vm_memory :=
      memory_set (vm_namespaced_key vm k) v (vm_memory vm)\<rparr>))" for k v
    by (simp add: keeps_def frame_set_memory)
  then show ?thesis
    unfolding set_memory_def by (intro keeps_basic keeps_read_pointer keeps_use_gas)
qed

lemma keeps_set_storage: "keeps R (set_storage P a b)"
proof -
  have "keeps R (modify (\<lambda>vm. vm\<lparr>vm_storage :=
      storage_set (vm_namespaced_key vm k) v (vm_storage vm)\<rparr>))" for k v
    by (simp add: keeps_def frame_set_storage)
  then show ?thesis
    unfolding set_storage_def by (intro keeps_basic keeps_read_pointer keeps_use_gas)
qed

lemmas keeps_host_ops = keeps_get_memory keeps_set_memory keeps_get_storage keeps_set_storage
  keeps_log_message keeps_block_number

lemma keeps_invoke_index:
  assumes "\<And>f args. keeps R (invoke f args)"
    and "index = CALL_FUNC_INDEX \<Longrightarrow> (\<And>a b c. keeps R (external_call P invoke a b c))"
  shows "keeps R (invoke_index P invoke index args)"
  unfolding invoke_index_def
  using assms(2)
  by (auto intro!: keeps_basic keeps_host_ops keeps_write_pointer assms(1))

text \<open>Code that never calls another contract keeps the relation, whatever the nesting.\<close>

lemma keeps_invoke_export_no_calls:
  assumes code: "\<And>act inst index args k inst'.
      wasm_step P act inst = (CallHost index args k, inst') \<Longrightarrow> index \<noteq> CALL_FUNC_INDEX"
  shows "keeps R (invoke_export P fuel func args)"
proof (induction fuel arbitrary: func args)
  case 0
  then show ?case by (simp add: keeps_def rel_refl)
next
  case (Suc fuel)
  show ?case
    unfolding invoke_export.simps
    by (intro keeps_basic)
       (auto split: sum.split intro!: keeps_basic keeps_run_wasm [where allowed = "\<lambda>i. i \<noteq> CALL_FUNC_INDEX"]
          keeps_invoke_index Suc.IH dest: code)
qed

end

section \<open>Calls between contracts\<close>

locale vm_frame_calls = vm_frame_writes R for R :: "'i vm \<Rightarrow> 'i vm \<Rightarrow> bool" +
  assumes frame_commit: "R vm (commit_both vm)"
    and frame_rollback: "R vm (rollback_both vm)"
    and frame_borrow: "R (nested_vm inst address fname vm) inner \<Longrightarrow>
      storage_get (vm_storage vm) (right_pad_vec address 64 0) = Inr code \<Longrightarrow> code \<noteq> [] \<Longrightarrow>
      R vm (vm\<lparr>vm_memory := vm_memory inner, vm_storage := vm_storage inner\<rparr>)"
begin

lemma keeps_finish_call: "keeps R (finish_call P r)"
proof -
  have c: "keeps R (modify commit_both)" by (simp add: keeps_def frame_commit)
  have r: "keeps R (modify rollback_both)" by (simp add: keeps_def frame_rollback)
  show ?thesis
    unfolding finish_call_def
    by (auto split: sum.split option.split runtime_value.split wasm_error.split
        intro!: keeps_basic keeps_read_pointer c r)
qed

lemma keeps_call:
  assumes "\<And>f args. keeps R (invoke f args)"
  shows "keeps R (call P invoke f args)"
  unfolding call_def
  by (intro keeps_basic keeps_push_arguments assms)
     (auto split: sum.split intro!: keeps_basic keeps_finish_call assms)

lemma with_borrowed_rel:
  assumes "keeps R m" and run: "with_borrowed (nested_vm inst address fname) m vm = (r, vm')"
    and code: "storage_get (vm_storage vm) (right_pad_vec address 64 0) = Inr code" "code \<noteq> []"
  shows "R vm vm'"
proof -
  obtain q inner where m: "m (nested_vm inst address fname vm) = (q, inner)" by force
  with assms(1) have "R (nested_vm inst address fname vm) inner" by (rule keepsD)
  then have "R vm (vm\<lparr>vm_memory := vm_memory inner, vm_storage := vm_storage inner\<rparr>)"
    using code by (rule frame_borrow)
  with run m show ?thesis by (simp add: with_borrowed_def)
qed

text \<open>
  The nested machine runs only when there is code under the address it is created for, which is
  what the premises of \<open>frame_borrow\<close> record: the lookup and the run see the same storage.
\<close>

lemma keeps_borrow_after_lookup:
  assumes m: "\<And>inst. keeps R (m inst)" and rest: "\<And>q. keeps R (rest q)"
    and missing: "keeps R missing"
  shows "keeps R
    (and_then (gets (\<lambda>vm. storage_get (vm_storage vm) (right_pad_vec address 64 0))) (\<lambda>got.
     and_then (lift_panic got) (\<lambda>code.
     if length code = 0 then missing
     else
       and_then (lift_outcome (new_module_instance P code)) (\<lambda>inst.
       and_then (with_borrowed (nested_vm inst address fname) (m inst)) rest))))"
proof (rule keepsI)
  fix vm vm' :: "'i vm" and r
  let ?got = "storage_get (vm_storage vm) (right_pad_vec address 64 0)"
  assume "and_then (gets (\<lambda>vm. storage_get (vm_storage vm) (right_pad_vec address 64 0))) (\<lambda>got.
     and_then (lift_panic got) (\<lambda>code.
     if length code = 0 then missing
     else
       and_then (lift_outcome (new_module_instance P code)) (\<lambda>inst.
       and_then (with_borrowed (nested_vm inst address fname) (m inst)) rest))) vm = (r, vm')"
  then have run: "and_then (lift_panic ?got) (\<lambda>code.
     if length code = 0 then missing
     else
       and_then (lift_outcome (new_module_instance P code)) (\<lambda>inst.
       and_then (with_borrowed (nested_vm inst address fname) (m inst)) rest)) vm = (r, vm')"
    by (subst (asm) and_then_Ok [OF gets_apply])
  show "R vm vm'"
  proof (cases ?got)
    case (Inl p)
    with run show ?thesis by (simp add: rel_refl and_then_Panic)
  next
    case (Inr code)
    show ?thesis
    proof (cases "code = [] \<or> (\<forall>inst. new_module_instance P code \<noteq> Ok inst)")
      case True
      with run Inr show ?thesis
        by (cases "new_module_instance P code")
          (auto simp: rel_refl and_then_apply intro: keepsD [OF missing] split: if_splits)
    next
      case False
      then obtain inst where i: "new_module_instance P code = Ok inst" by blast
      obtain q vm1 where w: "with_borrowed (nested_vm inst address fname) (m inst) vm = (q, vm1)"
        by force
      have first: "R vm vm1" using m w Inr False by (intro with_borrowed_rel) auto
      from run Inr i False w have "and_then (\<lambda>_. (q, vm1)) rest vm = (r, vm')"
        by (simp add: and_then_def)
      with first show ?thesis
        by (cases q) (auto simp: and_then_def intro: rel_trans keepsD [OF rest])
    qed
  qed
qed

lemma keeps_external_call:
  assumes "\<And>f args. keeps R (invoke f args)"
  shows "keeps R (external_call P invoke a b c)"
  unfolding external_call_def
  by (intro keeps_basic keeps_read_pointer keeps_borrow_after_lookup keeps_call assms)
     (auto split: prod.split intro!: keeps_basic keeps_use_gas)

lemma keeps_invoke_export: "keeps R (invoke_export P fuel func args)"
proof (induction fuel arbitrary: func args)
  case 0
  then show ?case by (simp add: keeps_def rel_refl)
next
  case (Suc fuel)
  show ?case
    unfolding invoke_export.simps
    by (intro keeps_basic)
       (auto split: sum.split intro!: keeps_basic keeps_run_wasm [where allowed = "\<lambda>_. True"]
          keeps_invoke_index keeps_external_call Suc.IH)
qed

end

section \<open>The gas order\<close>

definition gas_le :: "'i vm \<Rightarrow> 'i vm \<Rightarrow> bool" where
  "gas_le vm vm' \<longleftrightarrow>
     (case vm_gas vm of
        None \<Rightarrow> vm_gas vm' = None
      | Some g \<Rightarrow> (case vm_gas vm' of None \<Rightarrow> False | Some g' \<Rightarrow> g' \<le> g))"

lemma gas_le_SomeD: "gas_le vm vm' \<Longrightarrow> vm_gas vm = Some g \<Longrightarrow> \<exists>g'. vm_gas vm' = Some g' \<and> g' \<le> g"
  by (auto simp: gas_le_def split: option.splits)

lemma gas_le_NoneD: "gas_le vm vm' \<Longrightarrow> vm_gas vm = None \<Longrightarrow> vm_gas vm' = None"
  by (simp add: gas_le_def)

lemma word_minus_le: "a \<le> g \<Longrightarrow> g - a \<le> (g :: 'a::len word)"
  by (simp add: word_le_nat_alt unat_sub)

interpretation gas: vm_frame_calls gas_le
proof unfold_locales
  show "gas_le s t \<Longrightarrow> gas_le t u \<Longrightarrow> gas_le s u" for s t u :: "'i vm"
    by (auto simp: gas_le_def split: option.splits)
qed (auto simp: gas_le_def commit_both_def rollback_both_def nested_vm_def word_minus_le
      split: option.splits)

section \<open>The context of a call\<close>

text \<open>A call changes neither its transaction and environment nor the databases it reads.\<close>

definition same_context :: "'i vm \<Rightarrow> 'i vm \<Rightarrow> bool" where
  "same_context vm vm' \<longleftrightarrow>
     vm_transaction vm' = vm_transaction vm \<and> vm_env vm' = vm_env vm \<and>
     mem_redis (vm_memory vm') = mem_redis (vm_memory vm) \<and>
     sto_redis (vm_storage vm') = sto_redis (vm_storage vm) \<and>
     sto_rocksdb (vm_storage vm') = sto_rocksdb (vm_storage vm)"

interpretation context_frame: vm_frame_calls same_context
  by unfold_locales
    (simp_all add: same_context_def commit_both_def rollback_both_def nested_vm_def)

section \<open>The committed changesets\<close>

text \<open>Nothing but a commit changes what is committed, and only calls commit.\<close>

definition same_committed :: "'i vm \<Rightarrow> 'i vm \<Rightarrow> bool" where
  "same_committed vm vm' \<longleftrightarrow>
     mem_changeset (vm_memory vm') = mem_changeset (vm_memory vm) \<and>
     sto_changeset (vm_storage vm') = sto_changeset (vm_storage vm)"

interpretation committed: vm_frame_writes same_committed
  by unfold_locales (simp_all add: same_committed_def mem.store_laws sto.store_laws)

end
