(* ===== verification/Vm_Termination.thy ===== *)
theory Vm_Termination
  imports Vm_Frames
begin

text \<open>
  Metered execution ends. The assumptions on the interpreter are that it charges at least one
  instruction before each host call of an activation (\<open>meters_host_calls\<close>) and that start functions,
  which are not metered, return (\<open>starts_end\<close>): then every invocation uses up gas, and
  \<open>2 * gas + 2\<close> units of fuel are enough for every nesting and every loop. More fuel never changes a
  result, so the fuel is not part of the behaviour (\<open>approximates\<close>). Vm_Variants says what becomes of
  a run without the second assumption.
\<close>

section \<open>Enough fuel\<close>

text \<open>\<open>returns_within g m\<close>: started with at most \<open>g\<close> gas, \<open>m\<close> does not run out of fuel.\<close>

definition returns_within :: "nat \<Rightarrow> ('i vm, 'e, 'r) rust \<Rightarrow> bool" where
  "returns_within g m \<longleftrightarrow>
     (\<forall>vm h. vm_gas vm = Some h \<and> unat h \<le> g \<longrightarrow> fst (m vm) \<noteq> Timeout)"

text \<open>\<open>bounded\<close>: in addition the gas does not grow, so that what follows is bounded as well.\<close>

definition bounded :: "nat \<Rightarrow> ('i vm, 'e, 'r) rust \<Rightarrow> bool" where
  "bounded g m \<longleftrightarrow> returns_within g m \<and> keeps gas_le m"

lemma boundedI: "keeps gas_le m \<Longrightarrow> (\<And>vm. fst (m vm) \<noteq> Timeout) \<Longrightarrow> bounded g m"
  by (simp add: bounded_def returns_within_def)

lemma bounded_ret: "bounded g (ret a)"
  by (intro boundedI gas.keeps_basic) simp

lemma bounded_throw: "bounded g (throw a)"
  by (intro boundedI gas.keeps_basic) simp

lemma bounded_panic: "bounded g (panic a)"
  by (intro boundedI gas.keeps_basic) simp

lemma bounded_gets: "bounded g (gets f)"
  by (intro boundedI gas.keeps_basic) simp

lemma bounded_unwrap: "bounded g (unwrap msg x)"
  by (cases x) (simp_all add: bounded_ret bounded_panic)

lemma bounded_lift: "bounded g (lift_panic x)"
  by (cases x) (simp_all add: bounded_ret bounded_panic)

lemma bounded_lift_outcome: "r \<noteq> Timeout \<Longrightarrow> bounded g (lift_outcome r)"
  by (intro boundedI gas.keeps_basic) simp

lemma bounded_modify: "(\<And>vm. vm_gas (f vm) = vm_gas vm) \<Longrightarrow> bounded g (modify f)"
  by (intro boundedI) (auto simp: keeps_def gas_le_def split: option.splits)

lemma bounded_use_gas: "bounded g (use_gas n)"
  by (intro boundedI gas.keeps_use_gas) (auto simp: use_gas_def split: option.splits)

lemma bounded_and_then:
  assumes "bounded g m" and "\<And>a. bounded g (f a)"
  shows "bounded g (and_then (m :: ('i vm, 'e, 'a) rust) f)"
  unfolding bounded_def
proof (intro conjI)
  show "keeps gas_le (and_then m f)"
    using assms by (auto simp: bounded_def intro: gas.keeps_and_then)
  show "returns_within g (and_then m f)"
    unfolding returns_within_def
  proof (intro allI impI, elim conjE)
    fix vm :: "'i vm" and h assume h: "vm_gas vm = Some h" "unat h \<le> g"
    obtain r vm1 where m: "m vm = (r, vm1)" by force
    have "r \<noteq> Timeout" using assms(1) h m by (auto simp: bounded_def returns_within_def)
    moreover have "fst (f a vm1) \<noteq> Timeout" for a
    proof -
      from assms(1) m h obtain h' where "vm_gas vm1 = Some h'" "h' \<le> h"
        by (auto simp: bounded_def dest!: keepsD gas_le_SomeD)
      with h have "vm_gas vm1 = Some h'" "unat h' \<le> g" by (auto simp: word_le_nat_alt)
      with assms(2) show ?thesis by (auto simp: bounded_def returns_within_def)
    qed
    ultimately show "fst (and_then m f vm) \<noteq> Timeout"
      using m by (cases r) (simp_all add: and_then_def)
  qed
qed

lemma attempt_Timeout_iff: "fst (attempt m s) = Timeout \<longleftrightarrow> fst (m s) = Timeout"
  by (auto simp: attempt_def split: prod.splits outcome.splits)

lemma bounded_attempt: "bounded g m \<Longrightarrow> bounded g (attempt m)"
  by (simp add: bounded_def returns_within_def gas.keeps_attempt attempt_Timeout_iff)

lemmas bounded_basic = bounded_ret bounded_throw bounded_panic bounded_gets bounded_unwrap
  bounded_lift bounded_use_gas bounded_and_then bounded_attempt

lemma bounded_read_memory: "bounded g (read_memory P ptr len)"
  unfolding read_memory_def
  by (intro bounded_basic) (auto split: option.split extern_val.split intro: bounded_basic)

lemma bounded_write_memory: "bounded g (write_memory P ptr v)"
  unfolding write_memory_def
  by (intro bounded_basic)
     (auto split: option.split extern_val.split intro!: bounded_basic bounded_modify)

lemma bounded_read_pointer: "bounded g (read_pointer P ptr)"
  unfolding read_pointer_def read_i32_def
  by (auto intro!: bounded_basic bounded_read_memory)

lemma bounded_get_memory: "bounded g (get_memory P ptr)"
  unfolding get_memory_def by (intro bounded_basic bounded_read_pointer)

lemma bounded_get_storage: "bounded g (get_storage P ptr)"
  unfolding get_storage_def by (intro bounded_basic bounded_read_pointer)

lemma bounded_set_memory: "bounded g (set_memory P a b)"
  unfolding set_memory_def by (intro bounded_basic bounded_read_pointer bounded_modify) simp

lemma bounded_set_storage: "bounded g (set_storage P a b)"
  unfolding set_storage_def by (intro bounded_basic bounded_read_pointer bounded_modify) simp

lemma bounded_log_message: "bounded g (log_message P a b)"
  unfolding log_message_def by (intro bounded_basic bounded_read_pointer)

lemma bounded_block_number: "bounded g (vm_block_number P)"
  unfolding vm_block_number_def by (intro bounded_basic)

lemma bounded_malloc:
  assumes "\<And>f args. bounded g (invoke f args)"
  shows "bounded g (malloc invoke n)"
  unfolding malloc_def
  by (intro bounded_basic assms)
     (auto split: sum.split option.split runtime_value.split intro: bounded_basic)

lemma bounded_write_pointer:
  assumes "\<And>f args. bounded g (invoke f args)"
  shows "bounded g (write_pointer P invoke v)"
  unfolding write_pointer_def Let_def
  by (intro bounded_basic bounded_malloc bounded_write_memory assms)

lemma bounded_push_arguments:
  assumes "\<And>f args. bounded g (invoke f args)"
  shows "bounded g (push_arguments P invoke args acc)"
proof (induction args arbitrary: acc)
  case (Cons arg args)
  show ?case
    unfolding push_arguments.simps
    by (intro bounded_basic bounded_write_pointer assms)
       (auto split: sum.split option.split intro!: bounded_basic Cons.IH)
qed (simp add: bounded_ret)

lemma bounded_finish_call: "bounded g (finish_call P r)"
  unfolding finish_call_def
  by (auto split: sum.split option.split runtime_value.split wasm_error.split
      intro!: bounded_basic bounded_read_pointer bounded_modify
      simp: commit_both_def rollback_both_def)

lemma bounded_call:
  assumes "\<And>f args. bounded g (invoke f args)"
  shows "bounded g (call P invoke f args)"
  unfolding call_def
  by (intro bounded_basic bounded_push_arguments assms)
     (auto split: sum.split intro!: bounded_basic bounded_finish_call assms)

lemma bounded_with_borrowed:
  assumes "bounded g m" and "\<And>vm. vm_gas (setup vm) = vm_gas vm"
  shows "bounded g (with_borrowed setup m)"
  using assms
  by (auto simp: bounded_def returns_within_def with_borrowed_def keeps_def gas_le_def
      split: prod.splits option.splits) (metis fst_conv)

text \<open>No start function runs for ever.\<close>

definition starts_end :: "('mo, 'i, 'a) platform \<Rightarrow> bool" where
  "starts_end P \<longleftrightarrow> (\<forall>inst. run_start P inst \<noteq> StartLoops)"

lemma new_module_instance_ends: "starts_end P \<Longrightarrow> new_module_instance P code \<noteq> Timeout"
  by (auto simp: starts_end_def new_module_instance_def split: option.split started.split)

lemma bounded_external_call:
  assumes starts: "starts_end P" and "\<And>f args. bounded g (invoke f args)"
  shows "bounded g (external_call P invoke a b c)"
  unfolding external_call_def
  by (intro bounded_basic bounded_read_pointer)
     (auto split: prod.split simp: nested_vm_def
        intro!: bounded_basic bounded_with_borrowed bounded_call bounded_lift_outcome
          new_module_instance_ends starts assms(2))

lemma bounded_invoke_index:
  assumes starts: "starts_end P" and "\<And>f args. bounded g (invoke f args)"
  shows "bounded g (invoke_index P invoke index args)"
  unfolding invoke_index_def
  by (auto intro!: bounded_basic bounded_get_memory bounded_get_storage bounded_set_memory
      bounded_set_storage bounded_log_message bounded_block_number bounded_write_pointer
      bounded_external_call starts assms(2))

section \<open>The metering assumption\<close>

text \<open>
  \<open>fresh\<close> marks the activations that have not been charged since they started or since their last
  host call: a started activation and one resumed after a host call are fresh, and a fresh
  activation does not call the host.
\<close>

definition meters_host_calls :: "('mo, 'i, 'a) platform \<Rightarrow> ('a \<Rightarrow> bool) \<Rightarrow> bool" where
  "meters_host_calls P fresh \<longleftrightarrow>
     (\<forall>inst f args act. start_export P inst f args = Inr act \<longrightarrow> fresh act) \<and>
     (\<forall>act inst index args k inst'. wasm_step P act inst = (CallHost index args k, inst') \<longrightarrow>
        \<not> fresh act \<and> (\<forall>v. fresh (k v)))"

lemma run_wasm_returns:
  assumes met: "meters_host_calls P fresh"
    and host: "\<And>index args. bounded g (host index args)"
    and gas: "vm_gas vm = Some h"
    and fuel: "if fresh act then unat h \<le> Suc g \<and> 2 * unat h + 1 \<le> fuel
               else unat h \<le> g \<and> 2 * unat h + 2 \<le> fuel"
  shows "fst (run_wasm P host fuel act vm) \<noteq> Timeout"
  using gas fuel
proof (induction fuel arbitrary: act vm h)
  case 0
  then show ?case by (simp split: if_splits)
next
  case (Suc fuel)
  obtain ev inst where st: "wasm_step P act (vm_instance vm) = (ev, inst)" by force
  define vm1 where "vm1 = vm\<lparr>vm_instance := inst\<rparr>"
  have h1: "vm_gas vm1 = Some h" using Suc.prems(1) by (simp add: vm1_def)
  show ?case
  proof (cases ev)
    case (Meter act')
    show ?thesis
    proof (cases "h < 1")
      case True
      then show ?thesis
        using st Meter h1 [unfolded vm1_def]
        by (simp add: run_wasm_step and_then_def attempt_def charge_instruction_def use_gas_def
            INSTRUCTION_def)
    next
      case False
      define vm2 where "vm2 = vm1\<lparr>vm_gas := Some (h - 1)\<rparr>"
      have run: "run_wasm P host (Suc fuel) act vm = run_wasm P host fuel act' vm2"
        using st Meter h1 False
        by (simp add: run_wasm_step and_then_def attempt_def charge_instruction_def use_gas_def
            INSTRUCTION_def vm1_def vm2_def)
      have pred: "unat (h - 1) = unat h - 1" "0 < unat h"
        using False by (auto simp: unat_sub word_le_nat_alt word_less_nat_alt not_less)
      have "fst (run_wasm P host fuel act' vm2) \<noteq> Timeout"
        by (rule Suc.IH [of vm2 "h - 1"])
           (use Suc.prems(2) pred in \<open>auto simp: vm2_def split: if_splits\<close>)
      with run show ?thesis by simp
    qed
  next
    case (CallHost index args k)
    with met st have nf: "\<not> fresh act" and k: "fresh (k v)" for v
      unfolding meters_host_calls_def by blast+
    obtain r vm2 where hr: "host index args vm1 = (r, vm2)" by force
    have le: "unat h \<le> g" using Suc.prems(2) nf by simp
    have "r \<noteq> Timeout"
      using host [of index args] h1 le hr by (auto simp: bounded_def returns_within_def)
    moreover have "fst (run_wasm P host fuel (k v) vm2) \<noteq> Timeout" for v
    proof -
      from host [of index args] hr have "gas_le vm1 vm2" by (auto simp: bounded_def dest: keepsD)
      then obtain h' where h': "vm_gas vm2 = Some h'" "h' \<le> h"
        using h1 by (blast dest: gas_le_SomeD)
      then show ?thesis
        using Suc.prems(2) nf k [of v]
        by (intro Suc.IH [of vm2 h']) (auto simp: word_le_nat_alt)
    qed
    ultimately show ?thesis
      using st CallHost hr
      by (cases r) (simp_all add: run_wasm_step and_then_def attempt_def vm1_def)
  qed (use st in \<open>simp_all add: run_wasm_step\<close>)
qed

text \<open>Enough fuel for an invocation with at most \<open>g\<close> gas.\<close>

definition enough_fuel :: "nat \<Rightarrow> nat" where
  "enough_fuel g = 2 * g + 2"

lemma bounded_invoke_export:
  assumes met: "meters_host_calls P fresh" and starts: "starts_end P" and "enough_fuel g \<le> fuel"
  shows "bounded g (invoke_export P fuel func args)"
  using assms(3)
proof (induction g arbitrary: fuel func args)
  case 0
  then obtain f where f: "fuel = Suc f" "1 \<le> f" by (cases fuel) (auto simp: enough_fuel_def)
  have "fst (invoke_export P fuel func args vm) \<noteq> Timeout" if "vm_gas vm = Some 0" for vm
  proof (cases "start_export P (vm_instance vm) func args")
    case (Inr act)
    obtain ev inst where st: "wasm_step P act (vm_instance vm) = (ev, inst)" by force
    have "fresh act" using met Inr unfolding meters_host_calls_def by blast
    then have "\<nexists>index args k. ev = CallHost index args k"
      using met st unfolding meters_host_calls_def by blast
    moreover obtain f' where "f = Suc f'" using f by (cases f) auto
    ultimately show ?thesis
      using f Inr st that
      by (cases ev) (auto simp: run_wasm_step and_then_def attempt_def charge_instruction_def
          use_gas_def INSTRUCTION_def)
  qed (simp add: f and_then_def)
  then have "returns_within 0 (invoke_export P fuel func args)"
    by (auto simp: returns_within_def unat_eq_0)
  then show ?case by (simp add: bounded_def gas.keeps_invoke_export)
next
  case (Suc g)
  then obtain f where f: "fuel = Suc f" "2 * g + 3 \<le> f" by (cases fuel) (auto simp: enough_fuel_def)
  have host: "bounded g (invoke_index P (invoke_export P f) index args)" for index args
    using f by (intro bounded_invoke_index [OF starts] Suc.IH) (simp add: enough_fuel_def)
  have "fst (invoke_export P fuel func args vm) \<noteq> Timeout"
    if h: "vm_gas vm = Some h" "unat h \<le> Suc g" for vm h
  proof (cases "start_export P (vm_instance vm) func args")
    case (Inr act)
    then have "fresh act" using met unfolding meters_host_calls_def by blast
    then have "fst (run_wasm P (invoke_index P (invoke_export P f)) f act vm) \<noteq> Timeout"
      using f h by (intro run_wasm_returns [OF met host h(1)]) simp
    with Inr f show ?thesis by (simp add: and_then_def)
  qed (simp add: f and_then_def)
  then have "returns_within (Suc g) (invoke_export P fuel func args)"
    by (auto simp: returns_within_def)
  then show ?case by (simp add: bounded_def gas.keeps_invoke_export)
qed

section \<open>The fuel is not part of the behaviour\<close>

definition approximates :: "('s, 'e, 'r) rust \<Rightarrow> ('s, 'e, 'r) rust \<Rightarrow> bool" where
  "approximates m m' \<longleftrightarrow> (\<forall>s. fst (m s) \<noteq> Timeout \<longrightarrow> m' s = m s)"

lemma approximatesD: "approximates m m' \<Longrightarrow> fst (m s) \<noteq> Timeout \<Longrightarrow> m' s = m s"
  by (simp add: approximates_def)

lemma approximates_refl: "approximates m m"
  by (simp add: approximates_def)

lemma approximates_trans: "approximates m m' \<Longrightarrow> approximates m' m'' \<Longrightarrow> approximates m m''"
  by (simp add: approximates_def)

lemma approximates_and_then:
  assumes m: "approximates m m'" and f: "\<And>a. approximates (f a) (f' a)"
  shows "approximates (and_then m f) (and_then m' f')"
  unfolding approximates_def
proof (intro allI impI)
  fix s assume t: "fst (and_then m f s) \<noteq> Timeout"
  obtain r s1 where ms: "m s = (r, s1)" by force
  with t have "r \<noteq> Timeout" by (auto simp: and_then_def)
  with m ms have "m' s = (r, s1)" by (auto simp: approximates_def)
  then show "and_then m' f' s = and_then m f s"
    using ms t f by (cases r) (auto simp: and_then_def approximates_def)
qed

lemma approximates_attempt: "approximates m m' \<Longrightarrow> approximates (attempt m) (attempt m')"
  by (auto simp: approximates_def attempt_def split: prod.splits outcome.splits)

lemma approximates_with_borrowed:
  "approximates m m' \<Longrightarrow> approximates (with_borrowed setup m) (with_borrowed setup m')"
  by (auto simp: approximates_def with_borrowed_def split: prod.splits)

lemmas approximates_basic = approximates_and_then approximates_attempt approximates_refl

lemma approximates_write_pointer:
  assumes "\<And>f args. approximates (invoke f args) (invoke' f args)"
  shows "approximates (write_pointer P invoke v) (write_pointer P invoke' v)"
  unfolding write_pointer_def Let_def malloc_def by (intro approximates_basic assms)

lemma approximates_push_arguments:
  assumes "\<And>f args. approximates (invoke f args) (invoke' f args)"
  shows "approximates (push_arguments P invoke args acc) (push_arguments P invoke' args acc)"
proof (induction args arbitrary: acc)
  case (Cons arg args)
  show ?case
    unfolding push_arguments.simps
    by (intro approximates_basic approximates_write_pointer assms)
       (auto split: sum.split option.split intro!: approximates_basic Cons.IH)
qed (simp add: approximates_refl)

lemma approximates_call:
  assumes "\<And>f args. approximates (invoke f args) (invoke' f args)"
  shows "approximates (call P invoke f args) (call P invoke' f args)"
  unfolding call_def
  by (intro approximates_basic approximates_push_arguments assms)
     (auto split: sum.split intro!: approximates_basic assms)

lemma approximates_external_call:
  assumes "\<And>f args. approximates (invoke f args) (invoke' f args)"
  shows "approximates (external_call P invoke a b c) (external_call P invoke' a b c)"
  unfolding external_call_def
  by (intro approximates_basic)
     (auto split: prod.split
        intro!: approximates_basic approximates_with_borrowed approximates_call assms)

lemma approximates_invoke_index:
  assumes "\<And>f args. approximates (invoke f args) (invoke' f args)"
  shows "approximates (invoke_index P invoke index args) (invoke_index P invoke' index args)"
  unfolding invoke_index_def
  by (auto intro!: approximates_basic approximates_write_pointer approximates_external_call assms)

lemma approximates_run_wasm:
  assumes host: "\<And>index args. approximates (host index args) (host' index args)"
  shows "approximates (run_wasm P host fuel act) (run_wasm P host' (Suc fuel) act)"
proof (induction fuel arbitrary: act)
  case 0
  then show ?case by (simp add: approximates_def)
next
  case (Suc fuel)
  show ?case
    unfolding run_wasm.simps(2) [of P host fuel] run_wasm.simps(2) [of P host' "Suc fuel"]
    by (intro approximates_basic)
       (auto split: prod.split wasm_event.split sum.split
          intro!: approximates_basic host Suc.IH)
qed

lemma approximates_invoke_export_Suc:
  "approximates (invoke_export P fuel func args) (invoke_export P (Suc fuel) func args)"
proof (induction fuel arbitrary: func args)
  case 0
  then show ?case by (simp add: approximates_def)
next
  case (Suc fuel)
  show ?case
    unfolding invoke_export.simps(2) [of P fuel func args]
      invoke_export.simps(2) [of P "Suc fuel" func args]
    by (intro approximates_basic)
       (auto split: sum.split simp del: invoke_export.simps
          intro!: approximates_basic approximates_run_wasm approximates_invoke_index Suc.IH)
qed

lemma approximates_invoke_export:
  "fuel \<le> fuel' \<Longrightarrow> approximates (invoke_export P fuel func args) (invoke_export P fuel' func args)"
proof (induction fuel' rule: dec_induct)
  case base
  show ?case by (rule approximates_refl)
next
  case (step n)
  then show ?case by (blast intro: approximates_trans approximates_invoke_export_Suc)
qed

lemma approximates_call_fuel:
  "fuel \<le> fuel' \<Longrightarrow>
   approximates (call P (invoke_export P fuel) f args) (call P (invoke_export P fuel') f args)"
  by (intro approximates_call approximates_invoke_export)

end
