(* ===== verification/Vm_Transaction.thy ===== *)
theory Vm_Transaction
  imports Vm_Termination
begin

text \<open>
  \<open>Transaction::run\<close> of native/vm/src/transaction.rs: look the contract's code up, instantiate it and
  call the transaction's function on a machine that holds the transaction's gas. What it returns
  are the two changesets, the result and the gas left.
\<close>

type_synonym run_result = "changeset \<times> changeset \<times> result \<times> u32 option"

definition transaction_vm :: "'i \<Rightarrow> transaction \<Rightarrow> memory \<Rightarrow> storage \<Rightarrow> env \<Rightarrow> 'i vm" where
  "transaction_vm inst tx memory storage env =
     \<lparr>vm_instance = inst, vm_memory = memory, vm_storage = storage, vm_transaction = tx,
      vm_gas = Some (ucast (gas_limit tx)), vm_env = env\<rparr>"

lemma transaction_vm_gas [simp]:
  "vm_gas (transaction_vm inst tx m s e) = Some (ucast (gas_limit tx))"
  "vm_memory (transaction_vm inst tx m s e) = m" "vm_storage (transaction_vm inst tx m s e) = s"
  "vm_transaction (transaction_vm inst tx m s e) = tx"
  by (simp_all add: transaction_vm_def)

definition call_outcome :: "(trap_kind, result \<times> u32 option) outcome \<times> 'i vm
    \<Rightarrow> (trap_kind, run_result) outcome" where
  "call_outcome r =
     (case r of
        (Ok (res, gas), vm) \<Rightarrow>
          Ok (mem_changeset (vm_memory vm), sto_changeset (vm_storage vm), res, gas)
      | (Err e, vm) \<Rightarrow> Err e
      | (Panic p, vm) \<Rightarrow> Panic p
      | (Timeout, vm) \<Rightarrow> Timeout)"

definition transaction_run ::
  "('mo, 'i, 'a) platform \<Rightarrow> nat \<Rightarrow> transaction \<Rightarrow> memory \<Rightarrow> storage \<Rightarrow> env
     \<Rightarrow> (trap_kind, run_result) outcome" where
  "transaction_run P fuel tx memory storage env =
     (case storage_get storage (right_pad_vec (contract_address tx) 64 0) of
        Inl p \<Rightarrow> Panic p
      | Inr code \<Rightarrow>
          if length code = 0 then
            Ok (mem_changeset memory, sto_changeset storage, contract_not_found tx,
                Some (ucast (gas_limit tx)))
          else
            (case new_module_instance P code of
               Err e \<Rightarrow> Err e
             | Panic p \<Rightarrow> Panic p
             | Timeout \<Rightarrow> Timeout
             | Ok inst \<Rightarrow>
                 call_outcome (call P (invoke_export P fuel) (function_name tx) (arguments tx)
                   (transaction_vm inst tx memory storage env))))"

lemma transaction_run_code:
  assumes "storage_get storage (right_pad_vec (contract_address tx) 64 0) = Inr code"
    and "code \<noteq> []" and "new_module_instance P code = Ok inst"
  shows "transaction_run P fuel tx memory storage env =
    call_outcome (call P (invoke_export P fuel) (function_name tx) (arguments tx)
      (transaction_vm inst tx memory storage env))"
  using assms by (simp add: transaction_run_def)

text \<open>
  Every run either finds no code, panics before the call, is stuck in the start function of the
  module, or is a call of the instance it loads.
\<close>

definition loads :: "('mo, 'i, 'a) platform \<Rightarrow> storage \<Rightarrow> bytes \<Rightarrow> 'i \<Rightarrow> bool" where
  "loads P storage address inst \<longleftrightarrow>
     (case storage_get storage (right_pad_vec address 64 0) of
        Inl p \<Rightarrow> False
      | Inr code \<Rightarrow> code \<noteq> [] \<and> new_module_instance P code = Ok inst)"

lemma loads_unique: "loads P st a i \<Longrightarrow> loads P st a j \<Longrightarrow> i = j"
  by (auto simp: loads_def split: sum.splits)

lemma transaction_run_cases:
  obtains (not_found) "transaction_run P fuel tx memory storage env =
      Ok (mem_changeset memory, sto_changeset storage, contract_not_found tx,
          Some (ucast (gas_limit tx)))" "\<And>inst. \<not> loads P storage (contract_address tx) inst"
    | (panics) p where "transaction_run P fuel tx memory storage env = Panic p"
    | (stuck) code where "transaction_run P fuel tx memory storage env = Timeout"
        "new_module_instance P code = Timeout"
    | (runs) inst where "transaction_run P fuel tx memory storage env =
        call_outcome (call P (invoke_export P fuel) (function_name tx) (arguments tx)
          (transaction_vm inst tx memory storage env))" "loads P storage (contract_address tx) inst"
proof (cases "storage_get storage (right_pad_vec (contract_address tx) 64 0)")
  case (Inl p)
  then show thesis by (intro panics) (simp add: transaction_run_def)
next
  case (Inr code)
  show thesis
  proof (cases "code = []")
    case True
    with Inr show thesis by (intro not_found) (simp_all add: transaction_run_def loads_def)
  next
    case False
    show thesis
    proof (cases "new_module_instance P code")
      case (Panic p)
      with Inr False show thesis by (intro panics) (simp add: transaction_run_def)
    next
      case Timeout
      with Inr False show thesis by (intro stuck) (simp_all add: transaction_run_def)
    next
      case (Ok inst)
      with Inr False show thesis
        by (intro runs) (simp_all add: transaction_run_def loads_def)
    qed simp
  qed
qed

lemma call_outcome_Ok_iff:
  "call_outcome r = Ok (mc, sc, res, gas) \<longleftrightarrow>
     (\<exists>vm. r = (Ok (res, gas), vm) \<and> mc = mem_changeset (vm_memory vm) \<and>
        sc = sto_changeset (vm_storage vm))"
  by (auto simp: call_outcome_def split: prod.splits outcome.splits)

lemma call_outcome_Timeout_iff: "call_outcome r = Timeout \<longleftrightarrow> fst r = Timeout"
  by (auto simp: call_outcome_def split: prod.splits outcome.splits)

lemma call_outcome_Panic_iff: "call_outcome r = Panic p \<longleftrightarrow> fst r = Panic p"
  by (auto simp: call_outcome_def split: prod.splits outcome.splits)

lemma call_outcome_Err_iff: "call_outcome r = Err e \<longleftrightarrow> fst r = Err e"
  by (auto simp: call_outcome_def split: prod.splits outcome.splits)

section \<open>A call never ends with an error of its own\<close>

definition never_Err :: "('s, 'e, 'r) rust \<Rightarrow> bool" where
  "never_Err m \<longleftrightarrow> (\<forall>s e. fst (m s) \<noteq> Err e)"

lemma never_Err_basic:
  "never_Err (ret a)" "never_Err (panic p)" "never_Err (gets f)" "never_Err (modify g)"
  "never_Err (unwrap msg x)" "never_Err (lift_panic y)" "never_Err (attempt m)"
  by (auto simp: never_Err_def attempt_never_Err unwrap_def lift_panic_def
      split: option.splits sum.splits)

lemma never_Err_and_then: "never_Err m \<Longrightarrow> (\<And>a. never_Err (f a)) \<Longrightarrow> never_Err (and_then m f)"
  by (auto simp: never_Err_def and_then_def split: prod.splits outcome.splits) (metis fst_conv)

lemma never_Err_read_pointer: "never_Err (read_pointer P ptr)"
proof -
  have "never_Err (read_memory P ptr len)" for ptr len
    unfolding read_memory_def
    by (intro never_Err_and_then never_Err_basic)
       (auto split: option.split extern_val.split intro: never_Err_basic)
  then show ?thesis
    unfolding read_pointer_def read_i32_def
    by (auto intro!: never_Err_and_then never_Err_basic)
qed

lemma never_Err_push_arguments: "never_Err (push_arguments P invoke args acc)"
proof (induction args arbitrary: acc)
  case (Cons arg args)
  show ?case
    unfolding push_arguments.simps
    by (intro never_Err_and_then never_Err_basic)
       (auto split: sum.split option.split intro!: never_Err_basic Cons.IH)
qed (simp add: never_Err_basic)

lemma never_Err_call: "never_Err (call P invoke f args)"
  unfolding call_def finish_call_def
  by (intro never_Err_and_then never_Err_push_arguments)
     (auto split: sum.split option.split runtime_value.split wasm_error.split
        intro!: never_Err_and_then never_Err_basic never_Err_read_pointer)

lemma call_not_Err [simp]: "fst (call P invoke f args vm) \<noteq> Err e"
  using never_Err_call unfolding never_Err_def by metis

section \<open>The shape of a call\<close>

text \<open>
  A completed call is one of three: the arguments could not be copied, the function trapped and
  both stores are rolled back, or it returned a pointer and both are committed.
\<close>

lemma call_Ok_cases:
  assumes "call P invoke f args vm = (Ok (res, gas), vm')"
  obtains (args_failed) "push_arguments P invoke args [] vm = (Ok (Inl res), vm')"
    | (trapped) vals vm1 t vm2 where
        "push_arguments P invoke args [] vm = (Ok (Inr vals), vm1)"
        "invoke f vals vm1 = (Err (ErrTrap t), vm2)" "res = wasm_trap t" "vm' = rollback_both vm2"
    | (returned) vals vm1 v vm2 bs where
        "push_arguments P invoke args [] vm = (Ok (Inr vals), vm1)"
        "invoke f vals vm1 = (Ok (Some (I32 v)), vm2)"
        "read_pointer P v (commit_both vm2) = (Ok bs, vm')" "from_bytes P bs = Inr res"
proof -
  from assms obtain p vm1 where p: "push_arguments P invoke args [] vm = (Ok p, vm1)"
    and rest: "(case p of Inl res \<Rightarrow> gets (\<lambda>vm. (res, vm_gas vm))
       | Inr vals \<Rightarrow> and_then (attempt (invoke f vals)) (finish_call P)) vm1 = (Ok (res, gas), vm')"
    unfolding call_def by (auto elim!: and_then_eq_OkE)
  show thesis
  proof (cases p)
    case (Inl r)
    with p rest show thesis by (auto intro: args_failed)
  next
    case (Inr vals)
    from rest [unfolded Inr] consider
        (err) e vm2 where "invoke f vals vm1 = (Err e, vm2)"
          "finish_call P (Inl e) vm2 = (Ok (res, gas), vm')"
      | (ok) v vm2 where "invoke f vals vm1 = (Ok v, vm2)"
          "finish_call P (Inr v) vm2 = (Ok (res, gas), vm')"
      by (auto simp: and_then_attempt_eq_Ok_iff)
    then show thesis
    proof cases
      case err
      then obtain t where "e = ErrTrap t" "res = wasm_trap t" "vm' = rollback_both vm2"
        by (auto simp: finish_call_def and_then_def split: wasm_error.splits)
      with p Inr err show thesis by (intro trapped) auto
    next
      case ok
      then obtain w where w: "v = Some (I32 w)"
        by (auto simp: finish_call_def split: option.splits runtime_value.splits)
      with ok obtain bs where
        "read_pointer P w (commit_both vm2) = (Ok bs, vm')" "from_bytes P bs = Inr res"
        by (auto simp: finish_call_def and_then_eq_Ok_iff lift_panic_eq_Ok_iff)
      with p Inr ok w show thesis by (intro returned) auto
    qed
  qed
qed

text \<open>The gas a call reports is what its machine holds in the end.\<close>

definition reports_gas :: "('i, result \<times> u32 option) vm_op \<Rightarrow> bool" where
  "reports_gas m \<longleftrightarrow> (\<forall>vm res gas vm'. m vm = (Ok (res, gas), vm') \<longrightarrow> gas = vm_gas vm')"

lemma reports_gas_and_then: "(\<And>a. reports_gas (f a)) \<Longrightarrow> reports_gas (and_then m f)"
  by (fastforce simp: reports_gas_def and_then_eq_Ok_iff)

lemma reports_gas_basic: "reports_gas (gets (\<lambda>vm. (res, vm_gas vm)))" "reports_gas (panic p)"
  by (simp_all add: reports_gas_def)

lemma call_reports_gas: "reports_gas (call P invoke f args)"
  unfolding call_def finish_call_def
  by (intro reports_gas_and_then)
     (auto split: sum.split option.split runtime_value.split wasm_error.split
        intro!: reports_gas_and_then reports_gas_basic)

text \<open>Reading a pointer changes nothing at all.\<close>

lemma read_memory_state: "snd (read_memory P ptr len vm) = vm"
  by (auto simp: read_memory_def and_then_def unwrap_def split: option.split extern_val.split)

lemma read_pointer_state: "read_pointer P ptr vm = (r, vm') \<Longrightarrow> vm' = vm"
proof -
  have "keeps (=) (read_memory P ptr len)" for ptr len
    by (simp add: keeps_def read_memory_state)
  then have "keeps (=) (read_pointer P ptr)"
    unfolding read_pointer_def read_i32_def by (auto intro!: reads.keeps_basic)
  then show "read_pointer P ptr vm = (r, vm') \<Longrightarrow> vm' = vm" by (auto dest: keepsD)
qed

section \<open>Contracts that call no other contract\<close>

definition never_calls :: "('mo, 'i, 'a) platform \<Rightarrow> bool" where
  "never_calls P \<longleftrightarrow> (\<forall>act inst index args k inst'.
     wasm_step P act inst = (CallHost index args k, inst') \<longrightarrow> index \<noteq> CALL_FUNC_INDEX)"

context vm_frame_writes
begin

lemma keeps_leaf: "never_calls P \<Longrightarrow> keeps R (invoke_export P fuel func args)"
  unfolding never_calls_def by (rule keeps_invoke_export_no_calls) blast

lemma leaf_invocation:
  assumes "never_calls P"
    and "push_arguments P (invoke_export P fuel) args [] vm = (q, vm1)"
    and "invoke_export P fuel f vals vm1 = (r, vm2)"
  shows "R vm vm2"
proof -
  have "R vm vm1"
    using keeps_push_arguments [OF keeps_leaf [OF assms(1)]] assms(2) by (rule keepsD)
  moreover have "R vm1 vm2" using keeps_leaf [OF assms(1)] assms(3) by (rule keepsD)
  ultimately show ?thesis by (rule rel_trans)
qed

end

text \<open>The writes of such a contract stay in the namespace of its address.\<close>

definition in_namespace :: "bytes \<Rightarrow> bytes \<Rightarrow> bool" where
  "in_namespace address k \<longleftrightarrow> take (max 64 (length address)) k = right_pad_vec address 64 0"

lemma in_namespace_namespaced_key: "in_namespace address (namespaced_key address key)"
  by (simp add: in_namespace_def namespaced_key_def right_pad_vec_eq)

definition writes_confined :: "'i vm \<Rightarrow> 'i vm \<Rightarrow> bool" where
  "writes_confined vm vm' \<longleftrightarrow> vm_transaction vm' = vm_transaction vm \<and>
     (\<forall>k. \<not> in_namespace (vm_contract_address vm) k \<longrightarrow>
        mem_working_changeset (vm_memory vm') k = mem_working_changeset (vm_memory vm) k \<and>
        sto_working_changeset (vm_storage vm') k = sto_working_changeset (vm_storage vm) k)"

interpretation confined: vm_frame_writes writes_confined
  by unfold_locales
    (auto simp: writes_confined_def vm_contract_address_def mem.store_laws sto.store_laws
      in_namespace_namespaced_key)

lemma confined_keys:
  assumes "\<forall>k. \<not> in_namespace a k \<longrightarrow> m k = None \<and> n k = None"
  shows "\<forall>k \<in> dom m \<union> dom n. in_namespace a k"
proof (intro ballI)
  fix k assume "k \<in> dom m \<union> dom n"
  then have "\<not> (m k = None \<and> n k = None)" by auto
  with assms show "in_namespace a k" by metis
qed

text \<open>
  All or nothing: \<open>ran_to_end\<close> says that the function returned from the call on \<open>vm\<close>, with the given
  writes pending. If it did, everything pending is committed by the call; if it did not, the call
  leaves the committed changesets as they were.
\<close>

definition ran_to_end ::
  "('mo, 'i, 'a) platform \<Rightarrow> 'i invocation \<Rightarrow> string \<Rightarrow> cbor_value list \<Rightarrow> 'i vm \<Rightarrow> changeset \<Rightarrow>
     changeset \<Rightarrow> bool" where
  "ran_to_end P invoke f args vm wm ws \<longleftrightarrow>
     (\<exists>vals vm1 v vm2. push_arguments P invoke args [] vm = (Ok (Inr vals), vm1) \<and>
        invoke f vals vm1 = (Ok (Some (I32 v)), vm2) \<and>
        wm = mem_working_changeset (vm_memory vm2) \<and> ws = sto_working_changeset (vm_storage vm2))"

lemma call_changesets:
  assumes push: "\<And>q vm1. push_arguments P invoke args [] vm = (Ok q, vm1) \<Longrightarrow> same_committed vm vm1"
    and body: "\<And>vals vm1 r vm2. push_arguments P invoke args [] vm = (Ok (Inr vals), vm1) \<Longrightarrow>
      invoke f vals vm1 = (r, vm2) \<Longrightarrow> returned r \<Longrightarrow> same_committed vm vm2 \<and> writes_confined vm vm2"
    and run: "call P invoke f args vm = (Ok (res, gas), vm')"
    and clean: "mem_working_changeset (vm_memory vm) = Map.empty"
      "sto_working_changeset (vm_storage vm) = Map.empty"
  obtains (unchanged) "mem_changeset (vm_memory vm') = mem_changeset (vm_memory vm)"
      "sto_changeset (vm_storage vm') = sto_changeset (vm_storage vm)"
      "\<And>wm ws. \<not> ran_to_end P invoke f args vm wm ws"
    | (committed) wm ws where
      "mem_changeset (vm_memory vm') = mem_changeset (vm_memory vm) ++ wm"
      "sto_changeset (vm_storage vm') = sto_changeset (vm_storage vm) ++ ws"
      "\<forall>k \<in> dom wm \<union> dom ws. in_namespace (vm_contract_address vm) k"
      "ran_to_end P invoke f args vm wm ws"
  using run
proof (cases rule: call_Ok_cases)
  case args_failed
  with push [OF args_failed] show thesis
    by (intro unchanged) (simp_all add: same_committed_def ran_to_end_def)
next
  case (trapped vals vm1 t vm2)
  with body [OF trapped(1,2)] show thesis
    by (intro unchanged) (simp_all add: same_committed_def rollback_both_def mem.store_laws
        sto.store_laws ran_to_end_def)
next
  case (returned vals vm1 v vm2 bs)
  from body [OF returned(1,2)] have same: "same_committed vm vm2" and w: "writes_confined vm vm2"
    by simp_all
  from w have own: "\<forall>k \<in> dom (mem_working_changeset (vm_memory vm2)) \<union>
      dom (sto_working_changeset (vm_storage vm2)). in_namespace (vm_contract_address vm) k"
    by (intro confined_keys) (simp add: writes_confined_def clean)
  have "ran_to_end P invoke f args vm (mem_working_changeset (vm_memory vm2))
      (sto_working_changeset (vm_storage vm2))"
    using returned(1,2) unfolding ran_to_end_def by blast
  moreover from returned(3) have "vm' = commit_both vm2" by (rule read_pointer_state)
  ultimately show thesis
    using same own by (intro committed)
      (simp_all add: same_committed_def commit_both_def mem.store_laws sto.store_laws)
qed

lemma leaf_call_changesets:
  assumes leaf: "never_calls P"
    and run: "call P (invoke_export P fuel) f args vm = (Ok (res, gas), vm')"
    and clean: "mem_working_changeset (vm_memory vm) = Map.empty"
      "sto_working_changeset (vm_storage vm) = Map.empty"
  obtains (unchanged) "mem_changeset (vm_memory vm') = mem_changeset (vm_memory vm)"
      "sto_changeset (vm_storage vm') = sto_changeset (vm_storage vm)"
      "\<And>wm ws. \<not> ran_to_end P (invoke_export P fuel) f args vm wm ws"
    | (committed) wm ws where
      "mem_changeset (vm_memory vm') = mem_changeset (vm_memory vm) ++ wm"
      "sto_changeset (vm_storage vm') = sto_changeset (vm_storage vm) ++ ws"
      "\<forall>k \<in> dom wm \<union> dom ws. in_namespace (vm_contract_address vm) k"
      "ran_to_end P (invoke_export P fuel) f args vm wm ws"
proof (rule call_changesets [OF _ _ run clean])
  show "same_committed vm vm1"
    if "push_arguments P (invoke_export P fuel) args [] vm = (Ok q, vm1)" for q vm1
    using committed.keeps_push_arguments [OF committed.keeps_leaf [OF leaf]] that by (rule keepsD)
  show "same_committed vm vm2 \<and> writes_confined vm vm2"
    if "push_arguments P (invoke_export P fuel) args [] vm = (Ok (Inr vals), vm1)"
      "invoke_export P fuel f vals vm1 = (r, vm2)" for vals vm1 r vm2
    using committed.leaf_invocation [OF leaf that] confined.leaf_invocation [OF leaf that] ..
qed (blast intro: unchanged committed)+

lemma new_store_fields [simp]:
  "mem_changeset (memory_new r mc) = mc" "mem_working_changeset (memory_new r mc) = Map.empty"
  "sto_changeset (storage_new r db sc) = sc" "sto_working_changeset (storage_new r db sc) = Map.empty"
  by (simp_all add: memory_new_def storage_new_def)

text \<open>The same of a transaction: the contract was found and its function returned.\<close>

definition completes_with ::
  "('mo, 'i, 'a) platform \<Rightarrow> nat \<Rightarrow> transaction \<Rightarrow> memory \<Rightarrow> storage \<Rightarrow> env \<Rightarrow> changeset \<Rightarrow> changeset \<Rightarrow>
     bool" where
  "completes_with P fuel tx memory storage env wm ws \<longleftrightarrow>
     (\<exists>inst. loads P storage (contract_address tx) inst \<and>
        ran_to_end P (invoke_export P fuel) (function_name tx) (arguments tx)
          (transaction_vm inst tx memory storage env) wm ws)"

lemma leaf_run_changesets:
  assumes leaf: "never_calls P"
    and run: "transaction_run P fuel tx (memory_new r cm) (storage_new r db cs) env =
      Ok (mc, sc, res, gas)"
  obtains (unchanged) "mc = cm" "sc = cs"
      "\<And>wm ws. \<not> completes_with P fuel tx (memory_new r cm) (storage_new r db cs) env wm ws"
    | (committed) wm ws where "mc = cm ++ wm" "sc = cs ++ ws"
      "\<forall>k \<in> dom wm \<union> dom ws. in_namespace (contract_address tx) k"
      "completes_with P fuel tx (memory_new r cm) (storage_new r db cs) env wm ws"
proof (cases rule: transaction_run_cases
    [of P fuel tx "memory_new r cm" "storage_new r db cs" env])
  case not_found
  with run show thesis by (intro unchanged) (simp_all add: completes_with_def)
next
  case (runs inst)
  let ?vm = "transaction_vm inst tx (memory_new r cm) (storage_new r db cs) env"
  from run [unfolded runs(1)] obtain vm' where c:
      "call P (invoke_export P fuel) (function_name tx) (arguments tx) ?vm = (Ok (res, gas), vm')"
    and out: "mc = mem_changeset (vm_memory vm')" "sc = sto_changeset (vm_storage vm')"
    by (auto simp: call_outcome_Ok_iff)
  have "completes_with P fuel tx (memory_new r cm) (storage_new r db cs) env =
      ran_to_end P (invoke_export P fuel) (function_name tx) (arguments tx) ?vm"
    unfolding fun_eq_iff completes_with_def using runs(2) loads_unique by metis
  then show thesis
    by (cases rule: leaf_call_changesets [OF leaf c])
      (simp_all add: out unchanged committed vm_contract_address_def)
qed (use run in simp_all)

end
