(* ===== verification/Vm_Variants.thy ===== *)
theory Vm_Variants
  imports Vm_Transaction
begin

text \<open>
  A run on a variant of the interpreter. What holds of every contract on a restricted interpreter
  holds of those contracts on the real one that never meet the restriction. There are two uses:
  contracts that call no other contract run as on an interpreter that cannot call (\<open>without_calls\<close>),
  whatever other contracts there do; and a run that is stuck in a start function is one that panics
  there on an interpreter that gives up on those that do not return (\<open>giving_up\<close>).
\<close>

section \<open>Computations that follow one another\<close>

text \<open>
  \<open>follows stick D m m'\<close>: from a machine whose instance satisfies \<open>D\<close>, \<open>m'\<close> does the same as \<open>m\<close> and
  the instance still satisfies \<open>D\<close>; or, if \<open>stick\<close> allows it, \<open>m\<close> does not end and \<open>m'\<close> gives up.
\<close>

definition follows ::
  "bool \<Rightarrow> ('i \<Rightarrow> bool) \<Rightarrow> ('i vm, 'e, 'r) rust \<Rightarrow> ('i vm, 'e, 'r) rust \<Rightarrow> bool" where
  "follows stick D m m' \<longleftrightarrow> (\<forall>vm. D (vm_instance vm) \<longrightarrow>
     (m' vm = m vm \<and> D (vm_instance (snd (m vm)))) \<or>
     (stick \<and> fst (m vm) = Timeout \<and> fst (m' vm) = Panic start_failed))"

lemma followsD:
  assumes "follows stick D m m'" and "D (vm_instance vm)"
  obtains (same) "m' vm = m vm" "D (vm_instance (snd (m vm)))"
    | (stuck) "stick" "fst (m vm) = Timeout" "fst (m' vm) = Panic start_failed"
  using assms unfolding follows_def by blast

lemma follows_same:
  "(\<And>vm. vm_instance (snd (m vm)) = vm_instance vm) \<Longrightarrow> follows stick D m m"
  by (simp add: follows_def)

lemma follows_pure:
  "follows stick D (ret a) (ret a)" "follows stick D (throw e) (throw e)"
  "follows stick D (panic p) (panic p)" "follows stick D (gets f) (gets f)"
  "follows stick D (lift_panic x) (lift_panic x)" "follows stick D (unwrap msg y) (unwrap msg y)"
  by (cases x; cases y; simp add: follows_def)+

lemma follows_use_gas: "follows stick D (use_gas n) (use_gas n)"
  by (rule follows_same) (simp add: use_gas_def split: option.split)

lemma follows_modify:
  "(\<And>vm. vm_instance (f vm) = vm_instance vm) \<Longrightarrow> follows stick D (modify f) (modify f)"
  by (rule follows_same) simp

lemma follows_read_pointer: "follows stick D (read_pointer P ptr) (read_pointer P ptr)"
  by (rule follows_same) (metis read_pointer_state prod.collapse)

lemma follows_and_then:
  fixes m m' :: "('a vm, 'e, 'r) rust"
  assumes m: "follows stick D m m'" and f: "\<And>a. follows stick D (f a) (f' a)"
  shows "follows stick D (and_then m f) (and_then m' f')"
  unfolding follows_def
proof (intro allI impI)
  fix vm :: "'a vm" assume "D (vm_instance vm)"
  with m show "and_then m' f' vm = and_then m f vm \<and> D (vm_instance (snd (and_then m f vm))) \<or>
      stick \<and> fst (and_then m f vm) = Timeout \<and> fst (and_then m' f' vm) = Panic start_failed"
  proof (cases rule: followsD)
    case same
    obtain r vm1 where r: "m vm = (r, vm1)" by force
    with same f show ?thesis by (cases r) (auto simp: and_then_apply follows_def)
  next
    case stuck
    then show ?thesis by (auto simp: and_then_apply split: prod.splits outcome.splits)
  qed
qed

lemma follows_attempt:
  fixes m m' :: "('a vm, 'e, 'r) rust"
  assumes "follows stick D m m'"
  shows "follows stick D (attempt m) (attempt m')"
  unfolding follows_def
proof (intro allI impI)
  fix vm :: "'a vm" assume "D (vm_instance vm)"
  with assms show "attempt m' vm = attempt m vm \<and> D (vm_instance (snd (attempt m vm))) \<or>
      stick \<and> fst (attempt m vm) = Timeout \<and> fst (attempt m' vm) = Panic start_failed"
    by (cases rule: followsD) (auto simp: attempt_apply split: prod.splits outcome.splits)
qed

lemmas follows_basic = follows_pure follows_use_gas follows_read_pointer follows_and_then follows_attempt

section \<open>Variants of the interpreter\<close>

text \<open>
  The variant differs in its steps and start functions. \<open>D\<close> holds of the instances that occur, \<open>A\<close> of
  the activations, \<open>F\<close> of the names of the functions that are called; the host functions that the
  code asks for are \<open>allowed\<close>.
\<close>

locale vm_variant =
  fixes P P' :: "('mo, 'i, 'a) platform" and stick :: bool
    and D :: "'i \<Rightarrow> bool" and A :: "'a \<Rightarrow> bool" and F :: "string \<Rightarrow> bool" and allowed :: "nat \<Rightarrow> bool"
  assumes variant: "P' = P\<lparr>wasm_step := wasm_step P', run_start := run_start P'\<rparr>"
    and variant_malloc: "F ''__malloc''"
    and variant_write: "D inst \<Longrightarrow> mem_set P inst p bs = Some inst' \<Longrightarrow> D inst'"
    and variant_start: "D inst \<Longrightarrow> F f \<Longrightarrow> start_export P inst f args = Inr act \<Longrightarrow> A act"
    and variant_step: "D inst \<Longrightarrow> A act \<Longrightarrow> wasm_step P act inst = (ev, inst') \<Longrightarrow>
      wasm_step P' act inst = (ev, inst') \<and> D inst' \<and>
      (case ev of Meter act' \<Rightarrow> A act' | CallHost index args k \<Rightarrow> allowed index \<and> (\<forall>v. A (k v)) | _ \<Rightarrow> True)"
    and variant_calls: "allowed CALL_FUNC_INDEX \<Longrightarrow> stick \<and> D = (\<lambda>_. True) \<and> F = (\<lambda>_. True) \<and>
      (\<forall>code. new_module_instance P' code = new_module_instance P code \<or>
        new_module_instance P code = Timeout \<and> new_module_instance P' code = Panic start_failed)"
begin

lemma variant_fields:
  "build P' = build P" "exported P' = exported P" "mem_get P' = mem_get P" "mem_set P' = mem_set P"
  "fresh_mem_set P' = fresh_mem_set P" "value_to_vec P' = value_to_vec P"
  "value_from_slice P' = value_from_slice P" "values_from_slice P' = values_from_slice P"
  "not_found_to_vec P' = not_found_to_vec P" "start_export P' = start_export P"
  by (subst variant, simp)+

lemma variant_read: "read_memory P' = read_memory P" "read_pointer P' = read_pointer P"
proof -
  show read: "read_memory P' = read_memory P"
    by (intro ext) (unfold read_memory_def variant_fields, rule refl)
  show "read_pointer P' = read_pointer P"
    by (intro ext) (unfold read_pointer_def read_i32_def read variant_fields, rule refl)
qed

lemma variant_ops:
  "read_pointer P' = read_pointer P" "write_memory P' = write_memory P" "get_memory P' = get_memory P"
  "get_storage P' = get_storage P" "set_memory P' = set_memory P" "set_storage P' = set_storage P"
  "vm_block_number P' = vm_block_number P" "log_message P' = log_message P" "from_bytes P' = from_bytes P"
  "to_bytes P' = to_bytes P"
  by (rule ext | unfold variant_read write_memory_def get_memory_def get_storage_def set_memory_def
      set_storage_def byte_cost_def vm_block_number_def log_message_def from_bytes_def to_bytes_def
      variant_fields | rule refl)+

lemma follows_write_memory: "follows stick D (write_memory P ptr v) (write_memory P ptr v)"
proof -
  have "D (vm_instance (snd (write_memory P ptr v vm)))" if "D (vm_instance vm)" for vm
    using that by (auto simp: write_memory_def rust_simps unwrap_def intro: variant_write
        split: option.split extern_val.split)
  then show ?thesis by (simp add: follows_def)
qed

lemma follows_write_pointer:
  assumes "\<And>f args. F f \<Longrightarrow> follows stick D (invoke f args) (invoke' f args)"
  shows "follows stick D (write_pointer P invoke v) (write_pointer P' invoke' v)"
  unfolding write_pointer_def malloc_def Let_def variant_ops
  by (intro follows_basic follows_write_memory assms variant_malloc)
     (auto split: sum.split option.split runtime_value.split intro: follows_basic)

lemma follows_push_arguments:
  assumes "\<And>f args. F f \<Longrightarrow> follows stick D (invoke f args) (invoke' f args)"
  shows "follows stick D (push_arguments P invoke args acc) (push_arguments P' invoke' args acc)"
proof (induction args arbitrary: acc)
  case (Cons arg args)
  show ?case
    unfolding push_arguments.simps variant_fields
    by (intro follows_basic follows_write_pointer assms)
       (auto split: sum.split option.split intro!: follows_basic Cons.IH)
qed (simp add: follows_basic)

lemma follows_call:
  assumes "\<And>f args. F f \<Longrightarrow> follows stick D (invoke f args) (invoke' f args)" and "F f"
  shows "follows stick D (call P invoke f args) (call P' invoke' f args)"
  unfolding call_def finish_call_def variant_ops
  by (intro follows_basic follows_push_arguments assms)
     (auto split: sum.split option.split runtime_value.split wasm_error.split
        intro!: follows_basic follows_modify assms simp: commit_both_def rollback_both_def)

lemma follows_with_borrowed:
  assumes "D = (\<lambda>_. True)" and "follows stick D m m'"
  shows "follows stick D (with_borrowed setup m) (with_borrowed setup m')"
  using assms unfolding follows_def with_borrowed_def
  by (auto split: prod.splits) (metis fst_conv prod.inject)+

lemma follows_instance:
  assumes "allowed CALL_FUNC_INDEX"
  shows "follows stick D (lift_outcome (new_module_instance P code)) (lift_outcome (new_module_instance P' code))"
  using variant_calls [OF assms] by (auto simp: follows_def)

lemma follows_external_call:
  assumes "allowed CALL_FUNC_INDEX" and "\<And>f args. F f \<Longrightarrow> follows stick D (invoke f args) (invoke' f args)"
  shows "follows stick D (external_call P invoke a b c) (external_call P' invoke' a b c)"
proof -
  have D: "D = (\<lambda>_. True)" and F: "F f" for f using variant_calls [OF assms(1)] by simp_all
  show ?thesis
    unfolding external_call_def variant_ops variant_fields
    by (intro follows_basic)
       (auto split: prod.split intro!: follows_basic follows_instance [OF assms(1)]
          follows_with_borrowed [OF D] follows_call assms F)
qed

lemma follows_host_ops:
  "follows stick D (get_memory P a) (get_memory P a)" "follows stick D (get_storage P a) (get_storage P a)"
  "follows stick D (set_memory P a b) (set_memory P a b)"
  "follows stick D (set_storage P a b) (set_storage P a b)"
  "follows stick D (vm_block_number P) (vm_block_number P)"
  "follows stick D (log_message P a b) (log_message P a b)"
  unfolding get_memory_def get_storage_def set_memory_def set_storage_def vm_block_number_def
    log_message_def
  by (intro follows_basic follows_modify; simp)+

lemma follows_invoke_index:
  assumes "\<And>f args. F f \<Longrightarrow> follows stick D (invoke f args) (invoke' f args)" and "allowed index"
  shows "follows stick D (invoke_index P invoke index args) (invoke_index P' invoke' index args)"
  using assms(2)
  unfolding invoke_index_def variant_ops
  by (auto intro!: follows_basic follows_host_ops follows_write_pointer follows_external_call assms(1))

lemma follows_run_wasm:
  assumes host: "\<And>index args. allowed index \<Longrightarrow> follows stick D (host index args) (host' index args)"
  shows "A act \<Longrightarrow> follows stick D (run_wasm P host fuel act) (run_wasm P' host' fuel act)"
proof (induction fuel arbitrary: act)
  case (Suc fuel)
  show ?case
    unfolding follows_def
  proof (intro allI impI)
    fix vm :: "'i vm" assume D: "D (vm_instance vm)"
    obtain ev inst where st: "wasm_step P act (vm_instance vm) = (ev, inst)" by force
    note step = variant_step [OF D Suc.prems st]
    define rest where "rest Q h =
      (case ev of Finished v \<Rightarrow> ret v | Trapped t \<Rightarrow> throw (ErrTrap t) | Errored e \<Rightarrow> throw (ErrOther e)
       | Meter act' \<Rightarrow> and_then (attempt charge_instruction) (\<lambda>r.
           case r of Inl t \<Rightarrow> throw (ErrTrap t) | Inr _ \<Rightarrow> run_wasm Q h fuel act')
       | CallHost index args k \<Rightarrow> and_then (attempt (h index args)) (\<lambda>r.
           case r of Inl t \<Rightarrow> throw (ErrTrap t) | Inr v \<Rightarrow> run_wasm Q h fuel (k v)))"
      for Q :: "('mo, 'i, 'a) platform" and h
    have "follows stick D (rest P host) (rest P' host')"
      using step unfolding rest_def charge_instruction_def
      by (cases ev) (auto split: sum.split intro!: follows_basic Suc.IH host)
    moreover have "D (vm_instance (vm\<lparr>vm_instance := inst\<rparr>))" using step by simp
    ultimately show "run_wasm P' host' (Suc fuel) act vm = run_wasm P host (Suc fuel) act vm \<and>
        D (vm_instance (snd (run_wasm P host (Suc fuel) act vm))) \<or>
        stick \<and> fst (run_wasm P host (Suc fuel) act vm) = Timeout \<and>
        fst (run_wasm P' host' (Suc fuel) act vm) = Panic start_failed"
      using st step by (simp add: run_wasm_step rest_def [symmetric] follows_def)
  qed
qed (simp add: follows_def)

lemma follows_invoke_export:
  "F f \<Longrightarrow> follows stick D (invoke_export P fuel f args) (invoke_export P' fuel f args)"
proof (induction fuel arbitrary: f args)
  case (Suc fuel)
  show ?case
    unfolding follows_def
  proof (intro allI impI)
    fix vm :: "'i vm" assume D: "D (vm_instance vm)"
    show "invoke_export P' (Suc fuel) f args vm = invoke_export P (Suc fuel) f args vm \<and>
        D (vm_instance (snd (invoke_export P (Suc fuel) f args vm))) \<or>
        stick \<and> fst (invoke_export P (Suc fuel) f args vm) = Timeout \<and>
        fst (invoke_export P' (Suc fuel) f args vm) = Panic start_failed"
    proof (cases "start_export P (vm_instance vm) f args")
      case (Inr act)
      have "follows stick D (run_wasm P (invoke_index P (invoke_export P fuel)) fuel act)
          (run_wasm P' (invoke_index P' (invoke_export P' fuel)) fuel act)"
        using variant_start [OF D Suc.prems Inr] by (intro follows_run_wasm follows_invoke_index Suc.IH)
      with D Inr show ?thesis by (simp add: and_then_apply variant_fields follows_def)
    qed (use D in \<open>simp add: and_then_apply variant_fields\<close>)
  qed
qed (simp add: follows_def)

end

section \<open>Giving up on start functions\<close>

text \<open>The interpreter that reports a start function which does not return as failed.\<close>

definition giving_up :: "('mo, 'i, 'a) platform \<Rightarrow> ('mo, 'i, 'a) platform" where
  "giving_up P = P\<lparr>run_start := (\<lambda>inst.
     case run_start P inst of StartLoops \<Rightarrow> StartFailed | r \<Rightarrow> r)\<rparr>"

lemma giving_up_simps [simp]:
  "wasm_step (giving_up P) = wasm_step P" "start_export (giving_up P) = start_export P"
  by (simp_all add: giving_up_def)

lemma giving_up_starts_end: "starts_end (giving_up P)"
  by (auto simp: starts_end_def giving_up_def split: started.split)

lemma giving_up_instance:
  "new_module_instance (giving_up P) code = new_module_instance P code \<or>
   new_module_instance P code = Timeout \<and> new_module_instance (giving_up P) code = Panic start_failed"
  by (auto simp: new_module_instance_def giving_up_def split: option.split started.split)

interpretation giving_up: vm_variant P "giving_up P" True "\<lambda>_. True" "\<lambda>_. True" "\<lambda>_. True" "\<lambda>_. True"
proof (unfold_locales, goal_cases)
  case 1
  show ?case by (cases P) (simp add: giving_up_def)
qed (use giving_up_instance in \<open>auto split: wasm_event.split\<close>)

text \<open>A run that does not end with enough fuel is stuck in a start function.\<close>

lemma giving_up_run:
  "transaction_run (giving_up P) fuel tx memory storage env = transaction_run P fuel tx memory storage env \<or>
   transaction_run P fuel tx memory storage env = Timeout \<and>
   transaction_run (giving_up P) fuel tx memory storage env = Panic start_failed"
proof (cases "storage_get storage (right_pad_vec (contract_address tx) 64 0)")
  case (Inr code)
  let ?call = "\<lambda>P. call P (invoke_export P fuel) (function_name tx) (arguments tx)"
  have "follows True (\<lambda>_. True) (?call P) (?call (giving_up P))"
    by (intro giving_up.follows_call giving_up.follows_invoke_export) simp_all
  then have "?call (giving_up P) vm = ?call P vm \<or> fst (?call P vm) = Timeout \<and>
      fst (?call (giving_up P) vm) = Panic start_failed" for vm
    by (simp add: follows_def)
  then have "call_outcome (?call (giving_up P) vm) = call_outcome (?call P vm) \<or>
      call_outcome (?call P vm) = Timeout \<and> call_outcome (?call (giving_up P) vm) = Panic start_failed" for vm
    unfolding call_outcome_Timeout_iff call_outcome_Panic_iff by metis
  then show ?thesis
    using Inr giving_up_instance [of P code]
    by (cases "new_module_instance P code") (auto simp: transaction_run_def)
qed (simp add: transaction_run_def)

section \<open>Contracts that call no other contract\<close>

text \<open>
  What an instance can become, and the activations that can run on it, when its function \<open>func\<close> is
  called, the allocator with it: the instance is written to by the host, the activations of the two
  functions run on it, and a host function may answer anything.
\<close>

inductive can_become :: "('mo, 'i, 'a) platform \<Rightarrow> 'i \<Rightarrow> string \<Rightarrow> 'i \<Rightarrow> bool"
    and can_run :: "('mo, 'i, 'a) platform \<Rightarrow> 'i \<Rightarrow> string \<Rightarrow> 'a \<Rightarrow> bool"
  for P inst0 func where
  become_init: "can_become P inst0 func inst0"
| become_written: "can_become P inst0 func inst \<Longrightarrow> mem_set P inst p bs = Some inst' \<Longrightarrow>
     can_become P inst0 func inst'"
| become_step: "can_become P inst0 func inst \<Longrightarrow> can_run P inst0 func act \<Longrightarrow>
     wasm_step P act inst = (ev, inst') \<Longrightarrow> can_become P inst0 func inst'"
| run_started: "can_become P inst0 func inst \<Longrightarrow> f = func \<or> f = ''__malloc'' \<Longrightarrow>
     start_export P inst f args = Inr act \<Longrightarrow> can_run P inst0 func act"
| run_metered: "can_become P inst0 func inst \<Longrightarrow> can_run P inst0 func act \<Longrightarrow>
     wasm_step P act inst = (Meter act', inst') \<Longrightarrow> can_run P inst0 func act'"
| run_answered: "can_become P inst0 func inst \<Longrightarrow> can_run P inst0 func act \<Longrightarrow>
     wasm_step P act inst = (CallHost index args k, inst') \<Longrightarrow> can_run P inst0 func (k v)"

text \<open>The function calls no other contract: no activation of it asks for the host function of calls.\<close>

definition calls_no_other :: "('mo, 'i, 'a) platform \<Rightarrow> 'i \<Rightarrow> string \<Rightarrow> bool" where
  "calls_no_other P inst0 func \<longleftrightarrow> (\<forall>act inst index args k inst'.
     can_become P inst0 func inst \<longrightarrow> can_run P inst0 func act \<longrightarrow>
     wasm_step P act inst = (CallHost index args k, inst') \<longrightarrow> index \<noteq> CALL_FUNC_INDEX)"

text \<open>The transaction's function, in the contract that the storage holds at its address.\<close>

definition leaf_transaction :: "('mo, 'i, 'a) platform \<Rightarrow> storage \<Rightarrow> transaction \<Rightarrow> bool" where
  "leaf_transaction P storage tx \<longleftrightarrow> (\<forall>inst. loads P storage (contract_address tx) inst \<longrightarrow>
     calls_no_other P inst (function_name tx))"

text \<open>The interpreter with calls between contracts cut off.\<close>

definition without_calls :: "('mo, 'i, 'a) platform \<Rightarrow> ('mo, 'i, 'a) platform" where
  "without_calls P = P\<lparr>wasm_step := (\<lambda>act inst.
     case wasm_step P act inst of
       (CallHost index args k, inst') \<Rightarrow>
         if index = CALL_FUNC_INDEX then (Trapped (OtherTrap []), inst')
         else (CallHost index args k, inst')
     | r \<Rightarrow> r)\<rparr>"

lemma without_calls_never: "never_calls (without_calls P)"
  by (auto simp: never_calls_def without_calls_def split: prod.splits wasm_event.splits if_splits)

lemma without_calls_step:
  assumes "wasm_step P act inst = (ev, inst')"
    and "\<And>index args k. ev = CallHost index args k \<Longrightarrow> index \<noteq> CALL_FUNC_INDEX"
  shows "wasm_step (without_calls P) act inst = (ev, inst')"
  using assms by (cases ev) (auto simp: without_calls_def)

lemma without_calls_instance: "new_module_instance (without_calls P) code = new_module_instance P code"
proof -
  have "from_buffer (without_calls P) = from_buffer P" "instantiate (without_calls P) = instantiate P"
    "run_start (without_calls P) = run_start P"
    by (simp_all add: without_calls_def)
  then show ?thesis unfolding new_module_instance_def by presburger
qed

lemma without_calls_loads: "loads (without_calls P) storage a inst = loads P storage a inst"
  unfolding loads_def without_calls_instance ..

interpretation leaf: vm_variant P "without_calls P" False
    "\<lambda>inst. can_become P inst0 func inst \<and> calls_no_other P inst0 func"
    "\<lambda>act. can_run P inst0 func act \<and> calls_no_other P inst0 func"
    "\<lambda>f. f = func \<or> f = ''__malloc''" "\<lambda>index. index \<noteq> CALL_FUNC_INDEX"
proof (unfold_locales, goal_cases)
  case 1
  show ?case by (cases P) (simp add: without_calls_def)
next
  case (5 inst act ev inst')
  then have ok: "index \<noteq> CALL_FUNC_INDEX" if "ev = CallHost index args k" for index args k
    using that unfolding calls_no_other_def by blast
  with 5 have "wasm_step (without_calls P) act inst = (ev, inst')" by (intro without_calls_step)
  with 5 ok show ?case
    by (cases ev) (auto intro: become_step run_metered run_answered)
qed (auto intro: become_written run_started)

text \<open>So such a transaction runs as on the interpreter that cannot call.\<close>

lemma leaf_invocation_same:
  assumes leaf: "calls_no_other P (vm_instance vm) f"
  shows "push_arguments (without_calls P) (invoke_export (without_calls P) fuel) args [] vm =
      push_arguments P (invoke_export P fuel) args [] vm"
    and "push_arguments P (invoke_export P fuel) args [] vm = (q, vm1) \<Longrightarrow>
      invoke_export (without_calls P) fuel f vals vm1 = invoke_export P fuel f vals vm1"
    and "call (without_calls P) (invoke_export (without_calls P) fuel) f args vm =
      call P (invoke_export P fuel) f args vm"
proof -
  let ?D = "\<lambda>inst. can_become P (vm_instance vm) f inst \<and> calls_no_other P (vm_instance vm) f"
  have start: "?D (vm_instance vm)" using leaf by (simp add: become_init)
  have invoke: "follows False ?D (invoke_export P fuel g args) (invoke_export (without_calls P) fuel g args)"
    if "g = f \<or> g = ''__malloc''" for g args
    using that by (rule leaf.follows_invoke_export)
  have push: "follows False ?D (push_arguments P (invoke_export P fuel) args [])
      (push_arguments (without_calls P) (invoke_export (without_calls P) fuel) args [])"
    using invoke by (rule leaf.follows_push_arguments)
  with start show "push_arguments (without_calls P) (invoke_export (without_calls P) fuel) args [] vm =
      push_arguments P (invoke_export P fuel) args [] vm"
    by (simp add: follows_def)
  show "invoke_export (without_calls P) fuel f vals vm1 = invoke_export P fuel f vals vm1"
    if "push_arguments P (invoke_export P fuel) args [] vm = (q, vm1)"
  proof -
    from push start that have "?D (vm_instance vm1)" by (auto simp: follows_def)
    with invoke [of f vals] show ?thesis by (simp add: follows_def)
  qed
  have "follows False ?D (call P (invoke_export P fuel) f args)
      (call (without_calls P) (invoke_export (without_calls P) fuel) f args)"
    using invoke by (rule leaf.follows_call) simp_all
  with start show "call (without_calls P) (invoke_export (without_calls P) fuel) f args vm =
      call P (invoke_export P fuel) f args vm"
    by (simp add: follows_def)
qed

lemma leaf_ran_to_end:
  assumes "calls_no_other P (vm_instance vm) f"
  shows "ran_to_end (without_calls P) (invoke_export (without_calls P) fuel) f args vm =
    ran_to_end P (invoke_export P fuel) f args vm"
  using leaf_invocation_same(1,2) [OF assms] unfolding ran_to_end_def fun_eq_iff by metis

lemma leaf_completes_with:
  assumes "leaf_transaction P storage tx"
  shows "completes_with (without_calls P) fuel tx memory storage env =
    completes_with P fuel tx memory storage env"
proof -
  have "ran_to_end (without_calls P) (invoke_export (without_calls P) fuel) (function_name tx) (arguments tx)
        (transaction_vm inst tx memory storage env) =
      ran_to_end P (invoke_export P fuel) (function_name tx) (arguments tx)
        (transaction_vm inst tx memory storage env)"
    if "loads P storage (contract_address tx) inst" for inst
    using assms that by (intro leaf_ran_to_end) (simp add: leaf_transaction_def transaction_vm_def)
  then show ?thesis
    unfolding completes_with_def fun_eq_iff without_calls_loads by metis
qed

lemma leaf_transaction_run:
  assumes "leaf_transaction P storage tx"
  shows "transaction_run (without_calls P) fuel tx memory storage env =
    transaction_run P fuel tx memory storage env"
proof -
  have "call (without_calls P) (invoke_export (without_calls P) fuel) (function_name tx) (arguments tx)
        (transaction_vm inst tx memory storage env) =
      call P (invoke_export P fuel) (function_name tx) (arguments tx)
        (transaction_vm inst tx memory storage env)"
    if "loads P storage (contract_address tx) inst" for inst
    using assms that by (intro leaf_invocation_same(3)) (simp add: leaf_transaction_def transaction_vm_def)
  then show ?thesis
    by (auto simp: transaction_run_def loads_def without_calls_instance split: sum.split outcome.split)
qed

lemma leaf_transaction_changesets:
  assumes leaf: "leaf_transaction P (storage_new r db cs) tx"
    and run: "transaction_run P fuel tx (memory_new r cm) (storage_new r db cs) env =
      Ok (mc, sc, res, gas)"
  obtains (unchanged) "mc = cm" "sc = cs"
      "\<And>wm ws. \<not> completes_with P fuel tx (memory_new r cm) (storage_new r db cs) env wm ws"
    | (committed) wm ws where "mc = cm ++ wm" "sc = cs ++ ws"
      "\<forall>k \<in> dom wm \<union> dom ws. in_namespace (contract_address tx) k"
      "completes_with P fuel tx (memory_new r cm) (storage_new r db cs) env wm ws"
  using leaf_run_changesets [OF without_calls_never run [folded leaf_transaction_run [OF leaf]]]
  unfolding leaf_completes_with [OF leaf] by metis

end
