(* ===== verification/Vm_Demo.thy ===== *)
theory Vm_Demo
  imports Vm_Data
begin

text \<open>
  A small concrete interpreter and codec, used only to instantiate the third-party interface in
  the witnesses. A module is a table of scripts; an activation runs one script, is charged before
  each instruction, can call host functions and returns constants or the last host answer; memory
  is a byte list, allocation bumps a pointer.
\<close>

datatype instr =
    Host nat "runtime_value list"
  | Return "runtime_value option"
  | ReturnLast
  | Trap
  | Alloc nat

record demo_instance =
  demo_bytes :: bytes
  demo_next :: nat
  demo_exports :: "(string \<times> instr list) list"

text \<open>An activation: not yet charged, the rest of the script, the last host answer.\<close>

type_synonym activation = "bool \<times> instr list \<times> runtime_value option"

definition demo_start ::
  "demo_instance \<Rightarrow> string \<Rightarrow> runtime_value list \<Rightarrow> string + activation" where
  "demo_start inst f args =
     (if f = ''__malloc'' then
        (case args of [I32 n] \<Rightarrow> Inr (True, [Alloc (unat n)], None) | _ \<Rightarrow> Inl ''signature'')
      else case map_of (demo_exports inst) f of
             None \<Rightarrow> Inl ''unknown export''
           | Some script \<Rightarrow> Inr (True, script, None))"

fun demo_step :: "activation \<Rightarrow> demo_instance \<Rightarrow> activation wasm_event \<times> demo_instance" where
  "demo_step (True, script, ans) inst = (Meter (False, script, ans), inst)"
| "demo_step (False, [], ans) inst = (Finished None, inst)"
| "demo_step (False, Host index args # r, ans) inst =
     (CallHost index args (\<lambda>v. (True, r, v)), inst)"
| "demo_step (False, Return v # r, ans) inst = (Finished v, inst)"
| "demo_step (False, ReturnLast # r, ans) inst = (Finished ans, inst)"
| "demo_step (False, Trap # r, ans) inst = (Trapped (OtherTrap ''Stop''), inst)"
| "demo_step (False, Alloc n # r, ans) inst =
     (Finished (Some (I32 (word_of_nat (demo_next inst)))),
      inst\<lparr>demo_next := demo_next inst + n\<rparr>)"

definition demo_mem_get :: "demo_instance \<Rightarrow> u32 \<Rightarrow> nat \<Rightarrow> bytes option" where
  "demo_mem_get inst p n =
     (if unat p + n \<le> length (demo_bytes inst) then Some (take n (drop (unat p) (demo_bytes inst)))
      else None)"

definition demo_mem_set :: "demo_instance \<Rightarrow> u32 \<Rightarrow> bytes \<Rightarrow> demo_instance option" where
  "demo_mem_set inst p bs =
     (if unat p + length bs \<le> length (demo_bytes inst) then
        Some (inst\<lparr>demo_bytes := take (unat p) (demo_bytes inst) @ bs @
                drop (unat p + length bs) (demo_bytes inst)\<rparr>)
      else None)"

text \<open>A part of a CBOR codec: null, integers, short byte strings and texts; of a map only the header.\<close>

fun demo_to_vec :: "cbor_value \<Rightarrow> bytes option" where
  "demo_to_vec Null = Some [0xF6]"
| "demo_to_vec (Integer n) =
     (if 0 \<le> n \<and> n < 24 then Some [word_of_int n]
      else if 0 \<le> n \<and> n < 65536 then Some [0x19, word_of_int (n div 256), word_of_int n]
      else None)"
| "demo_to_vec (Bytes bs) =
     (if length bs < 24 then Some ((0x40 + word_of_nat (length bs)) # bs) else None)"
| "demo_to_vec (Text s) =
     (if length s < 24 then Some ((0x60 + word_of_nat (length s)) # as_bytes s) else None)"
| "demo_to_vec (Map kvs) = Some [0xA0 + word_of_nat (length kvs)]"
| "demo_to_vec _ = None"

fun demo_from_slice :: "bytes \<Rightarrow> cbor_value option" where
  "demo_from_slice [] = None"
| "demo_from_slice (b # bs) =
     (if b = 0xF6 \<and> bs = [] then Some Null
      else if b < 24 \<and> bs = [] then Some (Integer (uint b))
      else if 0x60 \<le> b \<and> b < 0x78 \<and> length bs = unat (b - 0x60) then map_option Text (from_utf8 bs)
      else None)"

text \<open>The module table maps the code of a contract to its initial instance.\<close>

definition demo_platform ::
  "build_mode \<Rightarrow> (bytes \<Rightarrow> demo_instance option) \<Rightarrow>
     (demo_instance, demo_instance, activation) platform" where
  "demo_platform mode modules =
     \<lparr>build = mode, from_buffer = modules, instantiate = (\<lambda>m imps. Some m), run_start = Started,
      start_export = demo_start, wasm_step = demo_step,
      exported = (\<lambda>inst name. if name = ''memory'' then Some ExternMemory else None),
      mem_get = demo_mem_get, mem_set = demo_mem_set,
      fresh_mem_set = (\<lambda>pages p bs. unat p + length bs \<le> 65536 * pages),
      value_to_vec = demo_to_vec, value_from_slice = demo_from_slice,
      values_from_slice = (\<lambda>bs. if bs = [0x80] then Some [] else None),
      not_found_to_vec = (\<lambda>_. Some [0x82])\<rparr>"

lemma demo_platform_simps [simp]:
  "build (demo_platform mode modules) = mode"
  "from_buffer (demo_platform mode modules) = modules"
  "instantiate (demo_platform mode modules) m imps = Some m"
  "run_start (demo_platform mode modules) = Started"
  "start_export (demo_platform mode modules) = demo_start"
  "wasm_step (demo_platform mode modules) = demo_step"
  "exported (demo_platform mode modules) inst name =
     (if name = ''memory'' then Some ExternMemory else None)"
  "mem_get (demo_platform mode modules) = demo_mem_get"
  "mem_set (demo_platform mode modules) = demo_mem_set"
  "value_to_vec (demo_platform mode modules) = demo_to_vec"
  "value_from_slice (demo_platform mode modules) = demo_from_slice"
  "values_from_slice (demo_platform mode modules) bs = (if bs = [0x80] then Some [] else None)"
  "not_found_to_vec (demo_platform mode modules) r = Some [0x82]"
  by (simp_all add: demo_platform_def)

text \<open>Empty databases and a plain environment.\<close>

definition demo_redis :: redis_conn where
  "demo_redis = \<lparr>lrange = (\<lambda>_ _ _. Some []), hget = (\<lambda>_ _. Some [])\<rparr>"

definition demo_env :: env where
  "demo_env = \<lparr>block_number = 1, block_winner = [9], block_hash = [], caller = None\<rparr>"

definition demo_tx :: "bytes \<Rightarrow> string \<Rightarrow> u64 \<Rightarrow> transaction" where
  "demo_tx address f gas =
     \<lparr>contract_address = address, sender = [7], nonce = 0, gas_limit = gas, function_name = f,
      arguments = []\<rparr>"

end
