(* ===== verification/Vm_Runs.thy ===== *)
theory Vm_Runs
  imports Vm_Variants Vm_Demo
begin

text \<open>
  Evaluation of whole transactions on the concrete interpreter of Vm_Demo by rewriting: every
  operation is unfolded only where it is applied to a machine state, so the rewriting follows the
  execution. The concrete contracts of the witnesses are defined here as well.
\<close>

section \<open>Evaluation rules\<close>

lemma invoke_export_Suc:
  "invoke_export P (Suc fuel) f args vm =
     (case start_export P (vm_instance vm) f args of
        Inl e \<Rightarrow> (Err (ErrOther e), vm)
      | Inr act \<Rightarrow> run_wasm P (invoke_index P (invoke_export P fuel)) fuel act vm)"
  by (simp add: and_then_def split: sum.split)

lemma run_wasm_Suc:
  "run_wasm P host (Suc fuel) act vm =
    (case wasm_step P act (vm_instance vm) of (event, inst) \<Rightarrow>
      (case event of
         Finished v \<Rightarrow> ret v
       | Trapped t \<Rightarrow> throw (ErrTrap t)
       | Errored e \<Rightarrow> throw (ErrOther e)
       | Meter act' \<Rightarrow>
           and_then (attempt charge_instruction) (\<lambda>r.
           case r of Inl t \<Rightarrow> throw (ErrTrap t) | Inr _ \<Rightarrow> run_wasm P host fuel act')
       | CallHost index args k \<Rightarrow>
           and_then (attempt (host index args)) (\<lambda>r.
           case r of Inl t \<Rightarrow> throw (ErrTrap t) | Inr v \<Rightarrow> run_wasm P host fuel (k v)))
      (vm\<lparr>vm_instance := inst\<rparr>))"
  by (simp add: run_wasm_step split: prod.split)

lemmas run_numeral =
  run_wasm_Suc [where fuel = "pred_numeral n" for n, folded numeral_eq_Suc]
  invoke_export_Suc [where fuel = "pred_numeral n" for n, folded numeral_eq_Suc]

lemma le_bytes_numeral:
  "le_bytes (numeral n) w = ucast w # le_bytes (pred_numeral n) (drop_bit 8 w)"
  by (simp add: numeral_eq_Suc)

lemma char_of_g: "char_of (103 :: nat) = CHR ''g''"
  by code_simp

lemma invoke_index_at:
  "invoke_index P invoke 0 args = and_then (gets vm_contract_address) (write_pointer P invoke)"
  "invoke_index P invoke 5 args = and_then (gets vm_caller) (write_pointer P invoke)"
  "invoke_index P invoke 6 args =
     and_then (lift_panic (args_nth args 0)) (\<lambda>a0.
     and_then (get_memory P a0) (write_pointer P invoke))"
  "invoke_index P invoke 7 args =
     and_then (lift_panic (args_nth args 0)) (\<lambda>a0.
     and_then (lift_panic (args_nth args 1)) (\<lambda>a1. set_memory P a0 a1))"
  "invoke_index P invoke 9 args =
     and_then (lift_panic (args_nth args 0)) (\<lambda>a0.
     and_then (lift_panic (args_nth args 1)) (\<lambda>a1. set_storage P a0 a1))"
  "invoke_index P invoke 12 args =
     and_then (lift_panic (args_nth args 0)) (\<lambda>a0.
     and_then (lift_panic (args_nth args 1)) (\<lambda>a1. log_message P a0 a1))"
  "invoke_index P invoke 11 args =
     and_then (lift_panic (args_nth args 0)) (\<lambda>a0.
     and_then (lift_panic (args_nth args 1)) (\<lambda>a1.
     and_then (lift_panic (args_nth args 2)) (\<lambda>a2.
     and_then (external_call P invoke a0 a1 a2) (write_pointer P invoke))))"
  by (simp_all add: invoke_index_def func_index_defs)

lemmas run_applied = call_def [THEN fun_cong] finish_call_def [THEN fun_cong]
  set_memory_def [THEN fun_cong] get_memory_def [THEN fun_cong] set_storage_def [THEN fun_cong]
  read_pointer_def [THEN fun_cong] read_i32_def [THEN fun_cong] read_memory_def [THEN fun_cong]
  write_memory_def [THEN fun_cong] malloc_def [THEN fun_cong]
  write_pointer_def [THEN fun_cong, unfolded Let_def]
  external_call_def [THEN fun_cong] with_borrowed_def charge_instruction_def use_gas_def
  invoke_index_at [THEN fun_cong] and_then_apply attempt_apply
  run_wasm_Suc invoke_export_Suc run_numeral

lemmas run_data = transaction_run_def transaction_vm_def call_outcome_def nested_vm_def
  gas_cost_defs args_nth_def byte_cost_def arith_defs commit_both_def rollback_both_def
  memory_op_defs storage_op_defs demo_start_def demo_mem_get_def demo_mem_set_def demo_redis_def
  demo_tx_def demo_env_def new_module_instance_def from_bytes_def to_bytes_def
  memory_get_def get_from_memory_def memory_get_latest_def
  storage_get_def get_from_storage_def storage_get_latest_def vm_contract_address_def
  i32_to_vec_def u32_to_vec_def le_bytes_numeral from_utf8_def of_bytes_def
  char_of_g wasm_trap_def as_bytes_def

section \<open>The contracts of the witnesses\<close>

text \<open>
  One page of memory holds, as length-prefixed values: at 0 the address or value \<open>[2]\<close>, at 5 the
  function name g, at 10 an empty CBOR array, and at 15 the encoded result (0, null).
\<close>

definition demo_page :: bytes where
  "demo_page = [1, 0, 0, 0, 2,  1, 0, 0, 0, 0x67,  1, 0, 0, 0, 0x80,
                5, 0, 0, 0, 0, 0, 0, 0, 0xF6] @ replicate 40 0"

definition demo_contract :: "(string \<times> instr list) list \<Rightarrow> demo_instance" where
  "demo_contract exports = \<lparr>demo_bytes = demo_page, demo_next = 24, demo_exports = exports\<rparr>"

abbreviation ok_result :: "runtime_value option" where
  "ok_result \<equiv> Some (I32 15)"

text \<open>
  Contract \<open>[1]\<close> stores \<open>[2]\<close> under the key \<open>[2]\<close> and then: \<open>set\<close> returns, \<open>fail\<close> traps, \<open>callfail\<close> calls
  the other contract and then traps, \<open>callok\<close> calls it and returns. Contract \<open>[2]\<close> exports g, which
  returns or traps.
\<close>

definition demo_modules :: "instr \<Rightarrow> bytes \<Rightarrow> demo_instance option" where
  "demo_modules callee code =
     (if code = [1] then Some (demo_contract
        [(''set'', [Host 7 [I32 0, I32 0], Return ok_result]),
         (''fail'', [Host 7 [I32 0, I32 0], Trap]),
         (''callfail'', [Host 7 [I32 0, I32 0], Host 11 [I32 0, I32 5, I32 10], Trap]),
         (''callok'', [Host 7 [I32 0, I32 0], Host 11 [I32 0, I32 5, I32 10], Return ok_result])])
      else if code = [2] then Some (demo_contract [(''g'', [callee])])
      else None)"

definition demo_code :: changeset where
  "demo_code = [right_pad_vec [1] 64 0 \<mapsto> [1], right_pad_vec [2] 64 0 \<mapsto> [2]]"

definition demo_run ::
  "build_mode \<Rightarrow> instr \<Rightarrow> nat \<Rightarrow> string \<Rightarrow> u64 \<Rightarrow> (trap_kind, run_result) outcome" where
  "demo_run mode callee fuel f gas =
     transaction_run (demo_platform mode (demo_modules callee)) fuel (demo_tx [1] f gas)
       (memory_new demo_redis Map.empty) (storage_new demo_redis (\<lambda>_. Inr None) demo_code) demo_env"

lemma demo_code_lookup:
  "demo_code (right_pad_vec [1] 64 0) = Some [1]" "demo_code (right_pad_vec [2] 64 0) = Some [2]"
  by (simp_all add: demo_code_def right_pad_vec_eq)

lemma demo_storage_get:
  "storage_get (storage_new demo_redis (\<lambda>_. Inr None) cs) k =
     Inr (case cs k of Some code \<Rightarrow> code | None \<Rightarrow> [])"
  by (simp add: storage_get_def get_from_storage_def storage_get_latest_def storage_op_defs demo_redis_def
      split: option.split)

lemma demo_storage_code:
  "storage_get (storage_new demo_redis (\<lambda>_. Inr None) demo_code) (right_pad_vec [1] 64 0) = Inr [1]"
  by (simp add: demo_storage_get demo_code_lookup)

lemmas run_demo = demo_run_def demo_modules_def demo_contract_def demo_page_def demo_code_lookup

lemma run_set:
  "demo_run Release callee 50 ''set'' 100000 =
     Ok ([namespaced_key [1] [2] \<mapsto> [2]], demo_code, (0, Null), Some 94998)"
  by (simp add: run_demo run_data run_applied)

lemma run_fail:
  "demo_run Release callee 50 ''fail'' 100000 =
     Ok (Map.empty, demo_code, wasm_trap (OtherTrap ''Stop''), Some 94998)"
  by (simp add: run_demo run_data run_applied)

lemma run_callfail:
  "demo_run Release (Return ok_result) 50 ''callfail'' 100000 =
     Ok ([namespaced_key [1] [2] \<mapsto> [2]], demo_code, wasm_trap (OtherTrap ''Stop''), Some 94995)"
  by (simp add: run_demo run_data run_applied)

lemma run_callok:
  "demo_run Release Trap 50 ''callok'' 100000 =
     Ok (Map.empty, demo_code, (0, Null), Some 94995)"
  by (simp add: run_demo run_data run_applied)

section \<open>The assumptions on the interpreter hold for it\<close>

lemma demo_step_CallHost:
  "demo_step act inst = (CallHost index args k, inst') \<Longrightarrow> \<not> fst act \<and> (\<forall>v. fst (k v))"
  by (cases "(act, inst)" rule: demo_step.cases) auto

lemma demo_meters: "meters_host_calls (demo_platform mode mods) fst"
  using demo_step_CallHost
  by (auto simp: meters_host_calls_def demo_start_def split: if_splits list.splits
      runtime_value.splits option.splits)

text \<open>A function whose script does not call is one that calls no other contract.\<close>

lemma demo_leaf_step:
  assumes "demo_step act inst = (ev, inst')"
  shows "demo_exports inst' = demo_exports inst \<and>
    (case ev of
       Meter act' \<Rightarrow> fst (snd act') = fst (snd act)
     | CallHost index args k \<Rightarrow> Host index args \<in> set (fst (snd act)) \<and>
         (\<forall>v. set (fst (snd (k v))) \<subseteq> set (fst (snd act)))
     | _ \<Rightarrow> True)"
  using assms by (cases "(act, inst)" rule: demo_step.cases) auto

lemma demo_calls_no_other:
  assumes "\<And>script args. map_of (demo_exports inst) f = Some script \<Longrightarrow> Host CALL_FUNC_INDEX args \<notin> set script"
  shows "calls_no_other (demo_platform mode mods) inst f"
proof -
  let ?P = "demo_platform mode mods"
  have "can_become ?P inst f i \<Longrightarrow> demo_exports i = demo_exports inst"
    and run: "can_run ?P inst f act \<Longrightarrow> Host CALL_FUNC_INDEX args \<notin> set (fst (snd act))" for i act args
  proof (induction rule: can_become_can_run.inducts)
    case (become_written i p bs i')
    then show ?case by (auto simp: demo_mem_set_def split: if_splits)
  next
    case (run_started i g as act)
    then show ?case
      using assms by (auto simp: demo_start_def split: if_splits option.splits list.splits runtime_value.splits)
  qed (auto dest!: demo_leaf_step subsetD)
  have "index \<noteq> CALL_FUNC_INDEX"
    if "can_run ?P inst f act" "demo_step act i = (CallHost index args k, i')" for act i index args k i'
    using run [OF that(1), of args] demo_leaf_step [OF that(2)] by auto
  then show ?thesis by (auto simp: calls_no_other_def)
qed

text \<open>\<open>set\<close> of the first contract is such a function, though others of the same contract call.\<close>

lemma demo_leaf_transaction:
  assumes "storage_get storage (right_pad_vec a 64 0) = Inr [1]"
  shows "leaf_transaction (demo_platform mode (demo_modules callee)) storage (demo_tx a ''set'' gas)"
proof -
  have "map_of (demo_exports inst) ''set'' = Some [Host 7 [I32 0, I32 0], Return ok_result]"
    if "loads (demo_platform mode (demo_modules callee)) storage a inst" for inst
    using that assms by (auto simp: loads_def new_module_instance_def demo_modules_def demo_contract_def)
  then show ?thesis
    by (auto simp: leaf_transaction_def demo_tx_def CALL_FUNC_INDEX_def intro!: demo_calls_no_other)
qed

end
