(* ===== verification/Vm_Calls.thy ===== *)
theory Vm_Calls
  imports Vm_Runs
begin

text \<open>
  Calls between contracts: the reads of host functions, and the external call taken apart into
  reading the request, loading the callee, running it on the borrowed stores and charging the gas.
\<close>

section \<open>Computations that only read\<close>

definition only_reads :: "('s, 'e, 'a) rust \<Rightarrow> bool" where
  "only_reads m \<longleftrightarrow> (\<forall>s. (\<exists>a. m s = (Ok a, s)) \<or> (\<exists>p. m s = (Panic p, s)))"

lemma only_reads_basic:
  "only_reads (ret a)" "only_reads (panic p)" "only_reads (gets f)" "only_reads (unwrap msg x)"
  "only_reads (lift_panic y)"
  by (auto simp: only_reads_def unwrap_def lift_panic_def split: option.splits sum.splits)

lemma only_reads_and_then:
  assumes "only_reads m" and "\<And>a. only_reads (f a)"
  shows "only_reads (and_then m f)"
  unfolding only_reads_def
proof
  fix s
  from assms(1) consider a where "m s = (Ok a, s)" | p where "m s = (Panic p, s)"
    unfolding only_reads_def by blast
  then show "(\<exists>a. and_then m f s = (Ok a, s)) \<or> (\<exists>p. and_then m f s = (Panic p, s))"
    using assms(2) by cases (simp_all add: rust_simps only_reads_def)
qed

lemma only_reads_read_memory: "only_reads (read_memory P ptr len)"
  unfolding read_memory_def
  by (intro only_reads_and_then only_reads_basic)
     (auto split: option.split extern_val.split intro: only_reads_basic)

lemma only_reads_read_pointer: "only_reads (read_pointer P ptr)"
  unfolding read_pointer_def read_i32_def
  by (auto intro!: only_reads_and_then only_reads_basic only_reads_read_memory)

lemma read_pointer_cases:
  obtains (returns) bs where "read_pointer P ptr vm = (Ok bs, vm)"
    | (panics) p where "read_pointer P ptr vm = (Panic p, vm)"
  using only_reads_read_pointer [of P ptr] unfolding only_reads_def by blast

lemma read_pointer_keeps: "read_pointer P ptr vm = (r, vm') \<Longrightarrow> vm' = vm"
  by (cases rule: read_pointer_cases [of P ptr vm]) auto

section \<open>Results of computations\<close>

text \<open>
  \<open>yields Q\<close>: the computation has no error of its own, and what it returns with, if it returns,
  satisfies \<open>Q\<close>. It composes like a weakest precondition.
\<close>

definition yields :: "('a \<Rightarrow> 's \<Rightarrow> bool) \<Rightarrow> ('e, 'a) outcome \<times> 's \<Rightarrow> bool" where
  "yields Q r \<longleftrightarrow> (case r of (Ok a, s) \<Rightarrow> Q a s | (Err e, s) \<Rightarrow> False | _ \<Rightarrow> True)"

lemma yields_basic [simp]:
  "yields Q (Ok a, s) = Q a s" "yields Q (Err e, s) = False" "yields Q (Panic p, s) = True"
  "yields Q (Timeout, s) = True"
  by (simp_all add: yields_def)

lemma yields_and_then: "yields (\<lambda>a s'. yields Q (f a s')) (m s) \<Longrightarrow> yields Q (and_then m f s)"
  by (auto simp: rust_simps yields_def split: prod.splits outcome.splits)

lemma yields_mono: "yields Q r \<Longrightarrow> (\<And>a s. Q a s \<Longrightarrow> Q' a s) \<Longrightarrow> yields Q' r"
  by (auto simp: yields_def split: prod.splits outcome.splits)

lemma yields_gets: "Q (f s) s \<Longrightarrow> yields Q (gets f s)"
  by simp

lemma yields_unwrap: "(\<And>a. x = Some a \<Longrightarrow> Q a s) \<Longrightarrow> yields Q (unwrap msg x s)"
  by (cases x) simp_all

lemma yields_lift_panic: "(\<And>a. x = Inr a \<Longrightarrow> Q a s) \<Longrightarrow> yields Q (lift_panic x s)"
  by (cases x) simp_all

lemma yields_lift_outcome:
  "(\<And>a. r = Ok a \<Longrightarrow> Q a s) \<Longrightarrow> (\<And>e. r \<noteq> Err e) \<Longrightarrow> yields Q (lift_outcome r s)"
  by (cases r) auto

lemma yields_read_pointer:
  "(\<And>bs. fst (read_pointer P ptr vm) = Ok bs \<Longrightarrow> Q bs vm) \<Longrightarrow> yields Q (read_pointer P ptr vm)"
  by (cases rule: read_pointer_cases [of P ptr vm]) simp_all

lemmas yields_intros = yields_and_then yields_gets yields_unwrap yields_lift_panic
  yields_read_pointer

section \<open>External calls\<close>

text \<open>What an external call reads from the caller's memory and from the storage.\<close>

definition call_request ::
  "('mo, 'i, 'a) platform \<Rightarrow> i32 \<Rightarrow> i32 \<Rightarrow> i32 \<Rightarrow> 'i vm \<Rightarrow>
     bytes \<Rightarrow> string \<Rightarrow> cbor_value list \<Rightarrow> bytes \<Rightarrow> bool" where
  "call_request P a b c vm address fname args code \<longleftrightarrow>
     (\<exists>name arguments.
        fst (read_pointer P a vm) = Ok address \<and>
        fst (read_pointer P b vm) = Ok name \<and> from_utf8 name = Some fname \<and>
        fst (read_pointer P c vm) = Ok arguments \<and> values_from_slice P arguments = Some args \<and>
        storage_get (vm_storage vm) (right_pad_vec address 64 0) = Inr code)"

text \<open>
  The call of \<open>fname\<close> on the nested machine, seen from the caller: what it answers and the machine
  it goes on with.
\<close>

definition nested_call ::
  "('mo, 'i, 'a) platform \<Rightarrow> 'i invocation \<Rightarrow> 'i \<Rightarrow> bytes \<Rightarrow> string \<Rightarrow> cbor_value list \<Rightarrow>
     'i vm \<Rightarrow> bytes \<Rightarrow> 'i vm \<Rightarrow> bool" where
  "nested_call P invoke inst address fname args vm bs vm' \<longleftrightarrow>
     (\<exists>res inner.
        call P invoke fname args (nested_vm inst address fname vm) =
          (Ok (res, vm_gas inner), inner) \<and>
        to_bytes P res = Inr bs \<and>
        vm' = vm\<lparr>vm_gas := vm_gas inner, vm_memory := vm_memory inner,
                 vm_storage := vm_storage inner\<rparr>)"

text \<open>
  The part of an external call after the nested call: the difference is charged to the caller.
\<close>

lemma charge_nested:
  assumes g: "vm_gas vm = Some g" and h: "h \<le> g"
  shows "and_then (gets vm_gas) (\<lambda>gas. and_then (unwrap unwrap_none_msg gas) (\<lambda>gas_before.
      and_then (lift_panic (sub_u32 mode gas_before h)) (\<lambda>gas_used.
      and_then (use_gas gas_used) (\<lambda>_. lift_panic out)))) vm =
    lift_panic out (vm\<lparr>vm_gas := Some h\<rparr>)"
proof -
  have "g - (g - h) = h" by simp
  moreover have "\<not> g < g - h" using word_minus_le [OF h] by simp
  ultimately show ?thesis
    using h by (simp add: rust_simps g sub_u32_Ok use_gas_def)
qed

lemma yields_nested:
  assumes gas: "vm_gas vm = Some g"
  shows "yields (nested_call P (invoke_export P fuel) inst address fname args vm)
    (and_then (with_borrowed (nested_vm inst address fname)
        (call P (invoke_export P fuel) fname args))
      (\<lambda>(res, gas_left).
       and_then (gets vm_gas) (\<lambda>gas.
       and_then (unwrap unwrap_none_msg gas) (\<lambda>gas_before.
       and_then (unwrap ''no gas left'' gas_left) (\<lambda>gas_after.
       and_then (lift_panic (sub_u32 (build P) gas_before gas_after)) (\<lambda>gas_used.
       and_then (use_gas gas_used) (\<lambda>_. lift_panic (to_bytes P res))))))) vm)"
proof -
  let ?call = "call P (invoke_export P fuel) fname args"
  obtain r inner where c: "?call (nested_vm inst address fname vm) = (r, inner)" by force
  have "gas_le (nested_vm inst address fname vm) inner"
    using gas.keeps_call [OF gas.keeps_invoke_export] c by (rule keepsD)
  then obtain h where h: "vm_gas inner = Some h" "h \<le> g"
    using gas by (auto simp: nested_vm_def dest: gas_le_SomeD)
  let ?vm = "vm\<lparr>vm_memory := vm_memory inner, vm_storage := vm_storage inner\<rparr>"
  have borrowed: "with_borrowed (nested_vm inst address fname) ?call vm = (r, ?vm)"
    by (simp add: with_borrowed_def c)
  show ?thesis
  proof (cases r)
    case (Ok x)
    then obtain res where x: "x = (res, Some h)"
      using call_reports_gas [of P "invoke_export P fuel" fname args] c h
      by (cases x) (auto simp: reports_gas_def)
    have "nested_call P (invoke_export P fuel) inst address fname args vm bs (?vm\<lparr>vm_gas := Some h\<rparr>)"
      if "to_bytes P res = Inr bs" for bs
      unfolding nested_call_def using c that h Ok x by (intro exI [of _ res] exI [of _ inner]) simp
    then show ?thesis
      using gas h(2) borrowed Ok x
      by (intro yields_and_then) (simp add: charge_nested yields_lift_panic)
  next
    case (Err e)
    with c show ?thesis by (metis call_not_Err fst_conv)
  qed (simp_all add: rust_simps borrowed)
qed

lemma yields_external_call:
  assumes gas: "vm_gas vm = Some g"
  shows "yields (\<lambda>bs vm'. \<exists>address fname args code. call_request P a b c vm address fname args code \<and>
      (if code = [] then vm' = vm \<and> not_found_to_vec P
           (contract_not_found (vm_transaction vm), Some (ucast (gas_limit (vm_transaction vm)))) = Some bs
       else \<exists>inst. new_module_instance P code = Ok inst \<and>
         nested_call P (invoke_export P fuel) inst address fname args vm bs vm'))
    (external_call P (invoke_export P fuel) a b c vm)"
  unfolding external_call_def
proof (intro yields_intros, goal_cases)
  case (1 address name fname arguments args code)
  then have request: "call_request P a b c vm address fname args code"
    unfolding call_request_def by blast
  show ?case
  proof (cases "code = []")
    case True
    with request show ?thesis by (auto intro!: yields_intros)
  next
    case False
    have found: "\<exists>address fname args code. call_request P a b c vm address fname args code \<and>
        (if code = [] then vm' = vm \<and> not_found_to_vec P
           (contract_not_found (vm_transaction vm), Some (ucast (gas_limit (vm_transaction vm)))) = Some bs
         else \<exists>inst. new_module_instance P code = Ok inst \<and>
           nested_call P (invoke_export P fuel) inst address fname args vm bs vm')"
      if "new_module_instance P code = Ok inst"
        "nested_call P (invoke_export P fuel) inst address fname args vm bs vm'" for inst bs vm'
      using that False request by (intro exI conjI) auto
    show ?thesis
      using False
      by (simp only: list.size length_0_conv if_False)
         (intro yields_and_then yields_lift_outcome new_module_instance_not_Err yields_mono [OF yields_nested [OF gas]] found)
  qed
qed

text \<open>A completed call with arguments ends with a commit of both stores, or with a rollback of both.\<close>

lemma call_settles:
  assumes "call P invoke f args vm = (Ok (res, gas), vm')"
  shows "push_arguments P invoke args [] vm = (Ok (Inl res), vm') \<or>
    (\<exists>vals vm1 r vm2. push_arguments P invoke args [] vm = (Ok (Inr vals), vm1) \<and>
       invoke f vals vm1 = (r, vm2) \<and>
       (case r of Ok v \<Rightarrow> vm' = commit_both vm2 | Err e \<Rightarrow> vm' = rollback_both vm2 | _ \<Rightarrow> False))"
  using assms
proof (cases rule: call_Ok_cases)
  case (trapped vals vm1 t vm2)
  then show ?thesis by (intro disjI2 exI [of _ vals] exI [of _ vm1] exI [of _ "Err (ErrTrap t)"]
        exI [of _ vm2]) simp
next
  case (returned vals vm1 v vm2 bs)
  from read_pointer_keeps [OF returned(3)] returned(1,2) show ?thesis
    by (intro disjI2 exI [of _ vals] exI [of _ vm1] exI [of _ "Ok (Some (I32 v))"]
        exI [of _ vm2]) simp
qed simp

section \<open>A caller for the witnesses\<close>

text \<open>A machine of contract \<open>[1]\<close> with 100 units of gas, whose memory holds a request to \<open>[2]\<close>.\<close>

definition demo_caller :: "demo_instance vm" where
  "demo_caller =
     transaction_vm (demo_contract []) (demo_tx [1] ''f'' 100) (memory_new demo_redis Map.empty)
       (storage_new demo_redis (\<lambda>_. Inr None) demo_code) demo_env"

lemma demo_caller_gas: "vm_gas demo_caller = Some (ucast (gas_limit (demo_tx [1] ''f'' 100)))"
  by (simp add: demo_caller_def transaction_vm_def)

lemma demo_caller_calls:
  "\<exists>bs vm'. external_call (demo_platform Release (demo_modules (Return ok_result)))
      (invoke_export (demo_platform Release (demo_modules (Return ok_result))) 50) 0 5 10 demo_caller =
    (Ok bs, vm')"
  by (simp add: demo_caller_def run_demo run_data run_applied)

end
