(* ===== verification/Vm_Locality.thy ===== *)
theory Vm_Locality
  imports Vm_Variants
begin

text \<open>
  What a transaction depends on. The getters and setters of native/vm/src/vm.rs put the key of a
  contract in the namespace of its address, so a run that calls no other contract is a function of
  what the two stores show there: on stores that agree in the namespace it ends in the same way,
  with the same result, the same gas and the same writes. Transactions of contracts with different
  namespaces can therefore be swapped.
\<close>

section \<open>Two runs side by side\<close>

text \<open>\<open>same_run R m\<close>: from states related by \<open>R\<close>, \<open>m\<close> has the same outcome and leads to such states.\<close>

definition same_run :: "('s \<Rightarrow> 's \<Rightarrow> bool) \<Rightarrow> ('s, 'e, 'a) rust \<Rightarrow> bool" where
  "same_run R m \<longleftrightarrow> (\<forall>s t. R s t \<longrightarrow> fst (m s) = fst (m t) \<and> R (snd (m s)) (snd (m t)))"

lemma same_runI:
  "(\<And>s t. R s t \<Longrightarrow> fst (m s) = fst (m t) \<and> R (snd (m s)) (snd (m t))) \<Longrightarrow> same_run R m"
  by (simp add: same_run_def)

lemma same_runD:
  assumes "same_run R m" and "R s t" and "m s = (r, s')"
  obtains t' where "m t = (r, t')" "R s' t'"
proof
  show "m t = (r, snd (m t))" "R s' (snd (m t))"
    using assms unfolding same_run_def by (metis fst_conv prod.collapse, metis snd_conv)
qed

lemma same_run_pure:
  "same_run R (ret a)" "same_run R (throw e)" "same_run R (panic p)" "same_run R (lift_panic x)"
  "same_run R (unwrap msg y)"
  by (cases x; cases y; simp add: same_run_def)+

lemma same_run_gets: "(\<And>s t. R s t \<Longrightarrow> f s = f t) \<Longrightarrow> same_run R (gets f)"
  by (simp add: same_run_def)

lemma same_run_modify: "(\<And>s t. R s t \<Longrightarrow> R (f s) (f t)) \<Longrightarrow> same_run R (modify f)"
  by (simp add: same_run_def)

lemma same_run_and_then:
  assumes m: "same_run R m" and f: "\<And>a. same_run R (f a)"
  shows "same_run R (and_then m f)"
proof (rule same_runI)
  fix s t assume R: "R s t"
  obtain r s' where s: "m s = (r, s')" by force
  obtain t' where t: "m t = (r, t')" and R': "R s' t'" using m R s by (rule same_runD)
  show "fst (and_then m f s) = fst (and_then m f t) \<and>
      R (snd (and_then m f s)) (snd (and_then m f t))"
    using s t R' f by (cases r) (auto simp: and_then_def same_run_def)
qed

lemma same_run_attempt: "same_run R m \<Longrightarrow> same_run R (attempt m)"
  unfolding same_run_def attempt_def
  by (intro allI impI, elim allE, erule (1) impE) (auto split: prod.splits outcome.splits)

lemmas same_run_basic = same_run_pure same_run_and_then same_run_attempt

section \<open>Operations of a contract that calls no other\<close>

text \<open>
  What a relation between two machines has to respect so that an operation on the one is matched on
  the other. The databases behind the stores are seen through reads of namespaced keys only.
\<close>

locale vm_pair =
  fixes R :: "'i vm \<Rightarrow> 'i vm \<Rightarrow> bool"
  assumes pair_fields: "R s t \<Longrightarrow> vm_instance t = vm_instance s \<and> vm_transaction t = vm_transaction s \<and>
      vm_gas t = vm_gas s \<and> vm_env t = vm_env s"
    and pair_instance: "R s t \<Longrightarrow> R (s\<lparr>vm_instance := i\<rparr>) (t\<lparr>vm_instance := i\<rparr>)"
    and pair_gas: "R s t \<Longrightarrow> R (s\<lparr>vm_gas := g\<rparr>) (t\<lparr>vm_gas := g\<rparr>)"
    and pair_get_memory: "R s t \<Longrightarrow> memory_get (vm_memory t) (vm_namespaced_key t k) =
      memory_get (vm_memory s) (vm_namespaced_key s k)"
    and pair_get_storage: "R s t \<Longrightarrow> storage_get (vm_storage t) (vm_namespaced_key t k) =
      storage_get (vm_storage s) (vm_namespaced_key s k)"
    and pair_set_memory: "R s t \<Longrightarrow>
      R (s\<lparr>vm_memory := memory_set (vm_namespaced_key s k) v (vm_memory s)\<rparr>)
        (t\<lparr>vm_memory := memory_set (vm_namespaced_key t k) v (vm_memory t)\<rparr>)"
    and pair_set_storage: "R s t \<Longrightarrow>
      R (s\<lparr>vm_storage := storage_set (vm_namespaced_key s k) v (vm_storage s)\<rparr>)
        (t\<lparr>vm_storage := storage_set (vm_namespaced_key t k) v (vm_storage t)\<rparr>)"
    and pair_commit: "R s t \<Longrightarrow> R (commit_both s) (commit_both t)"
    and pair_rollback: "R s t \<Longrightarrow> R (rollback_both s) (rollback_both t)"
begin

lemma pair_view:
  "same_run R (gets vm_instance)" "same_run R (gets (\<lambda>vm. start_export P (vm_instance vm) func args))"
  "same_run R (gets (\<lambda>vm. block_number (vm_env vm)))" "same_run R (gets (\<lambda>vm. (x, vm_gas vm)))"
  "same_run R (gets vm_contract_address)" "same_run R (gets vm_sender)" "same_run R (gets vm_block_hash)"
  "same_run R (gets vm_block_winner)" "same_run R (gets vm_caller)"
  by (rule same_run_gets; simp add: pair_fields vm_contract_address_def vm_sender_def
      vm_block_hash_def vm_block_winner_def vm_caller_def)+

lemma pair_modify:
  "same_run R (modify (\<lambda>vm. vm\<lparr>vm_instance := i\<rparr>))"
  "same_run R (modify (\<lambda>vm. vm\<lparr>vm_memory := memory_set (vm_namespaced_key vm k) v (vm_memory vm)\<rparr>))"
  "same_run R (modify (\<lambda>vm. vm\<lparr>vm_storage := storage_set (vm_namespaced_key vm k) v (vm_storage vm)\<rparr>))"
  "same_run R (modify commit_both)" "same_run R (modify rollback_both)"
  by (rule same_run_modify; erule pair_instance pair_set_memory pair_set_storage pair_commit
      pair_rollback)+

lemma pair_use_gas: "same_run R (use_gas n)"
proof (rule same_runI)
  fix s t assume R: "R s t"
  then show "fst (use_gas n s) = fst (use_gas n t) \<and> R (snd (use_gas n s)) (snd (use_gas n t))"
    using pair_fields [OF R] by (auto simp: use_gas_def intro: pair_gas split: option.split)
qed

lemma pair_read_memory: "same_run R (read_memory P ptr len)"
  unfolding read_memory_def
  by (intro same_run_basic pair_view) (auto split: option.split extern_val.split intro: same_run_basic)

lemma pair_write_memory: "same_run R (write_memory P ptr v)"
  unfolding write_memory_def
  by (intro same_run_basic pair_view)
     (auto split: option.split extern_val.split intro!: same_run_basic pair_modify)

lemma pair_read_pointer: "same_run R (read_pointer P ptr)"
  unfolding read_pointer_def read_i32_def
  by (auto intro!: same_run_basic pair_read_memory)

lemma pair_getters: "same_run R (get_memory P ptr)" "same_run R (get_storage P ptr)"
  unfolding get_memory_def get_storage_def
  by (intro same_run_basic pair_read_pointer pair_use_gas same_run_gets
      pair_get_memory [symmetric] pair_get_storage [symmetric]; assumption)+

lemma pair_setters: "same_run R (set_memory P a b)" "same_run R (set_storage P a b)"
  unfolding set_memory_def set_storage_def
  by (intro same_run_basic pair_read_pointer pair_use_gas pair_modify)+

lemma pair_write_pointer:
  assumes "\<And>f args. same_run R (invoke f args)"
  shows "same_run R (write_pointer P invoke v)"
  unfolding write_pointer_def malloc_def Let_def
  by (intro same_run_basic pair_write_memory assms)
     (auto split: sum.split option.split runtime_value.split intro: same_run_basic)

lemma pair_push_arguments:
  assumes "\<And>f args. same_run R (invoke f args)"
  shows "same_run R (push_arguments P invoke args acc)"
proof (induction args arbitrary: acc)
  case (Cons arg args)
  show ?case
    unfolding push_arguments.simps
    by (intro same_run_basic pair_write_pointer assms)
       (auto split: sum.split option.split intro!: same_run_basic Cons.IH)
qed (simp add: same_run_basic)

lemma pair_invoke_index:
  assumes "\<And>f args. same_run R (invoke f args)" and "index \<noteq> CALL_FUNC_INDEX"
  shows "same_run R (invoke_index P invoke index args)"
  using assms(2)
  unfolding invoke_index_def vm_block_number_def log_message_def
  by (auto intro!: same_run_basic pair_view pair_getters pair_setters pair_read_pointer
      pair_write_pointer assms(1))

lemma pair_run_wasm:
  assumes host: "\<And>index args. index \<noteq> CALL_FUNC_INDEX \<Longrightarrow> same_run R (host index args)"
    and leaf: "never_calls P"
  shows "same_run R (run_wasm P host fuel act)"
proof (induction fuel arbitrary: act)
  case (Suc fuel)
  show ?case
  proof (rule same_runI)
    fix s t assume R: "R s t"
    obtain ev inst where st: "wasm_step P act (vm_instance s) = (ev, inst)" by force
    define rest :: "('i vm, wasm_error, runtime_value option) rust" where "rest =
      (case ev of Finished v \<Rightarrow> ret v | Trapped t \<Rightarrow> throw (ErrTrap t) | Errored e \<Rightarrow> throw (ErrOther e)
       | Meter act' \<Rightarrow> and_then (attempt charge_instruction) (\<lambda>r.
           case r of Inl t \<Rightarrow> throw (ErrTrap t) | Inr _ \<Rightarrow> run_wasm P host fuel act')
       | CallHost index args k \<Rightarrow> and_then (attempt (host index args)) (\<lambda>r.
           case r of Inl t \<Rightarrow> throw (ErrTrap t) | Inr v \<Rightarrow> run_wasm P host fuel (k v)))"
    have "ev = CallHost index args k \<Longrightarrow> index \<noteq> CALL_FUNC_INDEX" for index args k
      using leaf st unfolding never_calls_def by blast
    then have "same_run R rest"
      unfolding rest_def charge_instruction_def
      by (cases ev) (auto split: sum.split intro!: same_run_basic Suc.IH host pair_use_gas)
    moreover have "R (s\<lparr>vm_instance := inst\<rparr>) (t\<lparr>vm_instance := inst\<rparr>)" using R by (rule pair_instance)
    moreover have "wasm_step P act (vm_instance t) = (ev, inst)" using st pair_fields [OF R] by simp
    ultimately show "fst (run_wasm P host (Suc fuel) act s) = fst (run_wasm P host (Suc fuel) act t) \<and>
        R (snd (run_wasm P host (Suc fuel) act s)) (snd (run_wasm P host (Suc fuel) act t))"
      using st by (simp add: run_wasm_step rest_def [symmetric] same_run_def)
  qed
qed (simp add: same_run_def)

lemma pair_invoke_export:
  assumes "never_calls P"
  shows "same_run R (invoke_export P fuel func args)"
proof (induction fuel arbitrary: func args)
  case (Suc fuel)
  show ?case
    unfolding invoke_export.simps
    by (intro same_run_basic pair_view)
       (auto split: sum.split intro!: same_run_basic pair_run_wasm pair_invoke_index Suc.IH assms)
qed (simp add: same_run_def)

lemma pair_call:
  assumes "never_calls P"
  shows "same_run R (call P (invoke_export P fuel) f args)"
  unfolding call_def finish_call_def
  by (intro same_run_basic pair_push_arguments pair_invoke_export assms)
     (auto split: sum.split option.split runtime_value.split wasm_error.split
        intro!: same_run_basic pair_view pair_modify pair_read_pointer pair_invoke_export assms)

end

section \<open>Machines that look alike to one contract\<close>

text \<open>
  Two machines that differ in their stores only, whose stores show the same in the namespace of \<open>a\<close>
  and hold the same pending writes, all of them there; what was committed since the start, on top of
  the given changesets, is the same too.
\<close>

definition grown :: "bytes \<Rightarrow> changeset \<Rightarrow> changeset \<Rightarrow> changeset \<Rightarrow> changeset \<Rightarrow> bool" where
  "grown a c c' d d' \<longleftrightarrow> (\<exists>w. d = c ++ w \<and> d' = c' ++ w \<and> (\<forall>k \<in> dom w. in_namespace a k))"

definition alike :: "bytes \<Rightarrow> changeset \<Rightarrow> changeset \<Rightarrow> changeset \<Rightarrow> changeset \<Rightarrow> 'i vm \<Rightarrow> 'i vm \<Rightarrow> bool"
  where
  "alike a cm cm' cs cs' s t \<longleftrightarrow>
     vm_instance t = vm_instance s \<and> vm_transaction t = vm_transaction s \<and> vm_gas t = vm_gas s \<and>
     vm_env t = vm_env s \<and> contract_address (vm_transaction s) = a \<and>
     mem_working_changeset (vm_memory t) = mem_working_changeset (vm_memory s) \<and>
     sto_working_changeset (vm_storage t) = sto_working_changeset (vm_storage s) \<and>
     (\<forall>k \<in> dom (mem_working_changeset (vm_memory s)). in_namespace a k) \<and>
     (\<forall>k \<in> dom (sto_working_changeset (vm_storage s)). in_namespace a k) \<and>
     (\<forall>k. in_namespace a k \<longrightarrow> memory_get (vm_memory t) k = memory_get (vm_memory s) k \<and>
        storage_get (vm_storage t) k = storage_get (vm_storage s) k) \<and>
     grown a cm cm' (mem_changeset (vm_memory s)) (mem_changeset (vm_memory t)) \<and>
     grown a cs cs' (sto_changeset (vm_storage s)) (sto_changeset (vm_storage t))"

text \<open>What a read shows after an operation, by what it showed before.\<close>

lemma memory_get_ops:
  "memory_get (memory_set k' v m) k = memory_get m k"
  "memory_get (memory_rollback m) k = memory_get m k"
  "memory_get (memory_commit m) k = panic_bind (memory_get m k) (\<lambda>old.
     Inr (case mem_working_changeset m k of Some v \<Rightarrow> v | None \<Rightarrow> old))"
  using get_from_memory_cong [of "memory_set k' v m" m]
    get_from_memory_cong [of "memory_rollback m" m] get_from_memory_cong [of "memory_commit m" m]
  by (auto simp: memory_get_def mem.store_laws map_add_def panic_bind_def split: sum.split option.split)

lemma storage_get_ops:
  "storage_get (storage_set k' v m) k = storage_get m k"
  "storage_get (storage_rollback m) k = storage_get m k"
  "storage_get (storage_commit m) k = panic_bind (storage_get m k) (\<lambda>old.
     Inr (case sto_working_changeset m k of Some v \<Rightarrow> v | None \<Rightarrow> old))"
  using get_from_storage_cong [of "storage_set k' v m" m]
    get_from_storage_cong [of "storage_rollback m" m] get_from_storage_cong [of "storage_commit m" m]
  by (auto simp: storage_get_def sto.store_laws map_add_def panic_bind_def split: sum.split option.split)

lemma grown_commit:
  "grown a c c' d d' \<Longrightarrow> \<forall>k \<in> dom w. in_namespace a k \<Longrightarrow> grown a c c' (d ++ w) (d' ++ w)"
  unfolding grown_def by (metis dom_map_add map_add_assoc UnE)

lemma alike_commit: "alike a cm cm' cs cs' s t \<Longrightarrow> alike a cm cm' cs cs' (commit_both s) (commit_both t)"
  by (simp add: alike_def commit_both_def mem.store_laws sto.store_laws memory_get_ops storage_get_ops
      grown_commit)

lemma alike_rollback:
  "alike a cm cm' cs cs' s t \<Longrightarrow> alike a cm cm' cs cs' (rollback_both s) (rollback_both t)"
  by (simp add: alike_def rollback_both_def mem.store_laws sto.store_laws memory_get_ops storage_get_ops)

lemma alike_set:
  assumes "alike a cm cm' cs cs' s t"
  shows "alike a cm cm' cs cs'
      (s\<lparr>vm_memory := memory_set (vm_namespaced_key s k) v (vm_memory s)\<rparr>)
      (t\<lparr>vm_memory := memory_set (vm_namespaced_key t k) v (vm_memory t)\<rparr>)"
    and "alike a cm cm' cs cs'
      (s\<lparr>vm_storage := storage_set (vm_namespaced_key s k) v (vm_storage s)\<rparr>)
      (t\<lparr>vm_storage := storage_set (vm_namespaced_key t k) v (vm_storage t)\<rparr>)"
  using assms by (simp_all add: alike_def vm_contract_address_def mem.store_laws sto.store_laws
      memory_get_ops storage_get_ops in_namespace_namespaced_key)

interpretation alike: vm_pair "alike a cm cm' cs cs'"
  by unfold_locales
    (simp_all add: alike_commit alike_rollback alike_set, (simp_all add: alike_def vm_contract_address_def
      in_namespace_namespaced_key))

section \<open>Transactions\<close>

text \<open>The stores show the same in the namespace of an address.\<close>

definition agree_in :: "bytes \<Rightarrow> memory \<Rightarrow> storage \<Rightarrow> memory \<Rightarrow> storage \<Rightarrow> bool" where
  "agree_in a m st m' st' \<longleftrightarrow> (\<forall>k. in_namespace a k \<longrightarrow>
     memory_get m' k = memory_get m k \<and> storage_get st' k = storage_get st k)"

lemma alike_start:
  assumes "agree_in (contract_address tx) (memory_new r cm) (storage_new r db cs)
      (memory_new r' cm') (storage_new r' db' cs')"
  shows "alike (contract_address tx) cm cm' cs cs'
    (transaction_vm inst tx (memory_new r cm) (storage_new r db cs) env)
    (transaction_vm inst tx (memory_new r' cm') (storage_new r' db' cs') env)"
proof -
  have "grown a c c' c c'" for a c c'
    unfolding grown_def by (intro exI [of _ Map.empty]) simp
  then show ?thesis using assms by (simp add: alike_def agree_in_def transaction_vm_def)
qed

definition matches ::
  "bytes \<Rightarrow> changeset \<Rightarrow> changeset \<Rightarrow> changeset \<Rightarrow> changeset \<Rightarrow> (trap_kind, run_result) outcome \<Rightarrow>
     (trap_kind, run_result) outcome \<Rightarrow> bool" where
  "matches a cm cm' cs cs' o1 o2 \<longleftrightarrow>
     (case o1 of
        Ok (mc, sc, res, gas) \<Rightarrow>
          (\<exists>wm ws. mc = cm ++ wm \<and> sc = cs ++ ws \<and> o2 = Ok (cm' ++ wm, cs' ++ ws, res, gas) \<and>
             (\<forall>k \<in> dom wm \<union> dom ws. in_namespace a k))
      | _ \<Rightarrow> o2 = o1)"

lemma matches_outcome:
  assumes "alike a cm cm' cs cs' s t"
  shows "matches a cm cm' cs cs' (call_outcome (r, s)) (call_outcome (r, t))"
proof (cases r)
  case (Ok x)
  from assms obtain wm ws where
      "mem_changeset (vm_memory s) = cm ++ wm" "mem_changeset (vm_memory t) = cm' ++ wm"
      "sto_changeset (vm_storage s) = cs ++ ws" "sto_changeset (vm_storage t) = cs' ++ ws"
      "\<forall>k \<in> dom wm \<union> dom ws. in_namespace a k"
    unfolding alike_def grown_def by blast
  with Ok show ?thesis
    by (cases x) (auto simp: matches_def call_outcome_def)
qed (simp_all add: matches_def call_outcome_def)

lemma never_calls_matches:
  assumes leaf: "never_calls P"
    and agree: "agree_in (contract_address tx) (memory_new r cm) (storage_new r db cs)
      (memory_new r' cm') (storage_new r' db' cs')"
  shows "matches (contract_address tx) cm cm' cs cs'
    (transaction_run P fuel tx (memory_new r cm) (storage_new r db cs) env)
    (transaction_run P fuel tx (memory_new r' cm') (storage_new r' db' cs') env)"
proof -
  let ?a = "contract_address tx"
  let ?s = "\<lambda>inst. transaction_vm inst tx (memory_new r cm) (storage_new r db cs) env"
  let ?t = "\<lambda>inst. transaction_vm inst tx (memory_new r' cm') (storage_new r' db' cs') env"
  have code: "storage_get (storage_new r' db' cs') (right_pad_vec ?a 64 0) =
      storage_get (storage_new r db cs) (right_pad_vec ?a 64 0)"
    using agree in_namespace_namespaced_key [of ?a "[]"] by (simp add: agree_in_def namespaced_key_def)
  have "matches ?a cm cm' cs cs'
      (call_outcome (call P (invoke_export P fuel) (function_name tx) (arguments tx) (?s inst)))
      (call_outcome (call P (invoke_export P fuel) (function_name tx) (arguments tx) (?t inst)))" for inst
  proof -
    obtain q s2 where s2: "call P (invoke_export P fuel) (function_name tx) (arguments tx) (?s inst) = (q, s2)"
      by force
    obtain t2 where "call P (invoke_export P fuel) (function_name tx) (arguments tx) (?t inst) = (q, t2)"
      "alike ?a cm cm' cs cs' s2 t2"
      using alike.pair_call [OF leaf] alike_start [OF agree] s2 by (rule same_runD)
    with s2 show ?thesis by (simp add: matches_outcome)
  qed
  moreover have "matches ?a cm cm' cs cs' (Ok (cm, cs, res, gas)) (Ok (cm', cs', res, gas))" for res gas
    by (simp add: matches_def) (rule exI [of _ Map.empty], simp, rule exI [of _ Map.empty], simp)
  moreover have "matches ?a cm cm' cs cs' (Panic p) (Panic p)" "matches ?a cm cm' cs cs' Timeout Timeout" for p
    by (simp_all add: matches_def)
  ultimately show ?thesis
    unfolding transaction_run_def code by (auto split: sum.split outcome.split)
qed

text \<open>The stores load the same code, and a transaction that calls no other contract in the one does so in the other.\<close>

lemma agree_in_loads:
  assumes "agree_in a m st m' st'"
  shows "loads P st' a inst = loads P st a inst"
proof -
  have "storage_get st' (right_pad_vec a 64 0) = storage_get st (right_pad_vec a 64 0)"
    using assms in_namespace_namespaced_key [of a "[]"] by (simp add: agree_in_def namespaced_key_def)
  then show ?thesis unfolding loads_def by simp
qed

lemma agree_in_leaf:
  assumes "agree_in (contract_address tx) m st m' st'" and "leaf_transaction P st tx"
  shows "leaf_transaction P st' tx"
  using assms(2) unfolding leaf_transaction_def agree_in_loads [OF assms(1)] .

lemma leaf_transaction_matches:
  assumes leaf: "leaf_transaction P (storage_new r db cs) tx"
    and agree: "agree_in (contract_address tx) (memory_new r cm) (storage_new r db cs)
      (memory_new r' cm') (storage_new r' db' cs')"
  shows "matches (contract_address tx) cm cm' cs cs'
    (transaction_run P fuel tx (memory_new r cm) (storage_new r db cs) env)
    (transaction_run P fuel tx (memory_new r' cm') (storage_new r' db' cs') env)"
  using never_calls_matches [OF without_calls_never agree, of P fuel env]
  unfolding leaf_transaction_run [OF leaf] leaf_transaction_run [OF agree_in_leaf [OF agree leaf]] .

text \<open>Disjoint namespaces: addresses of at most 64 bytes that are not padded to the same one.\<close>

definition apart :: "bytes \<Rightarrow> bytes \<Rightarrow> bool" where
  "apart a b \<longleftrightarrow> length a \<le> 64 \<and> length b \<le> 64 \<and> right_pad_vec a 64 0 \<noteq> right_pad_vec b 64 0"

lemma apart_disjoint: "apart a b \<Longrightarrow> in_namespace a k \<Longrightarrow> \<not> in_namespace b k"
  by (simp add: apart_def in_namespace_def max.absorb1)

lemma apart_sym: "apart a b \<Longrightarrow> apart b a"
  by (auto simp: apart_def)

lemma agree_in_grown:
  assumes "\<forall>k \<in> dom wm \<union> dom ws. \<not> in_namespace a k"
  shows "agree_in a (memory_new r cm) (storage_new r db cs)
    (memory_new r (cm ++ wm)) (storage_new r db (cs ++ ws))"
proof -
  have "(cm ++ wm) k = cm k \<and> (cs ++ ws) k = cs k" if "in_namespace a k" for k
    using assms that by (auto simp: map_add_def domIff split: option.split)
  then show ?thesis
    using get_from_memory_cong [of "memory_new r (cm ++ wm)" "memory_new r cm"]
      get_from_storage_cong [of "storage_new r db (cs ++ ws)" "storage_new r db cs"]
    by (simp add: agree_in_def memory_get_def storage_get_def mem.cached sto.cached)
qed

lemma agree_in_sym: "agree_in a m st m' st' \<Longrightarrow> agree_in a m' st' m st"
  by (simp add: agree_in_def)

text \<open>A completed run grows the changesets by writes of its own, which it makes wherever it may.\<close>

lemma leaf_run_moves:
  assumes "leaf_transaction P (storage_new r db cs) tx"
    and "transaction_run P fuel tx (memory_new r cm) (storage_new r db cs) env = Ok (mc, sc, res, gas)"
    and "agree_in (contract_address tx) (memory_new r cm) (storage_new r db cs)
      (memory_new r' cm') (storage_new r' db' cs')"
  obtains wm ws where "mc = cm ++ wm" "sc = cs ++ ws"
    "\<forall>k \<in> dom wm \<union> dom ws. in_namespace (contract_address tx) k"
    "transaction_run P fuel tx (memory_new r' cm') (storage_new r' db' cs') env =
      Ok (cm' ++ wm, cs' ++ ws, res, gas)"
  using leaf_transaction_matches [OF assms(1,3), of fuel env] assms(2)
  by (auto simp: matches_def)

lemma leaf_runs_commute:
  assumes leaf: "leaf_transaction P (storage_new r db cs) tx1" "leaf_transaction P (storage_new r db cs) tx2"
    and apart: "apart (contract_address tx1) (contract_address tx2)"
    and run1: "transaction_run P fuel1 tx1 (memory_new r cm) (storage_new r db cs) env1 =
      Ok (cm1, cs1, res1, gas1)"
    and run2: "transaction_run P fuel2 tx2 (memory_new r cm1) (storage_new r db cs1) env2 =
      Ok (cm2, cs2, res2, gas2)"
  obtains cm' cs' where
    "transaction_run P fuel2 tx2 (memory_new r cm) (storage_new r db cs) env2 =
      Ok (cm', cs', res2, gas2)"
    "transaction_run P fuel1 tx1 (memory_new r cm') (storage_new r db cs') env1 =
      Ok (cm2, cs2, res1, gas1)"
proof -
  let ?a = "contract_address tx1" and ?b = "contract_address tx2"
  have "agree_in ?a (memory_new r cm) (storage_new r db cs) (memory_new r cm) (storage_new r db cs)"
    by (simp add: agree_in_def)
  from leaf_run_moves [OF leaf(1) run1 this] obtain wm1 ws1 where
      w1: "cm1 = cm ++ wm1" "cs1 = cs ++ ws1" "\<forall>k \<in> dom wm1 \<union> dom ws1. in_namespace ?a k" by blast
  then have "\<forall>k \<in> dom wm1 \<union> dom ws1. \<not> in_namespace ?b k"
    using apart by (auto dest: apart_disjoint)
  then have grown: "agree_in ?b (memory_new r cm) (storage_new r db cs) (memory_new r cm1) (storage_new r db cs1)"
    unfolding w1(1,2) by (rule agree_in_grown)
  from leaf_run_moves [OF agree_in_leaf [OF grown leaf(2)] run2 agree_in_sym [OF grown]] obtain wm2 ws2 where
      w2: "cm2 = cm1 ++ wm2" "cs2 = cs1 ++ ws2" "\<forall>k \<in> dom wm2 \<union> dom ws2. in_namespace ?b k"
    and second: "transaction_run P fuel2 tx2 (memory_new r cm) (storage_new r db cs) env2 =
      Ok (cm ++ wm2, cs ++ ws2, res2, gas2)" by blast
  from w2(3) have "\<forall>k \<in> dom wm2 \<union> dom ws2. \<not> in_namespace ?a k"
    using apart by (auto dest: apart_disjoint)
  then have "agree_in ?a (memory_new r cm) (storage_new r db cs)
      (memory_new r (cm ++ wm2)) (storage_new r db (cs ++ ws2))"
    by (rule agree_in_grown)
  from leaf_run_moves [OF leaf(1) run1 this] obtain wm ws where
      w: "cm1 = cm ++ wm" "cs1 = cs ++ ws" "\<forall>k \<in> dom wm \<union> dom ws. in_namespace ?a k"
    and first: "transaction_run P fuel1 tx1 (memory_new r (cm ++ wm2)) (storage_new r db (cs ++ ws2)) env1 =
      Ok (cm ++ wm2 ++ wm, cs ++ ws2 ++ ws, res1, gas1)" by blast
  have "dom wm \<inter> dom wm2 = {}" "dom ws \<inter> dom ws2 = {}"
    using w(3) w2(3) apart_disjoint [OF apart] by blast+
  then have "cm ++ wm2 ++ wm = cm2" "cs ++ ws2 ++ ws = cs2"
    unfolding w2(1,2) w(1,2) by (simp_all only: map_add_assoc [symmetric] map_add_comm)
  with second first show thesis by (intro that) simp_all
qed

end
