(* ===== verification/Vm_Properties.thy ===== *)
theory Vm_Properties
  imports Vm_Calls Vm_Locality
begin

text \<open>
  The properties of the virtual machine: termination of metered runs, gas, atomicity and its
  limits, the isolation of contracts from one another, the host functions and their types, and the
  memory format of the calling convention.
\<close>

section \<open>Termination and gas\<close>




text \<open>
  C2: gas is never created. A run never ends with an error of its own, and when it completes, the
  gas it reports is a number between zero and the low 32 bits of the transaction's gas limit,
  nested calls of other contracts included.
\<close>

theorem transaction_gas_bounded:
  "(case transaction_run P fuel tx memory storage env of
      Ok (mc, sc, res, gas) \<Rightarrow> (\<exists>g. gas = Some g \<and> g \<le> ucast (gas_limit tx))
    | Err e \<Rightarrow> False
    | _ \<Rightarrow> True)"
proof (cases rule: transaction_run_cases [of P fuel tx memory storage env])
  case (runs inst)
  obtain r vm' where c: "call P (invoke_export P fuel) (function_name tx) (arguments tx)
      (transaction_vm inst tx memory storage env) = (r, vm')" by force
  have "gas_le (transaction_vm inst tx memory storage env) vm'"
    using gas.keeps_call [OF gas.keeps_invoke_export] c by (rule keepsD)
  then have g: "\<exists>g. vm_gas vm' = Some g \<and> g \<le> ucast (gas_limit tx)"
    by (auto dest: gas_le_SomeD)
  show ?thesis
  proof (cases r)
    case (Ok a)
    with c g show ?thesis
      by (cases a) (use call_reports_gas [of P "invoke_export P fuel"] in
            \<open>auto simp: runs call_outcome_def reports_gas_def\<close>)
  next
    case (Err e)
    with c show ?thesis by (metis call_not_Err fst_conv)
  qed (simp_all add: runs c call_outcome_def)
qed simp_all

section \<open>All or nothing\<close>

text \<open>
  C3: a transaction whose function calls no other contract is atomic and stays in its own namespace,
  whatever the other contracts (and the other functions of its own) do. When it completes, either its
  function returned (\<open>completes_with\<close>), and each changeset is extended by everything the function had
  written, whose keys all start with the contract's padded address; or it did not (there was no code,
  the arguments could not be copied, or the function trapped), and no changeset is touched.
\<close>

theorem leaf_transaction_atomic:
  assumes "\<And>inst. loads P (storage_new r db cs) (contract_address tx) inst \<Longrightarrow>
      calls_no_other P inst (function_name tx)"
    and "transaction_run P fuel tx (memory_new r cm) (storage_new r db cs) env =
      Ok (mc, sc, res, gas)"
  shows "(\<exists>wm ws. completes_with P fuel tx (memory_new r cm) (storage_new r db cs) env wm ws \<and>
       mc = cm ++ wm \<and> sc = cs ++ ws \<and>
       (\<forall>k \<in> dom wm \<union> dom ws. in_namespace (contract_address tx) k)) \<or>
    ((\<nexists>wm ws. completes_with P fuel tx (memory_new r cm) (storage_new r db cs) env wm ws) \<and>
       mc = cm \<and> sc = cs)"
proof -
  have "leaf_transaction P (storage_new r db cs) tx" using assms(1) by (simp add: leaf_transaction_def)
  then show ?thesis using assms(2) by (cases rule: leaf_transaction_changesets) blast+
qed

text \<open>The function \<open>set\<close> of a contract that has others which call.\<close>

theorem leaf_transaction_atomic_witness:
  "\<exists>mc wm ws. demo_run Release Trap 50 ''set'' 100000 = Ok (mc, demo_code, (0, Null), Some 94998) \<and>
     completes_with (demo_platform Release (demo_modules Trap)) 50 (demo_tx [1] ''set'' 100000)
       (memory_new demo_redis Map.empty) (storage_new demo_redis (\<lambda>_. Inr None) demo_code) demo_env wm ws \<and>
     mc = Map.empty ++ wm \<and> mc (namespaced_key [1] [2]) = Some [2]"
proof -
  have ne: "[namespaced_key [1] [2] \<mapsto> [2]] \<noteq> (Map.empty :: changeset)"
    by (simp add: fun_eq_iff)
  have leaf: "calls_no_other (demo_platform Release (demo_modules Trap)) inst
      (function_name (demo_tx [1] ''set'' 100000))"
    if "loads (demo_platform Release (demo_modules Trap)) (storage_new demo_redis (\<lambda>_. Inr None) demo_code)
      (contract_address (demo_tx [1] ''set'' 100000)) inst" for inst
    using that demo_leaf_transaction [OF demo_storage_code, of Release Trap 100000]
    unfolding leaf_transaction_def by blast
  from leaf_transaction_atomic [OF leaf run_set [of Trap, unfolded demo_run_def]] ne
  obtain wm ws where
    ended: "completes_with (demo_platform Release (demo_modules Trap)) 50 (demo_tx [1] ''set'' 100000)
       (memory_new demo_redis Map.empty) (storage_new demo_redis (\<lambda>_. Inr None) demo_code) demo_env wm ws"
    and wm: "[namespaced_key [1] [2] \<mapsto> [2]] = Map.empty ++ wm"
    by blast
  show ?thesis
  proof (intro exI conjI)
    show "demo_run Release Trap 50 ''set'' 100000 =
        Ok ([namespaced_key [1] [2] \<mapsto> [2]], demo_code, (0, Null), Some 94998)" by (rule run_set)
  qed (rule ended, rule wm, simp)
qed

text \<open>
  C4: an external call leaves nothing of its caller pending. The callee runs on the stores of the
  caller with what the caller has written so far, and when it is done they are committed if it
  returned and rolled back if it trapped: the caller's own writes are in the changesets for good or
  are gone, whatever it does afterwards. Only if there is no contract at the address, or the
  arguments cannot be copied to the callee, are they left as they are.
\<close>

theorem external_call_settles_writes:
  assumes "vm_gas vm = Some g"
    and "external_call P (invoke_export P fuel) a b c vm = (Ok bs, vm')"
  shows "\<exists>address fname args code. call_request P a b c vm address fname args code \<and>
    (if code = [] then vm' = vm
     else \<exists>inst. new_module_instance P code = Ok inst \<and>
       ((\<exists>res inner. push_arguments P (invoke_export P fuel) args []
            (nested_vm inst address fname vm) = (Ok (Inl res), inner) \<and>
          vm_memory vm' = vm_memory inner \<and> vm_storage vm' = vm_storage inner) \<or>
        (\<exists>vals vm1 r vm2. push_arguments P (invoke_export P fuel) args []
            (nested_vm inst address fname vm) = (Ok (Inr vals), vm1) \<and>
          invoke_export P fuel fname vals vm1 = (r, vm2) \<and>
          (case r of
             Ok v \<Rightarrow> vm_memory vm' = memory_commit (vm_memory vm2) \<and>
               vm_storage vm' = storage_commit (vm_storage vm2)
           | Err e \<Rightarrow> vm_memory vm' = memory_rollback (vm_memory vm2) \<and>
               vm_storage vm' = storage_rollback (vm_storage vm2)
           | _ \<Rightarrow> False))))"
proof -
  obtain address fname args code where request: "call_request P a b c vm address fname args code"
    and outcome: "if code = [] then vm' = vm else \<exists>inst. new_module_instance P code = Ok inst \<and>
        nested_call P (invoke_export P fuel) inst address fname args vm bs vm'"
    using yields_external_call [OF assms(1), where P = P and fuel = fuel and a = a and b = b and c = c] assms(2)
    by (auto split: if_splits)
  show ?thesis
  proof (cases "code = []")
    case False
    with outcome obtain inst res inner where
      inst: "new_module_instance P code = Ok inst" and
      call: "call P (invoke_export P fuel) fname args (nested_vm inst address fname vm) =
        (Ok (res, vm_gas inner), inner)" and
      vm': "vm_memory vm' = vm_memory inner" "vm_storage vm' = vm_storage inner"
      by (auto simp: nested_call_def)
    note settled = call_settles [OF call]
    show ?thesis
      using request inst False settled
      by (intro exI [of _ address] exI [of _ fname] exI [of _ args] exI [of _ code])
         (fastforce simp: vm' commit_both_def rollback_both_def split: outcome.splits)
  qed (use request outcome in auto)
qed

theorem external_call_settles_writes_witness:
  "\<exists>bs vm'. external_call (demo_platform Release (demo_modules (Return ok_result)))
      (invoke_export (demo_platform Release (demo_modules (Return ok_result))) 50) 0 5 10
      demo_caller = (Ok bs, vm') \<and>
    (\<exists>address fname args code. call_request (demo_platform Release (demo_modules (Return ok_result)))
      0 5 10 demo_caller address fname args code)"
proof -
  obtain bs vm' where *: "external_call (demo_platform Release (demo_modules (Return ok_result)))
      (invoke_export (demo_platform Release (demo_modules (Return ok_result))) 50) 0 5 10
      demo_caller = (Ok bs, vm')"
    using demo_caller_calls by blast
  with external_call_settles_writes [OF demo_caller_gas *] show ?thesis by blast
qed

text \<open>
  So transactions with calls between contracts are not atomic. A transaction that traps after a
  successful call keeps what it wrote before the call although it is reported as trapped, and
  without the call it does not; a transaction whose callee traps loses what it wrote before,
  although it returns normally, and keeps it if the callee returns.
\<close>

lemma calls_break_atomicity:
  "demo_run Release (Return ok_result) 50 ''callfail'' 100000 =
     Ok ([namespaced_key [1] [2] \<mapsto> [2]], demo_code, wasm_trap (OtherTrap ''Stop''), Some 94995) \<and>
   demo_run Release (Return ok_result) 50 ''fail'' 100000 =
     Ok (Map.empty, demo_code, wasm_trap (OtherTrap ''Stop''), Some 94998) \<and>
   demo_run Release Trap 50 ''callok'' 100000 = Ok (Map.empty, demo_code, (0, Null), Some 94995) \<and>
   demo_run Release Trap 50 ''set'' 100000 =
     Ok ([namespaced_key [1] [2] \<mapsto> [2]], demo_code, (0, Null), Some 94998)"
  using run_callfail run_fail run_callok run_set by simp

section \<open>Reads and writes of contracts\<close>

text \<open>
  C5: both stores refine the abstract one. Whatever writes, commits and rollbacks a store has gone
  through, a read of a key first asks the database, panics with it, and otherwise returns what the
  abstract store shows: the last write that was committed before a rollback, or else what was there
  at the start. The writes that wait for their commit are not visible.
\<close>

theorem stores_refine:
  "memory_get (fold (store_apply memory_set memory_commit memory_rollback) ops m) k =
     panic_bind (get_from_memory m k) (\<lambda>stored. Inr
       (shown ops (case mem_changeset m k of Some v \<Rightarrow> v | None \<Rightarrow> stored)
         (mem_working_changeset m k) k)) \<and>
   storage_get (fold (store_apply storage_set storage_commit storage_rollback) ops st) k =
     panic_bind (get_from_storage st k) (\<lambda>stored. Inr
       (shown ops (case sto_changeset st k of Some v \<Rightarrow> v | None \<Rightarrow> stored)
         (sto_working_changeset st k) k))"
proof
  have "get_from_memory (mem.operate ops m) = get_from_memory m"
    by (rule get_from_memory_cong, rule mem.kept_by_operations) simp_all
  then show "memory_get (mem.operate ops m) k =
     panic_bind (get_from_memory m k) (\<lambda>stored. Inr
       (shown ops (case mem_changeset m k of Some v \<Rightarrow> v | None \<Rightarrow> stored)
         (mem_working_changeset m k) k))"
    by (simp add: memory_get_def mem.refines_shown) (simp add: mem.cached)
next
  have "get_from_storage (sto.operate ops st) = get_from_storage st"
    by (rule get_from_storage_cong; rule sto.kept_by_operations) simp_all
  then show "storage_get (sto.operate ops st) k =
     panic_bind (get_from_storage st k) (\<lambda>stored. Inr
       (shown ops (case sto_changeset st k of Some v \<Rightarrow> v | None \<Rightarrow> stored)
         (sto_working_changeset st k) k))"
    by (simp add: storage_get_def sto.refines_shown) (simp add: sto.cached)
qed

section \<open>Isolation of contracts\<close>

text \<open>
  Contracts with addresses of at most 64 bytes have separate storage: two namespaced keys are
  equal only if the padded addresses and the keys are. Addresses that differ only in trailing zero
  bytes are the same namespace.
\<close>

lemma namespaced_key_inject:
  assumes "length a \<le> 64" and "length b \<le> 64"
  shows "namespaced_key a k = namespaced_key b l \<longleftrightarrow>
    a @ replicate (64 - length a) 0 = b @ replicate (64 - length b) 0 \<and> k = l"
  using assms append_eq_append_conv
    [of "a @ replicate (64 - length a) 0" "b @ replicate (64 - length b) 0" k l]
  by (simp add: namespaced_key_def right_pad_vec_eq)

text \<open>
  C6: a transaction whose function calls no other contract is a function of what its namespace shows,
  whatever other contracts there are. On two pairs of stores, of whatever databases and changesets,
  that read the same in the namespace of its address, it ends in the same way: with the same panic,
  or with the same result, the same gas left and the same writes, which lie in the namespace again.
\<close>

theorem transaction_local:
  assumes "\<And>inst. loads P (storage_new r db cs) (contract_address tx) inst \<Longrightarrow>
      calls_no_other P inst (function_name tx)"
    and "\<forall>k. in_namespace (contract_address tx) k \<longrightarrow>
      memory_get (memory_new r' cm') k = memory_get (memory_new r cm) k \<and>
      storage_get (storage_new r' db' cs') k = storage_get (storage_new r db cs) k"
  shows "(case transaction_run P fuel tx (memory_new r cm) (storage_new r db cs) env of
      Ok (mc, sc, res, gas) \<Rightarrow>
        (\<exists>wm ws. mc = cm ++ wm \<and> sc = cs ++ ws \<and>
           (\<forall>k \<in> dom wm \<union> dom ws. in_namespace (contract_address tx) k) \<and>
           transaction_run P fuel tx (memory_new r' cm') (storage_new r' db' cs') env =
             Ok (cm' ++ wm, cs' ++ ws, res, gas))
    | e \<Rightarrow> transaction_run P fuel tx (memory_new r' cm') (storage_new r' db' cs') env = e)"
proof -
  have "agree_in (contract_address tx) (memory_new r cm) (storage_new r db cs)
      (memory_new r' cm') (storage_new r' db' cs')"
    using assms(2) by (simp add: agree_in_def)
  moreover have "leaf_transaction P (storage_new r db cs) tx"
    using assms(1) by (simp add: leaf_transaction_def)
  ultimately show ?thesis
    using leaf_transaction_matches [of P r db cs tx cm r' cm' db' cs' fuel env]
    unfolding matches_def
    by (cases "transaction_run P fuel tx (memory_new r cm) (storage_new r db cs) env") auto
qed

text \<open>The contract sees nothing of what others have committed.\<close>

theorem transaction_local_witness:
  "\<exists>sc. transaction_run (demo_platform Release (demo_modules Trap)) 50 (demo_tx [1] ''set'' 100000)
     (memory_new demo_redis [[9] \<mapsto> [9]]) (storage_new demo_redis (\<lambda>_. Inr None) (demo_code([9] \<mapsto> [9])))
     demo_env = Ok ([[9] \<mapsto> [9], namespaced_key [1] [2] \<mapsto> [2]], sc, (0, Null), Some 94998)"
proof -
  have "k \<noteq> [9]" if "in_namespace [1] k" for k
    using that by (auto simp: in_namespace_def right_pad_vec_eq)
  then have same: "\<forall>k. in_namespace (contract_address (demo_tx [1] ''set'' 100000)) k \<longrightarrow>
      memory_get (memory_new demo_redis [[9] \<mapsto> [9]]) k = memory_get (memory_new demo_redis Map.empty) k \<and>
      storage_get (storage_new demo_redis (\<lambda>_. Inr None) (demo_code([9] \<mapsto> [9]))) k =
        storage_get (storage_new demo_redis (\<lambda>_. Inr None) demo_code) k"
    by (auto simp: demo_tx_def memory_get_def storage_get_def memory_op_defs storage_op_defs
        get_from_memory_def get_from_storage_def memory_get_latest_def storage_get_latest_def)
  have leaf: "calls_no_other (demo_platform Release (demo_modules Trap)) inst
      (function_name (demo_tx [1] ''set'' 100000))"
    if "loads (demo_platform Release (demo_modules Trap)) (storage_new demo_redis (\<lambda>_. Inr None) demo_code)
      (contract_address (demo_tx [1] ''set'' 100000)) inst" for inst
    using that demo_leaf_transaction [OF demo_storage_code, of Release Trap 100000]
    unfolding leaf_transaction_def by blast
  from transaction_local [OF leaf same, of 50 demo_env] show ?thesis
    unfolding run_set [of Trap, unfolded demo_run_def] by auto
qed

text \<open>
  C7: transactions of different contracts whose functions call no others commute. If one runs and
  then the other on what it leaves, they can be swapped: each has the same result and the same gas
  left, and the changesets in the end are the same. Different means that the padded addresses differ;
  an address of more than 64 bytes can lie in the namespace of another contract.
\<close>

theorem independent_transactions_commute:
  assumes "\<And>tx inst. tx = tx1 \<or> tx = tx2 \<Longrightarrow> loads P (storage_new r db cs) (contract_address tx) inst \<Longrightarrow>
      calls_no_other P inst (function_name tx)"
    and "length (contract_address tx1) \<le> 64" and "length (contract_address tx2) \<le> 64"
    and "right_pad_vec (contract_address tx1) 64 0 \<noteq> right_pad_vec (contract_address tx2) 64 0"
    and "transaction_run P fuel1 tx1 (memory_new r cm) (storage_new r db cs) env1 =
      Ok (cm1, cs1, res1, gas1)"
    and "transaction_run P fuel2 tx2 (memory_new r cm1) (storage_new r db cs1) env2 =
      Ok (cm2, cs2, res2, gas2)"
  shows "\<exists>cm' cs'.
    transaction_run P fuel2 tx2 (memory_new r cm) (storage_new r db cs) env2 =
      Ok (cm', cs', res2, gas2) \<and>
    transaction_run P fuel1 tx1 (memory_new r cm') (storage_new r db cs') env1 =
      Ok (cm2, cs2, res1, gas1)"
proof -
  have "apart (contract_address tx1) (contract_address tx2)"
    using assms(2-4) by (simp add: apart_def)
  moreover have "leaf_transaction P (storage_new r db cs) tx1" "leaf_transaction P (storage_new r db cs) tx2"
    using assms(1) by (simp_all add: leaf_transaction_def)
  ultimately show ?thesis using leaf_runs_commute [OF _ _ _ assms(5,6)] by blast
qed

text \<open>The first contract of the witnesses, deployed at two addresses.\<close>

definition twice_code :: changeset where
  "twice_code = [right_pad_vec [1] 64 0 \<mapsto> [1], right_pad_vec [3] 64 0 \<mapsto> [1]]"

lemma twice_code_lookup:
  "twice_code (right_pad_vec [1] 64 0) = Some [1]" "twice_code (right_pad_vec [3] 64 0) = Some [1]"
  by (simp_all add: twice_code_def right_pad_vec_eq)

lemma run_twice:
  "\<exists>gas1. transaction_run (demo_platform Release (demo_modules Trap)) 50 (demo_tx [1] ''set'' 100000)
     (memory_new demo_redis Map.empty) (storage_new demo_redis (\<lambda>_. Inr None) twice_code) demo_env =
   Ok ([namespaced_key [1] [2] \<mapsto> [2]], twice_code, (0, Null), gas1)"
  "\<exists>gas2. transaction_run (demo_platform Release (demo_modules Trap)) 50 (demo_tx [3] ''set'' 100000)
     (memory_new demo_redis [namespaced_key [1] [2] \<mapsto> [2]])
     (storage_new demo_redis (\<lambda>_. Inr None) twice_code) demo_env =
   Ok ([namespaced_key [1] [2] \<mapsto> [2], namespaced_key [3] [2] \<mapsto> [2]], twice_code, (0, Null), gas2)"
  by (simp_all add: twice_code_lookup run_demo run_data run_applied)

theorem independent_transactions_commute_witness:
  "\<exists>cm' cs' gas gas'.
    transaction_run (demo_platform Release (demo_modules Trap)) 50 (demo_tx [3] ''set'' 100000)
      (memory_new demo_redis Map.empty) (storage_new demo_redis (\<lambda>_. Inr None) twice_code) demo_env =
      Ok (cm', cs', (0, Null), gas) \<and>
    transaction_run (demo_platform Release (demo_modules Trap)) 50 (demo_tx [1] ''set'' 100000)
      (memory_new demo_redis cm') (storage_new demo_redis (\<lambda>_. Inr None) cs') demo_env =
      Ok ([namespaced_key [1] [2] \<mapsto> [2], namespaced_key [3] [2] \<mapsto> [2]], twice_code, (0, Null), gas')"
proof -
  let ?P = "demo_platform Release (demo_modules Trap)"
  let ?st = "storage_new demo_redis (\<lambda>_. Inr None) twice_code"
  obtain gas1 gas2 where
    1: "transaction_run ?P 50 (demo_tx [1] ''set'' 100000)
      (memory_new demo_redis Map.empty) (storage_new demo_redis (\<lambda>_. Inr None) twice_code) demo_env =
      Ok ([namespaced_key [1] [2] \<mapsto> [2]], twice_code, (0, Null), gas1)" and
    2: "transaction_run ?P 50 (demo_tx [3] ''set'' 100000)
      (memory_new demo_redis [namespaced_key [1] [2] \<mapsto> [2]])
      (storage_new demo_redis (\<lambda>_. Inr None) twice_code) demo_env =
      Ok ([namespaced_key [1] [2] \<mapsto> [2], namespaced_key [3] [2] \<mapsto> [2]], twice_code, (0, Null), gas2)"
    using run_twice by blast
  have "storage_get ?st (right_pad_vec [1] 64 0) = Inr [1]" "storage_get ?st (right_pad_vec [3] 64 0) = Inr [1]"
    by (simp_all add: twice_code_lookup demo_storage_get)
  from this [THEN demo_leaf_transaction, of Release Trap 100000]
  have "calls_no_other ?P inst (function_name tx)"
    if "tx = demo_tx [1] ''set'' 100000 \<or> tx = demo_tx [3] ''set'' 100000"
      "loads ?P ?st (contract_address tx) inst" for tx inst
    using that unfolding leaf_transaction_def by blast
  from independent_transactions_commute [OF this _ _ _ 1 2] show ?thesis
    by (auto simp: demo_tx_def right_pad_vec_eq)
qed



section \<open>The price of bytes\<close>

text \<open>
  A byte price is the length times the price as long as the product is below \<open>2 ^ 32\<close>. Above,
  a debug build panics and a release build charges the product modulo \<open>2 ^ 32\<close>.
\<close>

lemma byte_cost_value:
  assumes "length v < 2 ^ 32"
  shows "byte_cost P v price =
    (if length v * unat price < 2 ^ 32 \<or> build P = Release
     then Inr (word_of_nat (length v * unat price))
     else Inl ''attempt to multiply with overflow'')"
proof -
  have len: "uint (word_of_nat (length v) :: u32) = int (length v)"
    using assms by (simp add: unsigned_of_nat take_bit_nat_eq_self)
  have "uint (word_of_nat (length v) :: u32) * uint price = int (length v * unat price)"
    unfolding len of_nat_mult by (simp only: uint_nat)
  then have "uint (word_of_nat (length v) :: u32) * uint price < 2 ^ 32 \<longleftrightarrow>
      length v * unat price < 2 ^ 32"
    by (metis of_nat_less_iff of_nat_numeral of_nat_power)
  then show ?thesis
    by (simp add: byte_cost_def mul_u32_def overflow_check_def)
qed

lemma byte_cost_wraps:
  "build P = Release \<Longrightarrow> byte_cost P (replicate 858994 0) SET_BYTE_MEMORY = Inr 2704"
  by (simp add: byte_cost_value SET_BYTE_MEMORY_def)

text \<open>A write that costs \<open>cost\<close>, a natural number, in the two builds.\<close>

definition priced ::
  "build_mode \<Rightarrow> nat \<Rightarrow> ('i vm \<Rightarrow> 'i vm) \<Rightarrow> ('i, runtime_value option) vm_op" where
  "priced mode cost write vm =
     (if mode = Debug \<and> 2 ^ 32 \<le> cost then (Panic ''attempt to multiply with overflow'', vm)
      else case vm_gas vm of
             None \<Rightarrow> (Ok None, write vm)
           | Some gas \<Rightarrow>
               if gas < word_of_nat cost then (Err OutOfGas, vm)
               else (Ok None, write (vm\<lparr>vm_gas := Some (gas - word_of_nat cost)\<rparr>)))"

text \<open>
  C9: what a write of a contract costs and does, on every branch. The cost is the length of the value
  times the price of the store; a debug build panics when it does not fit 32 bits, a release build
  charges what is left of it modulo \<open>2 ^ 32\<close>. Without the gas nothing happens; with it, the value is
  pending under the key in the contract's namespace.
\<close>

theorem writes_priced:
  assumes "fst (read_pointer P key_pointer vm) = Ok key"
    and "fst (read_pointer P value_pointer vm) = Ok v" and "length v < 2 ^ 32"
  shows "set_memory P key_pointer value_pointer vm =
      priced (build P) (length v * unat SET_BYTE_MEMORY)
        (\<lambda>vm. vm\<lparr>vm_memory :=
           memory_set (namespaced_key (contract_address (vm_transaction vm)) key) v (vm_memory vm)\<rparr>) vm \<and>
    set_storage P key_pointer value_pointer vm =
      priced (build P) (length v * unat SET_BYTE_STORAGE)
        (\<lambda>vm. vm\<lparr>vm_storage :=
           storage_set (namespaced_key (contract_address (vm_transaction vm)) key) v (vm_storage vm)\<rparr>) vm"
proof -
  have k: "read_pointer P key_pointer vm = (Ok key, vm)"
    using assms(1) by (cases rule: read_pointer_cases [of P key_pointer vm]) simp_all
  have v: "read_pointer P value_pointer vm = (Ok v, vm)"
    using assms(2) by (cases rule: read_pointer_cases [of P value_pointer vm]) simp_all
  have mode: "build P = Release \<longleftrightarrow> build P \<noteq> Debug" by (cases "build P") simp_all
  show ?thesis
    by (auto simp: set_memory_def set_storage_def rust_simps k v byte_cost_value [OF assms(3)] priced_def
        use_gas_def vm_contract_address_def mode split: option.split)
qed

theorem writes_priced_witness:
  "\<exists>vm :: demo_instance vm. vm_gas vm = Some 6000 \<and>
     fst (set_memory (demo_platform Debug (\<lambda>_. None)) 0 0 vm) = Ok None \<and>
     vm_gas (snd (set_memory (demo_platform Debug (\<lambda>_. None)) 0 0 vm)) = Some 1000"
proof -
  let ?P = "demo_platform Debug (\<lambda>_. None)"
  let ?vm = "(transaction_vm (demo_contract []) (demo_tx [1] ''set'' 6000)
      (memory_new demo_redis Map.empty) (storage_new demo_redis (\<lambda>_. Inr None) Map.empty) demo_env)"
  have "fst (read_pointer ?P 0 ?vm) = Ok [2]"
    by (simp add: run_demo run_data run_applied)
  moreover have "vm_gas ?vm = Some 6000" by (simp add: demo_tx_def)
  ultimately show ?thesis
    using writes_priced [of ?P 0 ?vm "[2]" 0 "[2]"]
    by (intro exI [of _ ?vm]) (simp add: priced_def SET_BYTE_MEMORY_def)
qed

section \<open>Calls between contracts\<close>

text \<open>
  C10: what a call of another contract is, on a metered machine: it never fails for lack of gas in
  the caller, and when it completes, the address, the name and the arguments are what the three
  pointers hold. Either there is no code at the address and nothing has changed, or it is the call
  of the function on a machine with the callee's module and address, the caller's address as
  \<open>caller\<close>, and the caller's gas and stores; the caller goes on with the stores and with exactly
  the gas that this machine has left.
\<close>

theorem external_call_effect:
  assumes "vm_gas vm = Some g"
  shows "(case external_call P (invoke_export P fuel) a b c vm of
      (Ok bs, vm') \<Rightarrow> \<exists>address fname args code. call_request P a b c vm address fname args code \<and>
        (if code = [] then vm' = vm \<and> not_found_to_vec P
            (contract_not_found (vm_transaction vm), Some (ucast (gas_limit (vm_transaction vm)))) =
              Some bs
         else \<exists>inst. new_module_instance P code = Ok inst \<and>
           (\<exists>res inner. call P (invoke_export P fuel) fname args (nested_vm inst address fname vm) =
             (Ok (res, vm_gas inner), inner) \<and>
            to_bytes P res = Inr bs \<and>
            vm' = vm\<lparr>vm_gas := vm_gas inner, vm_memory := vm_memory inner,
                     vm_storage := vm_storage inner\<rparr>))
    | (Err e, vm') \<Rightarrow> False
    | _ \<Rightarrow> True)"
  using yields_external_call [OF assms, where P = P and fuel = fuel and a = a and b = b and c = c]
  unfolding yields_def nested_call_def .

theorem external_call_effect_witness:
  "fst (external_call (demo_platform Release (demo_modules (Return ok_result)))
     (invoke_export (demo_platform Release (demo_modules (Return ok_result))) 50) 0 5 10 demo_caller)
     \<noteq> Err OutOfGas \<and>
   (\<exists>address fname args code. call_request (demo_platform Release (demo_modules (Return ok_result)))
     0 5 10 demo_caller address fname args code)"
proof -
  obtain bs vm' where *: "external_call (demo_platform Release (demo_modules (Return ok_result)))
      (invoke_export (demo_platform Release (demo_modules (Return ok_result))) 50) 0 5 10
      demo_caller = (Ok bs, vm')"
    using demo_caller_calls by blast
  from external_call_effect [OF demo_caller_gas, where
      P = "demo_platform Release (demo_modules (Return ok_result))" and fuel = 50 and a = 0 and
      b = 5 and c = 10] * show ?thesis by auto
qed

section \<open>The host functions and their declared types\<close>

definition returns_type :: "value_type option \<Rightarrow> ('i, runtime_value option) vm_op \<Rightarrow> bool" where
  "returns_type t m \<longleftrightarrow> (\<forall>vm v vm'. m vm = (Ok v, vm') \<longrightarrow>
     (case t of None \<Rightarrow> v = None | Some _ \<Rightarrow> (\<exists>w. v = Some (I32 w))))"

lemma returns_type_and_then: "(\<And>a. returns_type t (f a)) \<Longrightarrow> returns_type t (and_then m f)"
  by (fastforce simp: returns_type_def and_then_eq_Ok_iff)

lemma returns_type_basic:
  "returns_type None (ret None)" "returns_type (Some t) (ret (Some (I32 w)))"
  by (simp_all add: returns_type_def)

lemma returns_type_write_pointer: "returns_type (Some t) (write_pointer P invoke v)"
  unfolding write_pointer_def Let_def by (intro returns_type_and_then returns_type_basic)

lemma returns_type_setters:
  "returns_type None (set_memory P a b)" "returns_type None (set_storage P a b)"
  "returns_type None (log_message P a b)"
  unfolding set_memory_def set_storage_def log_message_def
  by (intro returns_type_and_then returns_type_basic)+

lemmas returns_type_intros = returns_type_and_then returns_type_basic returns_type_write_pointer
  returns_type_setters

text \<open>
  C11: the dispatch table and the import table agree. For every function that the import resolver
  hands out, what the dispatch of its index returns has exactly the declared result type: a 32-bit
  integer or nothing.
\<close>

theorem host_functions_typed:
  assumes "resolve_func name = Inr ((params, result), index)"
    and "invoke_index P invoke index args vm = (Ok v, vm')"
  shows "case result of None \<Rightarrow> v = None | Some _ \<Rightarrow> (\<exists>w. v = Some (I32 w))"
proof -
  have "returns_type result (invoke_index P invoke index args)"
    using assms(1) unfolding resolve_func_def invoke_index_def
    by (auto simp: func_index_defs split: if_splits intro!: returns_type_intros)
  with assms(2) show ?thesis unfolding returns_type_def by metis
qed

theorem host_functions_typed_witness:
  "\<exists>v vm' vm''. resolve_func ''__contract_address'' = Inr (([], Some TI32), 0) \<and>
    invoke_index (demo_platform Release (demo_modules Trap))
      (invoke_export (demo_platform Release (demo_modules Trap)) 50) 0 [] demo_caller = (Ok v, vm') \<and>
    (\<exists>w. v = Some (I32 w)) \<and>
    resolve_func ''__log_write'' = Inr (([TI32, TI32], None), 12) \<and>
    invoke_index (demo_platform Release (demo_modules Trap))
      (invoke_export (demo_platform Release (demo_modules Trap)) 50) 12 [I32 5, I32 5] demo_caller =
      (Ok None, vm'')"
proof -
  let ?P = "demo_platform Release (demo_modules Trap)"
  let ?run = "\<lambda>index args. invoke_index ?P (invoke_export ?P 50) index args demo_caller"
  have names: "resolve_func ''__contract_address'' = Inr (([], Some TI32), 0)"
    "resolve_func ''__log_write'' = Inr (([TI32, TI32], None), 12)"
    by (simp_all add: resolve_func_def func_index_defs)
  obtain v vm' where 1: "?run 0 [] = (Ok v, vm')"
    by (simp add: demo_caller_def run_demo run_data run_applied)
  obtain u vm'' where 2: "?run 12 [I32 5, I32 5] = (Ok u, vm'')"
    by (simp add: demo_caller_def run_demo run_data run_applied log_message_def)
  have "\<exists>w. v = Some (I32 w)" "u = None"
    using host_functions_typed [OF names(1) 1] host_functions_typed [OF names(2) 2] by simp_all
  with names 1 2 show ?thesis by blast
qed

text \<open>
  The import table is unambiguous: two imports with the same index are the same function.
\<close>

lemma resolve_func_inject:
  assumes "resolve_func name = Inr (sig, index)" and "resolve_func name' = Inr (sig', index)"
  shows "name = name' \<and> sig = sig' \<and> index \<le> LOG_WRITE"
  using assms unfolding resolve_func_def
  by (simp add: func_index_defs split: if_splits)

section \<open>The memory format of the calling convention\<close>

lemma unat_scast_length:
  assumes "n < 2 ^ 31"
  shows "unat (scast (word_of_nat n :: i32) :: u64) = n"
proof -
  have "sint (word_of_nat n :: i32) = int n"
    using assms by (simp add: signed_of_nat signed_take_bit_int_eq_self)
  then have "(scast (word_of_nat n :: i32) :: u64) = word_of_nat n"
    by (simp add: scast_eq)
  then show ?thesis
    using assms by (simp add: unat_of_nat)
qed

lemma sint_small:
  assumes "uint (p :: i32) < 2 ^ 31"
  shows "sint p = uint p"
proof -
  have "- (2 ^ 31) \<le> uint p" by (rule order_trans [of _ 0]) simp_all
  with assms show ?thesis by (simp add: sint_uint signed_take_bit_int_eq_self)
qed

text \<open>
  C12: what \<open>write_pointer\<close> puts into a contract's memory is what \<open>read_pointer\<close> reads back, provided
  the memory returns what was last written to it, the value is shorter than \<open>2 ^ 31\<close> and the
  pointer is in the lower half of the address space.
\<close>

theorem write_read_pointer:
  assumes mem: "\<And>inst bs inst'. mem_set P inst p bs = Some inst' \<Longrightarrow> 4 \<le> length bs \<Longrightarrow>
      mem_get P inst' p 4 = Some (take 4 bs) \<and>
      mem_get P inst' (p + 4) (length bs - 4) = Some (drop 4 bs)"
    and ext: "exported P (vm_instance vm') ''memory'' = Some ExternMemory"
      "\<And>inst bs inst'. mem_set P inst p bs = Some inst' \<Longrightarrow>
        exported P inst' ''memory'' = exported P inst ''memory''"
    and run: "write_pointer P invoke v vm = (Ok (Some (I32 p)), vm')"
    and len: "length v < 2 ^ 31" and room: "uint p + 4 < 2 ^ 31"
  shows "read_pointer P p vm' = (Ok v, vm')"
proof -
  let ?bs = "i32_to_vec (word_of_nat (length v)) @ v"
  from run obtain vm1 where w: "write_memory P p ?bs vm1 = (Ok (), vm')"
    by (auto simp: write_pointer_def and_then_eq_Ok_iff)
  have "exported P (vm_instance vm1) ''memory'' = Some ExternMemory \<or>
      exported P (vm_instance vm1) ''memory'' = Some ExternOther \<and> vm' = vm1"
    using w by (auto simp: write_memory_def and_then_eq_Ok_iff split: option.splits
        extern_val.splits if_splits)
  with w ext(1) obtain inst' where s: "mem_set P (vm_instance vm1) p ?bs = Some inst'"
    and i: "vm_instance vm' = inst'"
    by (auto simp: write_memory_def and_then_eq_Ok_iff unwrap_eq_Ok_iff split: if_splits)
  from mem [OF s] have m: "mem_get P inst' p 4 = Some (i32_to_vec (word_of_nat (length v)))"
    "mem_get P inst' (p + 4) (length v) = Some v" by simp_all
  have "sint p = uint p" using room by (intro sint_small) simp
  then have "add_i32 (build P) p 4 = Inr (p + 4)"
    using room uint_ge_0 [of p] by (simp add: add_i32_def overflow_check_def del: uint_ge_0)
  then show ?thesis
    using m len ext(1) i
    by (simp add: read_pointer_def read_i32_def read_memory_def rust_simps unat_scast_length)
qed

lemma demo_memory_law:
  assumes "demo_mem_set inst p bs = Some inst'" and "4 \<le> length bs" and "unat (p + 4) = unat p + 4"
  shows "demo_mem_get inst' p 4 = Some (take 4 bs) \<and>
    demo_mem_get inst' (p + 4) (length bs - 4) = Some (drop 4 bs)"
  using assms by (auto simp: demo_mem_set_def demo_mem_get_def split: if_splits)

theorem write_read_pointer_witness:
  "\<exists>vm'. write_pointer (demo_platform Release (demo_modules Trap))
       (invoke_export (demo_platform Release (demo_modules Trap)) 50) [9, 8]
       (transaction_vm (demo_contract []) (demo_tx [1] ''f'' 100) (memory_new demo_redis Map.empty)
         (storage_new demo_redis (\<lambda>_. Inr None) demo_code) demo_env) = (Ok (Some (I32 24)), vm') \<and>
     read_pointer (demo_platform Release (demo_modules Trap)) 24 vm' = (Ok [9, 8], vm')"
  (is "\<exists>vm'. ?write = _ \<and> _")
proof -
  obtain r vm' where w: "?write = (r, vm')" by force
  then have "r = Ok (Some (I32 24))"
    by (auto simp: demo_contract_def demo_page_def run_data run_applied)
  with w have w': "?write = (Ok (Some (I32 24)), vm')" by simp
  have "read_pointer (demo_platform Release (demo_modules Trap)) 24 vm' = (Ok [9, 8], vm')"
    by (rule write_read_pointer [OF _ _ _ w']) (use demo_memory_law [of _ 24] in auto)
  with w' show ?thesis by blast
qed

end
