(* ===== verification/System_Contracts.thy ===== *)
theory System_Contracts
  imports Vm_Transaction
begin

text \<open>
  native/transaction_processor/src/system_contracts.rs: the contract at the reserved address
  system, whose one function deploys a contract and runs its constructor, and the transfer of the
  gas fee, a call of the BaseToken contract without a gas limit.
\<close>

type_synonym system_result = "changeset \<times> changeset \<times> result"

definition SYSTEM_ADDRESS :: bytes where
  "SYSTEM_ADDRESS = concat [replicate 32 0, as_bytes ''system'']"

definition is_system_contract :: "transaction \<Rightarrow> bool" where
  "is_system_contract transaction \<longleftrightarrow> contract_address transaction = SYSTEM_ADDRESS"

text \<open>The gas a run reports is dropped by the system contracts.\<close>

definition drop_gas :: "(trap_kind, run_result) outcome \<Rightarrow> (trap_kind, system_result) outcome" where
  "drop_gas r =
     (case r of
        Ok (mc, sc, res, gas) \<Rightarrow> Ok (mc, sc, res)
      | Err e \<Rightarrow> Err e
      | Panic p \<Rightarrow> Panic p
      | Timeout \<Rightarrow> Timeout)"

definition constructor_transaction :: "transaction \<Rightarrow> string \<Rightarrow> cbor_value list \<Rightarrow> transaction" where
  "constructor_transaction tx contract_name args =
     \<lparr>contract_address = concat [sender tx, as_bytes contract_name], sender = sender tx,
      nonce = nonce tx, gas_limit = gas_limit tx, function_name = ''constructor'',
      arguments = args\<rparr>"

definition run_constuctor ::
  "('mo, 'i, 'a) platform \<Rightarrow> nat \<Rightarrow> transaction \<Rightarrow> memory \<Rightarrow> storage \<Rightarrow> env \<Rightarrow> string
     \<Rightarrow> cbor_value list \<Rightarrow> (trap_kind, system_result) outcome" where
  "run_constuctor P fuel tx memory storage env contract_name args =
     drop_gas (transaction_run P fuel (constructor_transaction tx contract_name args)
       memory storage env)"

definition create_contract ::
  "('mo, 'i, 'a) platform \<Rightarrow> nat \<Rightarrow> transaction \<Rightarrow> memory \<Rightarrow> storage \<Rightarrow> env
     \<Rightarrow> (trap_kind, system_result) outcome" where
  "create_contract P fuel tx memory storage env =
     (case arguments tx of
        [Text contract_name, Bytes code, Array args] \<Rightarrow>
          run_constuctor P fuel tx memory
            (storage_commit (storage_set
               (right_pad_vec (concat [sender tx, as_bytes contract_name]) 64 0) code storage))
            env contract_name args
      | _ \<Rightarrow> Ok (Map.empty, Map.empty, (0, Null)))"

definition system_run ::
  "('mo, 'i, 'a) platform \<Rightarrow> nat \<Rightarrow> transaction \<Rightarrow> memory \<Rightarrow> storage \<Rightarrow> env
     \<Rightarrow> (trap_kind, system_result) outcome" where
  "system_run P fuel tx memory storage env =
     (if function_name tx = ''create_contract'' then create_contract P fuel tx memory storage env
      else Ok (Map.empty, Map.empty, (0, Null)))"

definition BASE_TOKEN_ADDRESS :: bytes where
  "BASE_TOKEN_ADDRESS = concat [replicate 32 0, as_bytes ''BaseToken'']"

definition transfer_transaction :: "transaction \<Rightarrow> u32 \<Rightarrow> bytes \<Rightarrow> bytes \<Rightarrow> transaction" where
  "transfer_transaction tx amount from_address to_address =
     \<lparr>contract_address = BASE_TOKEN_ADDRESS, sender = from_address, nonce = 0,
      gas_limit = gas_limit tx, function_name = ''transfer'',
      arguments = [Bytes to_address, Integer (uint amount)]\<rparr>"

definition transfer ::
  "('mo, 'i, 'a) platform \<Rightarrow> nat \<Rightarrow> transaction \<Rightarrow> redis_conn \<Rightarrow> rocksdb \<Rightarrow> changeset \<Rightarrow> changeset
     \<Rightarrow> env \<Rightarrow> u32 \<Rightarrow> bytes \<Rightarrow> bytes \<Rightarrow> (trap_kind, system_result) outcome" where
  "transfer P fuel tx redis rocksdb memory_changeset storage_changeset env amount
     from_address to_address =
     (let storage = storage_new redis rocksdb storage_changeset;
          transaction = transfer_transaction tx amount from_address to_address
      in case storage_get storage (right_pad_vec (contract_address transaction) 64 0) of
           Inl p \<Rightarrow> Panic p
         | Inr code \<Rightarrow>
             (case new_module_instance P code of
                Err e \<Rightarrow> Err e
              | Panic p \<Rightarrow> Panic p
              | Timeout \<Rightarrow> Timeout
              | Ok module_instance \<Rightarrow>
                  drop_gas (call_outcome (call P (invoke_export P fuel) ''transfer''
                    (arguments transaction)
                    \<lparr>vm_instance = module_instance, vm_memory = memory_new redis memory_changeset,
                     vm_storage = storage, vm_transaction = transaction, vm_gas = None,
                     vm_env = env\<rparr>))))"

section \<open>Outcomes\<close>

lemma drop_gas_eq_Ok_iff: "drop_gas r = Ok (mc, sc, res) \<longleftrightarrow> (\<exists>gas. r = Ok (mc, sc, res, gas))"
  by (auto simp: drop_gas_def split: outcome.splits)

lemma drop_gas_Err_iff: "drop_gas r = Err e \<longleftrightarrow> r = Err e"
  by (auto simp: drop_gas_def split: outcome.splits)

lemma drop_gas_Timeout_iff: "drop_gas r = Timeout \<longleftrightarrow> r = Timeout"
  by (auto simp: drop_gas_def split: outcome.splits)

lemma transaction_run_not_Err: "transaction_run P fuel tx memory storage env \<noteq> Err e"
proof (cases rule: transaction_run_cases [of P fuel tx memory storage env])
  case runs
  then show ?thesis by (simp add: call_outcome_Err_iff)
qed simp_all

lemma create_contract_not_Err: "create_contract P fuel tx memory storage env \<noteq> Err e"
  by (auto simp: create_contract_def run_constuctor_def drop_gas_Err_iff transaction_run_not_Err
      split: list.splits cbor_value.splits)

lemma system_run_not_Err: "system_run P fuel tx memory storage env \<noteq> Err e"
  by (simp add: system_run_def create_contract_not_Err)

lemma transfer_not_Err:
  "transfer P fuel tx redis db mc sc env amount a b \<noteq> Err e"
  unfolding transfer_def Let_def
  by (auto simp: drop_gas_Err_iff call_outcome_Err_iff split: sum.splits outcome.splits)

text \<open>A deployment by its arguments.\<close>

lemma create_contract_args:
  assumes "arguments tx = [Text contract_name, Bytes code, Array args]"
  shows "create_contract P fuel tx memory storage env =
    run_constuctor P fuel tx memory
      (storage_commit (storage_set (right_pad_vec (sender tx @ as_bytes contract_name) 64 0)
         code storage))
      env contract_name args"
  using assms by (simp add: create_contract_def)

text \<open>Every other argument list is reported as a success that did nothing.\<close>

lemma create_contract_bad_args:
  assumes "\<nexists>contract_name code args. arguments tx = [Text contract_name, Bytes code, Array args]"
  shows "create_contract P fuel tx memory storage env = Ok (Map.empty, Map.empty, (0, Null))"
  using assms by (auto simp: create_contract_def split: list.splits cbor_value.splits)

section \<open>The fee transfer is not metered\<close>

text \<open>
  The machine of the transfer holds no gas, and charging such a machine is a success. A token
  contract whose allocator loops therefore keeps the processor for ever: the transfer has no outcome
  for any fuel, while the same loop in a transaction runs out of gas.
\<close>

lemma use_gas_unmetered: "vm_gas vm = None \<Longrightarrow> use_gas n vm = (Ok (), vm)"
  by (simp add: use_gas_def)

lemma unmetered_loop:
  assumes "\<And>inst. wasm_step P act inst = (Meter act, inst)" and "vm_gas vm = None"
  shows "run_wasm P host fuel act vm = (Timeout, vm)"
proof (induction fuel)
  case (Suc fuel)
  then show ?case
    by (simp add: run_wasm_step assms and_then_apply attempt_apply charge_instruction_def
        use_gas_unmetered)
qed simp

lemma unmetered_invocation:
  assumes "\<And>inst. start_export P inst f args = Inr act"
    and "\<And>inst. wasm_step P act inst = (Meter act, inst)" and "vm_gas vm = None"
  shows "invoke_export P fuel f args vm = (Timeout, vm)"
proof (cases fuel)
  case (Suc n)
  then show ?thesis using assms by (simp add: and_then_Ok unmetered_loop)
qed simp

lemma fee_transfer_unmetered:
  assumes code: "storage_get (storage_new redis db sc) (right_pad_vec BASE_TOKEN_ADDRESS 64 0) = Inr code"
      "new_module_instance P code = Ok inst"
    and arg: "value_to_vec P (Bytes to_address) = Some bs"
    and loop: "\<And>inst args. start_export P inst ''__malloc'' args = Inr act"
      "\<And>inst. wasm_step P act inst = (Meter act, inst)"
  shows "transfer P fuel tx redis db mc sc env amount from_address to_address = Timeout"
proof -
  let ?vm = "\<lparr>vm_instance = inst, vm_memory = memory_new redis mc, vm_storage = storage_new redis db sc,
    vm_transaction = transfer_transaction tx amount from_address to_address, vm_gas = None,
    vm_env = env\<rparr>"
  have "write_pointer P (invoke_export P fuel) bs ?vm = (Timeout, ?vm)"
    using unmetered_invocation [OF loop, of ?vm fuel]
    by (simp add: write_pointer_def malloc_def and_then_apply attempt_apply del: invoke_export.simps)
  then have "fst (call P (invoke_export P fuel) ''transfer''
      (arguments (transfer_transaction tx amount from_address to_address)) ?vm) = Timeout"
    by (simp add: call_def transfer_transaction_def arg and_then_apply attempt_apply)
  then show ?thesis
    using code by (simp add: transfer_def transfer_transaction_def drop_gas_Timeout_iff
        call_outcome_Timeout_iff)
qed

end
