(* ===== verification/Transaction_Processor.thy ===== *)
theory Transaction_Processor
  imports System_Contracts
begin

text \<open>
  native/transaction_processor/src/main.rs: a block is a sequence of transactions run against two
  changesets that accumulate their effects. \<open>process_existing_block\<close> takes the transactions from
  its standard input, \<open>process_new_block\<close> pops them off a Redis list until its time is up; both
  print the completed transactions and the two changesets.

  The record \<open>services\<close> holds what is not under src/: the virtual machine's platform, the two
  databases (which do not change while a block is processed), the codecs of serde\_cbor and base64,
  the two Redis list commands on a state \<open>'q\<close>, and the iteration order of a \<open>HashMap\<close>.
\<close>

record ('mo, 'i, 'a, 'q) services =
  vm_platform :: "('mo, 'i, 'a) platform"
  redis_connect :: "redis_conn option"
  rocksdb_open :: "rocksdb option"
  env_value :: "env option"
  transaction_to_vec :: "transaction \<Rightarrow> bytes option"
  transaction_from_slice :: "bytes \<Rightarrow> transaction option"
  transactions_from_slice :: "bytes \<Rightarrow> transaction list option"
  completed_to_vec :: "completed_transaction list \<Rightarrow> bytes option"
  base64_encode :: "bytes \<Rightarrow> string"
  base64_decode :: "string \<Rightarrow> bytes option"
  rpoplpush :: "string \<Rightarrow> string \<Rightarrow> 'q \<Rightarrow> bytes option \<times> 'q"
  lrem :: "string \<Rightarrow> int \<Rightarrow> bytes \<Rightarrow> 'q \<Rightarrow> bool \<times> 'q"
  hash_map_iter :: "changeset \<Rightarrow> (bytes \<times> bytes) list"

text \<open>The block being processed: the accumulated changesets and the Redis lists.\<close>

record 'q block =
  memory_changeset :: changeset
  storage_changeset :: changeset
  completed_transactions :: "completed_transaction list"
  redis_lists :: 'q

type_synonym ('q, 'r) block_op = "('q block, trap_kind, 'r) rust"

section \<open>One transaction\<close>

definition remove_from_processing ::
  "('mo, 'i, 'a, 'q) services \<Rightarrow> transaction \<Rightarrow> ('q, unit) block_op" where
  "remove_from_processing S tx =
     and_then (unwrap unwrap_err_msg (transaction_to_vec S tx)) (\<lambda>transaction_bytes.
     and_then (gets (\<lambda>b. lrem S ''transactions::processing'' 0 transaction_bytes (redis_lists b)))
       (\<lambda>(ok, q).
     and_then (modify (\<lambda>b. b\<lparr>redis_lists := q\<rparr>)) (\<lambda>_.
     if ok then ret () else panic unwrap_err_msg)))"

text \<open>
  The gas used is the difference of the 64-bit limit and the 32-bit rest, cut to 32 bits. The fee
  is transferred on a machine that starts from the transaction's memory changeset and from no
  storage changeset; its result and its storage changeset are dropped.
\<close>

definition charge_gas ::
  "('mo, 'i, 'a, 'q) services \<Rightarrow> nat \<Rightarrow> redis_conn \<Rightarrow> transaction \<Rightarrow> run_result
     \<Rightarrow> ('q, system_result) block_op" where
  "charge_gas S fuel redis tx run_out =
     (case run_out of (tx_memory_changeset, tx_storage_changeset, res, gas_left) \<Rightarrow>
     and_then (unwrap ''no gas left'' gas_left) (\<lambda>left_over.
     and_then (lift_panic (sub_u64 (build (vm_platform S)) (gas_limit tx) (ucast left_over)))
       (\<lambda>gas_used.
     and_then (unwrap unwrap_err_msg (env_value S)) (\<lambda>env.
     and_then (unwrap unwrap_err_msg (rocksdb_open S)) (\<lambda>rocksdb.
     and_then (lift_outcome (transfer (vm_platform S) fuel tx redis rocksdb tx_memory_changeset
         Map.empty env (ucast gas_used) (sender tx) (block_winner env)))
       (\<lambda>(gas_memory_changeset, _, _).
     ret (gas_memory_changeset, tx_storage_changeset, res)))))))"

definition run_transaction ::
  "('mo, 'i, 'a, 'q) services \<Rightarrow> nat \<Rightarrow> rocksdb \<Rightarrow> transaction \<Rightarrow> env
     \<Rightarrow> ('q, completed_transaction) block_op" where
  "run_transaction S fuel rocksdb tx env =
     and_then (unwrap unwrap_err_msg (redis_connect S)) (\<lambda>redis.
     and_then (gets (\<lambda>b. memory_new redis (memory_changeset b))) (\<lambda>memory.
     and_then (gets (\<lambda>b. storage_new redis rocksdb (storage_changeset b))) (\<lambda>storage.
     and_then
       (if is_system_contract tx then
          lift_outcome (system_run (vm_platform S) fuel tx memory storage env)
        else
          and_then (lift_outcome (transaction_run (vm_platform S) fuel tx memory storage env))
            (charge_gas S fuel redis tx))
       (\<lambda>(tx_memory_changeset, tx_storage_changeset, res).
     and_then (remove_from_processing S tx) (\<lambda>_.
     and_then (modify (\<lambda>b. b\<lparr>memory_changeset := memory_changeset b ++ tx_memory_changeset,
                           storage_changeset := storage_changeset b ++ tx_storage_changeset\<rparr>))
       (\<lambda>_. ret (complete tx res)))))))"

section \<open>Output\<close>

definition changeset_value ::
  "('mo, 'i, 'a, 'q) services \<Rightarrow> changeset \<Rightarrow> cbor_value" where
  "changeset_value S changeset =
     Map (map (\<lambda>(key, v). (Bytes key, Bytes v)) (hash_map_iter S changeset))"

definition return_completed_transactions ::
  "('mo, 'i, 'a, 'q) services \<Rightarrow> completed_transaction list \<Rightarrow> changeset \<Rightarrow> changeset
     \<Rightarrow> string may_panic" where
  "return_completed_transactions S completed mc sc =
     (case completed_to_vec S completed of
        None \<Rightarrow> Inl unwrap_err_msg
      | Some completed_bytes \<Rightarrow>
     (case value_to_vec (vm_platform S) (changeset_value S mc) of
        None \<Rightarrow> Inl unwrap_err_msg
      | Some memory_bytes \<Rightarrow>
     (case value_to_vec (vm_platform S) (changeset_value S sc) of
        None \<Rightarrow> Inl unwrap_err_msg
      | Some storage_bytes \<Rightarrow>
          Inr (concat [base64_encode S completed_bytes, '' '', base64_encode S memory_bytes, '' '',
                       base64_encode S storage_bytes, [CHR 0x0A]]))))"

definition return_block :: "('mo, 'i, 'a, 'q) services \<Rightarrow> ('q, string) block_op" where
  "return_block S =
     and_then (gets (\<lambda>b. return_completed_transactions S (completed_transactions b)
       (memory_changeset b) (storage_changeset b))) lift_panic"

section \<open>An existing block\<close>

definition run_next ::
  "('mo, 'i, 'a, 'q) services \<Rightarrow> nat \<Rightarrow> transaction \<Rightarrow> ('q, unit) block_op" where
  "run_next S fuel tx =
     and_then (unwrap unwrap_err_msg (env_value S)) (\<lambda>env.
     and_then (unwrap unwrap_err_msg (rocksdb_open S)) (\<lambda>rocksdb.
     and_then (run_transaction S fuel rocksdb tx env) (\<lambda>completed.
     modify (\<lambda>b. b\<lparr>completed_transactions := completed_transactions b @ [completed]\<rparr>))))"

fun run_all ::
  "('mo, 'i, 'a, 'q) services \<Rightarrow> nat \<Rightarrow> transaction list \<Rightarrow> ('q, unit) block_op" where
  "run_all S fuel [] = ret ()"
| "run_all S fuel (tx # txs) = and_then (run_next S fuel tx) (\<lambda>_. run_all S fuel txs)"

definition trim_end_newlines :: "string \<Rightarrow> string" where
  "trim_end_newlines s = rev (dropWhile (\<lambda>c. c = CHR 0x0A) (rev s))"

definition process_existing_block ::
  "('mo, 'i, 'a, 'q) services \<Rightarrow> nat \<Rightarrow> string \<Rightarrow> ('q, string) block_op" where
  "process_existing_block S fuel transactions_encoded =
     and_then (unwrap unwrap_err_msg (base64_decode S (trim_end_newlines transactions_encoded)))
       (\<lambda>transaction_bytes.
     and_then (unwrap unwrap_err_msg (transactions_from_slice S transaction_bytes)) (\<lambda>transactions.
     and_then (run_all S fuel transactions) (\<lambda>_. return_block S)))"

section \<open>A new block\<close>

definition get_next_transaction ::
  "('mo, 'i, 'a, 'q) services \<Rightarrow> string \<Rightarrow> ('q, transaction option) block_op" where
  "get_next_transaction S source =
     and_then (gets (\<lambda>b. rpoplpush S source ''transactions::processing'' (redis_lists b)))
       (\<lambda>(popped, q).
     and_then (modify (\<lambda>b. b\<lparr>redis_lists := q\<rparr>)) (\<lambda>_.
     and_then (unwrap unwrap_err_msg popped) (\<lambda>transaction_bytes.
     if length transaction_bytes = 0 then ret None
     else and_then (unwrap ''failed to load transaction_bytes''
                     (transaction_from_slice S transaction_bytes)) (\<lambda>tx. ret (Some tx)))))"

text \<open>
  \<open>clock n\<close> is what the \<open>n\<close>-th call of \<open>start.elapsed()\<close> returns, in milliseconds; the fuel bounds
  the number of rounds.
\<close>

fun run_for ::
  "(nat \<Rightarrow> nat) \<Rightarrow> u64 \<Rightarrow> ('q, unit) block_op \<Rightarrow> nat \<Rightarrow> nat \<Rightarrow> ('q, unit) block_op" where
  "run_for clock duration f 0 n = lift_outcome Timeout"
| "run_for clock duration f (Suc rounds) n =
     (if clock n < unat duration then and_then f (\<lambda>_. run_for clock duration f rounds (Suc n))
      else ret ())"

definition new_block_round :: "('mo, 'i, 'a, 'q) services \<Rightarrow> nat \<Rightarrow> ('q, unit) block_op" where
  "new_block_round S fuel =
     and_then (get_next_transaction S ''transactions::queued'') (\<lambda>next_tx.
     case next_tx of
       Some tx \<Rightarrow> run_next S fuel tx
     | None \<Rightarrow> ret ())"

definition process_new_block ::
  "('mo, 'i, 'a, 'q) services \<Rightarrow> nat \<Rightarrow> nat \<Rightarrow> (nat \<Rightarrow> nat) \<Rightarrow> u64 \<Rightarrow> ('q, string) block_op" where
  "process_new_block S fuel rounds clock transaction_processing_time =
     and_then (unwrap unwrap_err_msg (redis_connect S)) (\<lambda>_.
     and_then (run_for clock transaction_processing_time (new_block_round S fuel) rounds 0) (\<lambda>_.
     return_block S))"

definition empty_block :: "'q \<Rightarrow> 'q block" where
  "empty_block q =
     \<lparr>memory_changeset = Map.empty, storage_changeset = Map.empty, completed_transactions = [],
      redis_lists = q\<rparr>"

text \<open>\<open>main\<close> runs one of the two commands on an empty block and ignores any other.\<close>

definition processor_main ::
  "('mo, 'i, 'a, 'q) services \<Rightarrow> nat \<Rightarrow> nat \<Rightarrow> (nat \<Rightarrow> nat) \<Rightarrow> string \<Rightarrow> u64 \<Rightarrow> string \<Rightarrow> 'q
     \<Rightarrow> (trap_kind, string) outcome" where
  "processor_main S fuel rounds clock command transaction_processing_time stdin_line q =
     (if command = ''process_new_block'' then
        fst (process_new_block S fuel rounds clock transaction_processing_time (empty_block q))
      else if command = ''process_existing_block'' then
        fst (process_existing_block S fuel stdin_line (empty_block q))
      else Ok [])"

end
