(* ===== verification/Processor_Demo.thy ===== *)
theory Processor_Demo
  imports Transaction_Processor Vm_Runs
begin

text \<open>
  A concrete instance of the services of the transaction processor for the witnesses. The database
  has code for every address: \<open>[3]\<close>, the token contract, where the address starts with zero, and the
  first byte of the address elsewhere. The Redis lists are a function from names to lists.
\<close>

type_synonym demo_lists = "string \<Rightarrow> bytes list"

definition demo_rpoplpush :: "string \<Rightarrow> string \<Rightarrow> demo_lists \<Rightarrow> bytes option \<times> demo_lists" where
  "demo_rpoplpush source destination q =
     (if q source = [] then (Some [], q)
      else (Some (last (q source)),
            q(source := butlast (q source), destination := last (q source) # q destination)))"

definition demo_lrem :: "string \<Rightarrow> int \<Rightarrow> bytes \<Rightarrow> demo_lists \<Rightarrow> bool \<times> demo_lists" where
  "demo_lrem key count v q = (True, q(key := filter (\<lambda>x. x \<noteq> v) (q key)))"

text \<open>The token contract returns from its transfer or traps in it.\<close>

definition token_modules :: "instr \<Rightarrow> bytes \<Rightarrow> demo_instance option" where
  "token_modules token code =
     (if code = [3] then Some (demo_contract
        [(''transfer'', [Host 7 [I32 0, I32 0], token])])
      else demo_modules (Return ok_result) code)"

definition demo_db :: rocksdb where
  "demo_db key = Inr (Some [if key ! 8 = 0 then 3 else key ! 8])"

text \<open>Transactions travel as their nonce.\<close>

definition demo_tx_bytes :: "transaction \<Rightarrow> bytes option" where
  "demo_tx_bytes tx = Some (u64_to_vec (nonce tx))"

definition demo_tx_of_bytes :: "bytes \<Rightarrow> transaction option" where
  "demo_tx_of_bytes bs =
     (if length bs = 8 then Some ((demo_tx [1] ''set'' 100000)\<lparr>nonce := of_le_bytes bs\<rparr>)
      else None)"

definition demo_services ::
  "build_mode \<Rightarrow> instr \<Rightarrow> (demo_instance, demo_instance, activation, demo_lists) services" where
  "demo_services mode token =
     \<lparr>vm_platform = demo_platform mode (token_modules token), redis_connect = Some demo_redis,
      rocksdb_open = Some demo_db, env_value = Some demo_env, transaction_to_vec = demo_tx_bytes,
      transaction_from_slice = demo_tx_of_bytes,
      transactions_from_slice = (\<lambda>bs. Some []), completed_to_vec = (\<lambda>_. Some [0x80]),
      base64_encode = of_bytes, base64_decode = Some \<circ> as_bytes,
      rpoplpush = demo_rpoplpush, lrem = demo_lrem, hash_map_iter = (\<lambda>_. [])\<rparr>"

lemma demo_services_simps [simp]:
  "vm_platform (demo_services mode token) = demo_platform mode (token_modules token)"
  "redis_connect (demo_services mode token) = Some demo_redis"
  "rocksdb_open (demo_services mode token) = Some demo_db"
  "env_value (demo_services mode token) = Some demo_env"
  "transaction_to_vec (demo_services mode token) = demo_tx_bytes"
  "transaction_from_slice (demo_services mode token) = demo_tx_of_bytes"
  "rpoplpush (demo_services mode token) = demo_rpoplpush"
  "lrem (demo_services mode token) = demo_lrem"
  by (simp_all add: demo_services_def)

abbreviation demo_block :: "demo_lists block" where
  "demo_block \<equiv> empty_block (\<lambda>_. [])"

lemma pad_nth_8: "(u64_to_vec n @ right_pad_vec (a # address) 64 0) ! 8 = a"
  by (simp add: nth_append right_pad_vec_eq)

lemma u64_to_vec_not_Nil [simp]: "u64_to_vec n \<noteq> []"
  by (metis length_to_vec(3) list.size(3) zero_neq_numeral)

lemma base_token_address: "\<exists>r. BASE_TOKEN_ADDRESS = 0 # r"
  by (simp add: BASE_TOKEN_ADDRESS_def numeral_eq_Suc)

lemma demo_db_at: "demo_db (u64_to_vec n @ right_pad_vec (a # address) 64 0) =
    Inr (Some [if a = 0 then 3 else a])"
  by (simp add: demo_db_def pad_nth_8)

lemma demo_db_token: "demo_db (u64_to_vec n @ right_pad_vec BASE_TOKEN_ADDRESS 64 0) = Inr (Some [3])"
proof -
  from base_token_address obtain r where "BASE_TOKEN_ADDRESS = 0 # r" ..
  show ?thesis unfolding \<open>BASE_TOKEN_ADDRESS = 0 # r\<close> demo_db_at by simp
qed

lemma demo_not_system [simp]: "is_system_contract tx \<longleftrightarrow> False" if "contract_address tx = [1]"
  using that by (simp add: is_system_contract_def SYSTEM_ADDRESS_def numeral_eq_Suc)

lemmas processor_data = run_transaction_def charge_gas_def transfer_def transfer_transaction_def
  remove_from_processing_def demo_lrem_def demo_tx_bytes_def lift_outcome_apply
  drop_gas_def token_modules_def demo_db_at demo_db_token empty_block_def complete_def

text \<open>The same transaction with a token contract that accepts the fee, and with one that traps.\<close>

definition demo_fee_run ::
  "instr \<Rightarrow> demo_lists \<Rightarrow> (trap_kind, completed_transaction) outcome \<times> demo_lists block" where
  "demo_fee_run token q =
     run_transaction (demo_services Release token) 50 demo_db (demo_tx [1] ''set'' 100000) demo_env
       (empty_block q)"

lemma run_fee_paid:
  "\<exists>c b'. demo_fee_run (Return ok_result) q = (Ok c, b') \<and> return_code c = 0 \<and>
     memory_changeset b' =
       [namespaced_key [1] [2] \<mapsto> [2], namespaced_key BASE_TOKEN_ADDRESS [2] \<mapsto> [2]]"
  by (simp add: demo_fee_run_def processor_data run_demo run_data run_applied)

lemma run_fee_refused:
  "\<exists>c b'. demo_fee_run Trap q = (Ok c, b') \<and> return_code c = 0 \<and>
     memory_changeset b' = [namespaced_key [1] [2] \<mapsto> [2]]"
  by (simp add: demo_fee_run_def processor_data run_demo run_data run_applied)

end
