(* ===== verification/Vm_Isolation.thy ===== *)
theory Vm_Isolation
  imports Vm_Transaction
begin

text \<open>
  What contracts can reach however they call one another. A contract writes in the namespace of its
  address (\<open>set_memory\<close> and \<open>set_storage\<close> of native/vm/src/vm.rs) and \<open>external_call\<close> runs an address
  only when there is code under its padded form, so a run stays in the union of the namespaces of
  its own address and of the addresses that had code before it. The union is closed: code that a
  contract writes lies in its namespace, and an address that long has its own namespace inside
  of the writer's.
\<close>

section \<open>Deployed contracts\<close>

text \<open>An address under which \<open>external_call\<close> and \<open>Transaction::run\<close> find code.\<close>

definition has_code :: "storage \<Rightarrow> bytes \<Rightarrow> bool" where
  "has_code st address \<longleftrightarrow>
     (case storage_get st (right_pad_vec address 64 0) of Inl _ \<Rightarrow> False | Inr code \<Rightarrow> code \<noteq> [])"

lemma has_codeI:
  "storage_get st (right_pad_vec address 64 0) = Inr code \<Longrightarrow> code \<noteq> [] \<Longrightarrow> has_code st address"
  by (simp add: has_code_def)

text \<open>The keys in the namespace of one of the given addresses.\<close>

definition territory :: "(bytes \<Rightarrow> bool) \<Rightarrow> bytes \<Rightarrow> bool" where
  "territory D k \<longleftrightarrow> (\<exists>a. D a \<and> in_namespace a k)"

lemma in_namespace_append:
  assumes "in_namespace a k" shows "in_namespace a (k @ x)"
proof -
  have "length (right_pad_vec a 64 0) = max 64 (length a)" by (simp add: right_pad_vec_eq)
  with assms have "max 64 (length a) \<le> length k"
    by (metis in_namespace_def length_take min.absorb_iff1 min.commute)
  with assms show ?thesis by (simp add: in_namespace_def)
qed

lemma territory_append: "territory D k \<Longrightarrow> territory D (k @ x)"
  by (auto simp: territory_def intro: in_namespace_append)

lemma territory_namespaced_key:
  "territory D (right_pad_vec a 64 0) \<Longrightarrow> territory D (namespaced_key a k)"
  using territory_append by (auto simp: namespaced_key_def)

lemma territory_own: "D a \<Longrightarrow> territory D (right_pad_vec a 64 0)"
  using in_namespace_namespaced_key [of a "[]"] by (auto simp: territory_def namespaced_key_def)

lemma territory_mono: "territory D k \<Longrightarrow> (\<And>a. D a \<Longrightarrow> E a) \<Longrightarrow> territory E k"
  by (auto simp: territory_def)

section \<open>Machines that stay in their territory\<close>

text \<open>
  \<open>settled D vm\<close>: the contract, every address with code and every pending write lie in the territory
  of \<open>D\<close>. \<open>stays_in D\<close>: from there on it remains so, and the changesets agree outside of it.
\<close>

definition settled :: "(bytes \<Rightarrow> bool) \<Rightarrow> 'i vm \<Rightarrow> bool" where
  "settled D vm \<longleftrightarrow>
     territory D (right_pad_vec (contract_address (vm_transaction vm)) 64 0) \<and>
     (\<forall>a. has_code (vm_storage vm) a \<longrightarrow> territory D (right_pad_vec a 64 0)) \<and>
     (\<forall>k. \<not> territory D k \<longrightarrow>
        mem_working_changeset (vm_memory vm) k = None \<and> sto_working_changeset (vm_storage vm) k = None)"

definition agree_outside :: "(bytes \<Rightarrow> bool) \<Rightarrow> 'i vm \<Rightarrow> 'i vm \<Rightarrow> bool" where
  "agree_outside D vm vm' \<longleftrightarrow>
     (\<forall>k. \<not> territory D k \<longrightarrow>
        mem_changeset (vm_memory vm') k = mem_changeset (vm_memory vm) k \<and>
        sto_changeset (vm_storage vm') k = sto_changeset (vm_storage vm) k)"

definition stays_in :: "(bytes \<Rightarrow> bool) \<Rightarrow> 'i vm \<Rightarrow> 'i vm \<Rightarrow> bool" where
  "stays_in D vm vm' \<longleftrightarrow>
     (settled D vm \<longrightarrow>
        settled D vm' \<and> agree_outside D vm vm' \<and> vm_transaction vm' = vm_transaction vm)"

text \<open>Whether there is code outside of the territory depends on the part that does not change.\<close>

lemma has_code_set_storage [simp]: "has_code (storage_set k v st) = has_code st"
  by (rule ext) (simp add: has_code_def storage_get_def sto.store_laws
      get_from_storage_cong [of "storage_set k v st" st])

lemma has_code_rollback [simp]: "has_code (storage_rollback st) = has_code st"
  by (rule ext) (simp add: has_code_def storage_get_def sto.store_laws
      get_from_storage_cong [of "storage_rollback st" st])

lemma has_code_commit:
  assumes "sto_working_changeset st (right_pad_vec a 64 0) = None"
  shows "has_code (storage_commit st) a = has_code st a"
  using assms by (simp add: has_code_def storage_get_def sto.store_laws map_add_def
      get_from_storage_cong [of "storage_commit st" st])

lemma settled_commit: "settled D vm \<Longrightarrow> settled D (commit_both vm)"
  unfolding settled_def commit_both_def
  by (simp add: mem.store_laws sto.store_laws) (metis has_code_commit)

lemma settled_rollback: "settled D vm \<Longrightarrow> settled D (rollback_both vm)"
  by (simp add: settled_def rollback_both_def mem.store_laws sto.store_laws)

text \<open>A nested machine is settled when its address has code, and its stores come back settled.\<close>

lemma settled_nested:
  assumes "settled D vm" and "has_code (vm_storage vm) address"
  shows "settled D (nested_vm inst address fname vm)"
  using assms by (simp add: settled_def nested_vm_def)

interpretation isolated: vm_frame_calls "stays_in D"
proof unfold_locales
  fix s t u :: "'i vm"
  show "stays_in D s s" by (simp add: stays_in_def agree_outside_def)
  show "stays_in D s t \<Longrightarrow> stays_in D t u \<Longrightarrow> stays_in D s u"
    by (simp add: stays_in_def agree_outside_def)
next
  fix vm inner :: "'i vm" and i inst address fname code k v g a
  show "stays_in D vm (vm\<lparr>vm_instance := i\<rparr>)"
    by (simp add: stays_in_def agree_outside_def settled_def)
  show "stays_in D vm (vm\<lparr>vm_gas := Some (g - a)\<rparr>)"
    by (simp add: stays_in_def agree_outside_def settled_def)
  show "stays_in D vm (vm\<lparr>vm_memory := memory_set (vm_namespaced_key vm k) v (vm_memory vm)\<rparr>)"
    by (auto simp: stays_in_def agree_outside_def settled_def mem.store_laws vm_contract_address_def
        territory_namespaced_key)
  show "stays_in D vm (vm\<lparr>vm_storage := storage_set (vm_namespaced_key vm k) v (vm_storage vm)\<rparr>)"
    by (auto simp: stays_in_def agree_outside_def settled_def sto.store_laws vm_contract_address_def
        territory_namespaced_key)
  show "stays_in D vm (commit_both vm)"
    by (auto simp: stays_in_def settled_commit)
       (simp_all add: agree_outside_def settled_def commit_both_def mem.store_laws sto.store_laws map_add_def)
  show "stays_in D vm (rollback_both vm)"
    by (auto simp: stays_in_def settled_rollback)
       (simp_all add: agree_outside_def rollback_both_def mem.store_laws sto.store_laws)
  assume inner: "stays_in D (nested_vm inst address fname vm) inner"
    and code: "storage_get (vm_storage vm) (right_pad_vec address 64 0) = Inr code" "code \<noteq> []"
  show "stays_in D vm (vm\<lparr>vm_memory := vm_memory inner, vm_storage := vm_storage inner\<rparr>)"
    unfolding stays_in_def
  proof (intro impI conjI)
    assume s: "settled D vm"
    with inner code have i: "settled D inner" "agree_outside D (nested_vm inst address fname vm) inner"
      by (simp_all add: stays_in_def settled_nested has_codeI)
    from s i(1) show "settled D (vm\<lparr>vm_memory := vm_memory inner, vm_storage := vm_storage inner\<rparr>)"
      by (simp add: settled_def)
    from i(2) show "agree_outside D vm (vm\<lparr>vm_memory := vm_memory inner, vm_storage := vm_storage inner\<rparr>)"
      by (simp add: agree_outside_def nested_vm_def)
  qed simp
qed

section \<open>Runs\<close>

text \<open>A call on fresh stores, of a contract and with other contracts within \<open>D\<close>.\<close>

lemma isolated_call:
  assumes run: "call P (invoke_export P fuel) f args vm = (Ok (res, gas), vm')"
    and stores: "vm_memory vm = memory_new r mc" "vm_storage vm = storage_new r db sc"
    and D: "D (vm_contract_address vm)" "\<And>a. has_code (storage_new r db sc) a \<Longrightarrow> D a"
    and k: "\<not> territory D k"
  shows "mem_changeset (vm_memory vm') k = mc k \<and> sto_changeset (vm_storage vm') k = sc k"
proof -
  have "settled D vm"
    using D by (simp add: settled_def stores territory_own vm_contract_address_def)
  moreover have "stays_in D vm vm'"
    using isolated.keeps_call [OF isolated.keeps_invoke_export] run by (rule keepsD)
  ultimately show ?thesis
    using k by (simp add: stays_in_def agree_outside_def stores)
qed

lemma isolated_run:
  assumes run: "transaction_run P fuel tx (memory_new r cm) (storage_new r db cs) env =
      Ok (mc, sc, res, gas)"
    and k: "\<not> territory (has_code (storage_new r db cs)) k"
  shows "mc k = cm k \<and> sc k = cs k"
proof (cases "storage_get (storage_new r db cs) (right_pad_vec (contract_address tx) 64 0)")
  case (Inl p)
  with run show ?thesis by (simp add: transaction_run_def)
next
  case (Inr code)
  show ?thesis
  proof (cases "code = [] \<or> (\<forall>inst. new_module_instance P code \<noteq> Ok inst)")
    case True
    with run Inr show ?thesis by (auto simp: transaction_run_def split: if_splits outcome.splits)
  next
    case False
    then obtain inst where "new_module_instance P code = Ok inst" by blast
    with run Inr False obtain vm' where
        c: "call P (invoke_export P fuel) (function_name tx) (arguments tx)
          (transaction_vm inst tx (memory_new r cm) (storage_new r db cs) env) = (Ok (res, gas), vm')"
      and out: "mc = mem_changeset (vm_memory vm')" "sc = sto_changeset (vm_storage vm')"
      by (auto simp: transaction_run_code call_outcome_Ok_iff)
    have "has_code (storage_new r db cs) (contract_address tx)" using Inr False by (auto intro: has_codeI)
    with isolated_call [OF c _ _ _ _ k] show ?thesis
      by (simp add: out vm_contract_address_def)
  qed
qed

end
