(* ===== verification/Vm_Unmetered.thy ===== *)
theory Vm_Unmetered
  imports Vm_Transaction
begin

text \<open>
  The machine without gas on which the fee is collected (\<open>gas: None\<close> in
  native/transaction_processor/src/system_contracts.rs). Charging it always succeeds, but
  \<open>external_call\<close> of native/vm/src/vm/externals.rs unwraps the gas after the nested call: on such a
  machine a call of another contract never returns. So what a transfer that ends has written lies in
  the namespace of the token contract, whatever its code.
\<close>

section \<open>What the operations do when they return\<close>

context vm_frame_writes
begin

lemma returns_malloc:
  assumes "\<And>f args. returns_in R (invoke f args)"
  shows "returns_in R (malloc invoke n)"
  unfolding malloc_def
  by (intro returns_basic assms)
     (auto split: sum.split option.split runtime_value.split intro: returns_basic)

lemma returns_write_pointer:
  assumes "\<And>f args. returns_in R (invoke f args)"
  shows "returns_in R (write_pointer P invoke v)"
  unfolding write_pointer_def Let_def
  by (intro returns_basic returns_malloc keeps_write_memory [THEN keeps_returns_in] assms)

lemma returns_push_arguments:
  assumes "\<And>f args. returns_in R (invoke f args)"
  shows "returns_in R (push_arguments P invoke args acc)"
proof (induction args arbitrary: acc)
  case (Cons arg args)
  show ?case
    unfolding push_arguments.simps
    by (intro returns_basic returns_write_pointer assms)
       (auto split: sum.split option.split intro!: returns_basic Cons.IH)
qed (auto intro: returns_basic)

lemma returns_run_wasm:
  assumes "\<And>index args. returns_in R (host index args)"
  shows "returns_in R (run_wasm P host fuel act)"
proof (induction fuel arbitrary: act)
  case (Suc fuel)
  show ?case
    unfolding run_wasm.simps charge_instruction_def
    by (intro returns_basic)
       (auto split: prod.split wasm_event.split sum.split
          intro!: returns_basic assms Suc.IH keeps_use_gas [THEN keeps_returns_in]
            keeps_set_instance [THEN keeps_returns_in])
qed (simp add: returns_in_def)

lemma returns_invoke_index:
  assumes "\<And>f args. returns_in R (invoke f args)"
    and "\<And>a b c. returns_in R (external_call P invoke a b c)"
  shows "returns_in R (invoke_index P invoke index args)"
  unfolding invoke_index_def
  by (auto intro!: returns_basic keeps_host_ops [THEN keeps_returns_in] returns_write_pointer assms)

lemma returns_invoke_export:
  assumes "\<And>invoke a b c. returns_in R (external_call P invoke a b c)"
  shows "returns_in R (invoke_export P fuel func args)"
proof (induction fuel arbitrary: func args)
  case (Suc fuel)
  show ?case
    unfolding invoke_export.simps
    by (intro returns_basic)
       (auto split: sum.split
          intro!: returns_basic returns_run_wasm returns_invoke_index assms Suc.IH)
qed (simp add: returns_in_def)

end

section \<open>External calls without gas\<close>

definition untouched_unmetered :: "'i vm \<Rightarrow> 'i vm \<Rightarrow> bool" where
  "untouched_unmetered vm vm' \<longleftrightarrow> (vm_gas vm = None \<longrightarrow> vm' = vm)"

interpretation untouched: preorder_rel untouched_unmetered
  by unfold_locales (auto simp: untouched_unmetered_def)

lemma returns_reads: "returns_in untouched_unmetered (read_pointer P ptr)"
  by (auto simp: returns_in_def untouched_unmetered_def dest: read_pointer_state)

text \<open>The nested call itself: on a machine without gas, what follows it panics.\<close>

lemma nested_unmetered:
  fixes P :: "('mo, 'i, 'a) platform"
  shows "returns_in untouched_unmetered
     (and_then (with_borrowed (nested_vm inst address fname) (call P invoke f args)) (\<lambda>(res, gas_left).
      and_then (gets vm_gas) (\<lambda>gas. and_then (unwrap unwrap_none_msg gas) (rest res gas_left))))"
proof (rule returns_inI)
  fix vm vm' :: "'i vm" and r
  assume run: "and_then (with_borrowed (nested_vm inst address fname) (call P invoke f args))
      (\<lambda>(res, gas_left). and_then (gets vm_gas) (\<lambda>gas.
         and_then (unwrap unwrap_none_msg gas) (rest res gas_left))) vm = (r, vm')"
    and r: "returned r"
  show "untouched_unmetered vm vm'"
    unfolding untouched_unmetered_def
  proof
    assume gas: "vm_gas vm = None"
    obtain q inner where c: "call P invoke f args (nested_vm inst address fname vm) = (q, inner)"
      by force
    then have "q \<noteq> Err e" for e by (metis call_not_Err fst_conv)
    with run r c gas show "vm' = vm"
      by (cases q) (auto simp: with_borrowed_def and_then_apply)
  qed
qed

lemma external_call_unmetered: "returns_in untouched_unmetered (external_call P invoke a b c)"
  unfolding external_call_def
  by (intro untouched.returns_basic returns_reads)
     (auto intro!: untouched.returns_basic nested_unmetered)

section \<open>Runs without gas\<close>

definition confined_unmetered :: "'i vm \<Rightarrow> 'i vm \<Rightarrow> bool" where
  "confined_unmetered vm vm' \<longleftrightarrow>
     (vm_gas vm = None \<longrightarrow> vm_gas vm' = None \<and> same_committed vm vm' \<and> writes_confined vm vm')"

interpretation unmetered: vm_frame_writes confined_unmetered
proof unfold_locales
  fix s t u :: "'i vm"
  show "confined_unmetered s s"
    by (simp add: confined_unmetered_def committed.rel_refl confined.rel_refl)
  show "confined_unmetered s t \<Longrightarrow> confined_unmetered t u \<Longrightarrow> confined_unmetered s u"
    by (auto simp: confined_unmetered_def intro: committed.rel_trans confined.rel_trans)
qed (simp_all add: confined_unmetered_def committed.frame_instance confined.frame_instance
      committed.frame_set_memory confined.frame_set_memory committed.frame_set_storage
      confined.frame_set_storage)

lemma unmetered_invoke_export: "returns_in confined_unmetered (invoke_export P fuel f args)"
proof (rule unmetered.returns_invoke_export)
  show "returns_in confined_unmetered (external_call P invoke a b c)" for invoke a b c
    using external_call_unmetered
    by (rule returns_in_mono) (auto simp: untouched_unmetered_def confined_unmetered_def
        committed.rel_refl confined.rel_refl)
qed

text \<open>A call without gas commits nothing, or what its own contract wrote.\<close>

lemma unmetered_call_changesets:
  assumes run: "call P (invoke_export P fuel) f args vm = (Ok (res, gas), vm')"
    and gas: "vm_gas vm = None"
    and clean: "mem_working_changeset (vm_memory vm) = Map.empty"
      "sto_working_changeset (vm_storage vm) = Map.empty"
  obtains (unchanged) "mem_changeset (vm_memory vm') = mem_changeset (vm_memory vm)"
      "sto_changeset (vm_storage vm') = sto_changeset (vm_storage vm)"
    | (committed) wm ws where
      "mem_changeset (vm_memory vm') = mem_changeset (vm_memory vm) ++ wm"
      "sto_changeset (vm_storage vm') = sto_changeset (vm_storage vm) ++ ws"
      "\<forall>k \<in> dom wm \<union> dom ws. in_namespace (vm_contract_address vm) k"
proof (rule call_changesets [OF _ _ run clean])
  have push: "confined_unmetered vm vm1"
    if "push_arguments P (invoke_export P fuel) args [] vm = (Ok q, vm1)" for q vm1
    using unmetered.returns_push_arguments [OF unmetered_invoke_export] that
    by (rule returns_inD) simp
  then show "same_committed vm vm1"
    if "push_arguments P (invoke_export P fuel) args [] vm = (Ok q, vm1)" for q vm1
    using that gas by (simp add: confined_unmetered_def)
  show "same_committed vm vm2 \<and> writes_confined vm vm2"
    if p: "push_arguments P (invoke_export P fuel) args [] vm = (Ok (Inr vals), vm1)"
      and i: "invoke_export P fuel f vals vm1 = (r, vm2)" "returned r" for vals vm1 r vm2
  proof -
    have "confined_unmetered vm1 vm2" using unmetered_invoke_export i by (rule returns_inD)
    with push [OF p] have "confined_unmetered vm vm2" by (rule unmetered.rel_trans)
    with gas show ?thesis by (simp add: confined_unmetered_def)
  qed
qed (blast intro: unchanged committed)+

end
