(* ===== verification/Processor_Properties.thy ===== *)
theory Processor_Properties
  imports Processor_Demo Vm_Isolation Vm_Unmetered
begin

text \<open>
  The properties of the transaction processor: what a transaction is charged, how the changesets of
  a block grow and which keys they may change, the order in which transactions are completed, the
  queue discipline of a new block, and the deployment of contracts.
\<close>

section \<open>Charging\<close>

lemma ucast_le_of_le_ucast:
  assumes "g \<le> (ucast (limit :: u64) :: u32)"
  shows "(ucast g :: u64) \<le> limit"
proof -
  have "unat g \<le> take_bit 32 (unat limit)"
    using assms by (simp add: word_le_nat_alt unsigned_ucast_eq)
  also have "\<dots> \<le> unat limit" by simp
  finally have "unat g \<le> unat limit" .
  moreover have "take_bit 64 (unat g) \<le> unat g" by simp
  ultimately have "take_bit 64 (unat g) \<le> unat limit" by linarith
  then show ?thesis
    by (simp add: word_le_nat_alt unsigned_ucast_eq)
qed

lemma ucast_minus_ucast:
  "(ucast (limit - ucast (g :: u32) :: u64) :: u32) = ucast limit - g"
proof -
  have "(a - b mod 2 ^ 32) mod 2 ^ 64 mod 2 ^ 32 = (a mod 2 ^ 64 - b) mod 2 ^ 32" for a b :: int
  proof -
    have m: "x mod 2 ^ 64 mod 2 ^ 32 = x mod 2 ^ 32" for x :: int
      by (rule mod_mod_cancel) simp
    have "(a - b mod 2 ^ 32) mod 2 ^ 64 mod 2 ^ 32 = (a - b) mod 2 ^ 32"
      unfolding m by (rule mod_diff_right_eq)
    moreover have "(a mod 2 ^ 64 - b) mod 2 ^ 32 = (a - b) mod 2 ^ 32"
      by (metis m mod_diff_left_eq)
    ultimately show ?thesis by simp
  qed
  then show ?thesis
    by transfer (simp add: take_bit_eq_mod)
qed

lemma transaction_run_Ok_gas:
  assumes "transaction_run P fuel tx memory storage env = Ok (mc, sc, res, gas)"
  shows "\<exists>g. gas = Some g \<and> g \<le> ucast (gas_limit tx)"
proof (cases rule: transaction_run_cases [of P fuel tx memory storage env])
  case (runs inst)
  from assms [unfolded runs] obtain vm' where c:
      "call P (invoke_export P fuel) (function_name tx) (arguments tx)
        (transaction_vm inst tx memory storage env) = (Ok (res, gas), vm')"
    by (auto simp: call_outcome_Ok_iff)
  have "gas_le (transaction_vm inst tx memory storage env) vm'"
    using gas.keeps_call [OF gas.keeps_invoke_export] c by (rule keepsD)
  moreover have "gas = vm_gas vm'"
    using call_reports_gas [of P "invoke_export P fuel"] c unfolding reports_gas_def by metis
  ultimately show ?thesis by (auto dest: gas_le_SomeD)
qed (use assms in simp_all)

lemma sub_gas:
  assumes "left_over \<le> (ucast limit :: u32)"
  shows "sub_u64 mode limit (ucast left_over) = Inr (limit - ucast left_over)"
  using ucast_le_of_le_ucast [OF assms] by (rule sub_u64_Ok)

lemma removed_Ok:
  assumes "remove_from_processing S tx b = (Ok (), b1)"
  shows "\<exists>q. b1 = b\<lparr>redis_lists := q\<rparr>"
proof (cases "transaction_to_vec S tx")
  case None
  with assms show ?thesis by (simp add: remove_from_processing_def rust_simps)
next
  case (Some bs)
  obtain ok q where "lrem S ''transactions::processing'' 0 bs (redis_lists b) = (ok, q)" by force
  with assms Some show ?thesis
    by (cases ok) (auto simp: remove_from_processing_def rust_simps)
qed

text \<open>What a completed transaction did, by the two kinds of contracts.\<close>

lemma run_transaction_Ok_cases:
  assumes "run_transaction S fuel db tx env b = (Ok c, b')"
  obtains (system) redis mc sc res q where "is_system_contract tx" "redis_connect S = Some redis"
      "system_run (vm_platform S) fuel tx (memory_new redis (memory_changeset b))
         (storage_new redis db (storage_changeset b)) env = Ok (mc, sc, res)"
      "remove_from_processing S tx b = (Ok (), b\<lparr>redis_lists := q\<rparr>)"
      "c = complete tx res"
      "b' = b\<lparr>redis_lists := q, memory_changeset := memory_changeset b ++ mc,
              storage_changeset := storage_changeset b ++ sc\<rparr>"
    | (contract) redis mc sc res left_over fee_env db' gmc gsc gres q where
      "\<not> is_system_contract tx" "redis_connect S = Some redis"
      "transaction_run (vm_platform S) fuel tx (memory_new redis (memory_changeset b))
         (storage_new redis db (storage_changeset b)) env = Ok (mc, sc, res, Some left_over)"
      "left_over \<le> ucast (gas_limit tx)"
      "env_value S = Some fee_env" "rocksdb_open S = Some db'"
      "transfer (vm_platform S) fuel tx redis db' mc Map.empty fee_env
         (ucast (gas_limit tx) - left_over) (sender tx) (block_winner fee_env) = Ok (gmc, gsc, gres)"
      "remove_from_processing S tx b = (Ok (), b\<lparr>redis_lists := q\<rparr>)"
      "c = complete tx res"
      "b' = b\<lparr>redis_lists := q, memory_changeset := memory_changeset b ++ gmc,
              storage_changeset := storage_changeset b ++ sc\<rparr>"
proof -
  show thesis
  proof (cases "is_system_contract tx")
    case True
    with assms obtain redis mc sc res b1 where r: "redis_connect S = Some redis"
      "system_run (vm_platform S) fuel tx (memory_new redis (memory_changeset b))
         (storage_new redis db (storage_changeset b)) env = Ok (mc, sc, res)"
      and rm: "remove_from_processing S tx b = (Ok (), b1)"
      and out: "c = complete tx res"
      "b' = b1\<lparr>memory_changeset := memory_changeset b1 ++ mc,
               storage_changeset := storage_changeset b1 ++ sc\<rparr>"
      by (auto simp: run_transaction_def and_then_eq_Ok_iff unwrap_eq_Ok_iff)
    from removed_Ok [OF rm] obtain q where q: "b1 = b\<lparr>redis_lists := q\<rparr>" ..
    show thesis
      by (rule system [OF True r rm [unfolded q] out(1)]) (simp add: out q)
  next
    case False
    from assms False obtain redis mc sc res gas b1 gmc sc1 res1 where
        r: "redis_connect S = Some redis" and
        t: "transaction_run (vm_platform S) fuel tx (memory_new redis (memory_changeset b))
          (storage_new redis db (storage_changeset b)) env = Ok (mc, sc, res, gas)" and
        ch: "charge_gas S fuel redis tx (mc, sc, res, gas) b = (Ok (gmc, sc1, res1), b1)" and
        rest: "and_then (remove_from_processing S tx) (\<lambda>_.
          and_then (modify (\<lambda>b. b\<lparr>memory_changeset := memory_changeset b ++ gmc,
                           storage_changeset := storage_changeset b ++ sc1\<rparr>))
            (\<lambda>_. ret (complete tx res1))) b1 = (Ok c, b')"
      by (auto simp: run_transaction_def and_then_eq_Ok_iff unwrap_eq_Ok_iff)
    from transaction_run_Ok_gas [OF t] obtain g where g: "gas = Some g" "g \<le> ucast (gas_limit tx)"
      by blast
    from ch obtain fee_env db' gsc gres where fee:
        "env_value S = Some fee_env" "rocksdb_open S = Some db'"
        "transfer (vm_platform S) fuel tx redis db' mc Map.empty fee_env
          (ucast (gas_limit tx) - g) (sender tx) (block_winner fee_env) = Ok (gmc, gsc, gres)"
      and same: "b1 = b" "sc1 = sc" "res1 = res"
      by (auto simp: charge_gas_def g sub_gas ucast_minus_ucast and_then_eq_Ok_iff
          unwrap_eq_Ok_iff)
    from rest obtain b2 where rm: "remove_from_processing S tx b = (Ok (), b2)"
      and out: "c = complete tx res"
      "b' = b2\<lparr>memory_changeset := memory_changeset b2 ++ gmc,
               storage_changeset := storage_changeset b2 ++ sc\<rparr>"
      by (auto simp: and_then_eq_Ok_iff same)
    from removed_Ok [OF rm] obtain q where q: "b2 = b\<lparr>redis_lists := q\<rparr>" ..
    show thesis
      by (rule contract [OF False r t [unfolded g] g(2) fee rm [unfolded q] out(1)])
        (simp add: out q)
  qed
qed

section \<open>Isolation of the transactions of a block\<close>

text \<open>The fee transfer runs without gas, so it never calls another contract and returns.\<close>

lemma transfer_changesets:
  assumes run: "transfer P fuel tx redis db mc sc env amount from_address to_address =
      Ok (gmc, gsc, res)"
  shows "\<exists>wm. gmc = mc ++ wm \<and> (\<forall>k \<in> dom wm. in_namespace BASE_TOKEN_ADDRESS k)"
proof -
  from run obtain inst gas where
    "call_outcome (call P (invoke_export P fuel) ''transfer''
       (arguments (transfer_transaction tx amount from_address to_address))
       \<lparr>vm_instance = inst, vm_memory = memory_new redis mc, vm_storage = storage_new redis db sc,
        vm_transaction = transfer_transaction tx amount from_address to_address, vm_gas = None,
        vm_env = env\<rparr>) = Ok (gmc, gsc, res, gas)"
    (is "call_outcome (call _ _ _ _ ?vm) = _")
    by (auto simp: transfer_def Let_def drop_gas_eq_Ok_iff split: sum.splits outcome.splits)
  then obtain vm' where c: "call P (invoke_export P fuel) ''transfer''
      (arguments (transfer_transaction tx amount from_address to_address)) ?vm =
      (Ok (res, gas), vm')" and out: "gmc = mem_changeset (vm_memory vm')"
    by (auto simp: call_outcome_Ok_iff)
  have clean: "vm_gas ?vm = None" "mem_working_changeset (vm_memory ?vm) = Map.empty"
    "sto_working_changeset (vm_storage ?vm) = Map.empty" by simp_all
  from c clean show ?thesis
  proof (cases rule: unmetered_call_changesets)
    case unchanged
    then have "gmc = mc ++ Map.empty" by (simp add: out)
    then show ?thesis by (metis dom_empty empty_iff)
  next
    case (committed wm ws)
    then show ?thesis
      by (intro exI [of _ wm])
        (auto simp: out vm_contract_address_def transfer_transaction_def)
  qed
qed

lemma map_add_outside: "\<forall>k \<in> dom w. Q k \<Longrightarrow> \<not> Q k \<Longrightarrow> (m ++ w) k = m k"
  by (auto simp: map_add_def split: option.splits)

text \<open>
  C14: contracts are isolated, whatever code they consist of and however they call one another. A
  completed transaction of an ordinary contract changes a block's storage only in the namespaces of
  contracts that had code when it started, and its memory only there and, for the fee, in the
  namespace of the token contract. Code that a contract writes in the course of the transaction
  reaches nothing more.
\<close>

theorem transaction_isolated:
  assumes "run_transaction S fuel db tx env b = (Ok c, b')" and "\<not> is_system_contract tx"
    and "redis_connect S = Some redis"
  shows "\<forall>k. \<not> territory (has_code (storage_new redis db (storage_changeset b))) k \<longrightarrow>
      storage_changeset b' k = storage_changeset b k \<and>
      (\<not> in_namespace BASE_TOKEN_ADDRESS k \<longrightarrow> memory_changeset b' k = memory_changeset b k)"
  using assms(1)
proof (cases rule: run_transaction_Ok_cases)
  case system
  with assms(2) show ?thesis by simp
next
  case (contract r mc sc res left_over fee_env db' gmc gsc gres q)
  with assms(3) have "r = redis" by simp
  then have run: "mc k = memory_changeset b k \<and> sc k = storage_changeset b k"
    if "\<not> territory (has_code (storage_new redis db (storage_changeset b))) k" for k
    using isolated_run [OF contract(3)] that by simp
  from transfer_changesets [OF contract(7)] obtain wf where
      fee: "gmc = mc ++ wf" "\<forall>k \<in> dom wf. in_namespace BASE_TOKEN_ADDRESS k" by blast
  have "gmc k = mc k" if "\<not> in_namespace BASE_TOKEN_ADDRESS k" for k
    using map_add_outside [OF fee(2) that] by (simp add: fee(1))
  with run show ?thesis by (auto simp: contract(10) map_add_def split: option.splits)
qed

text \<open>
  A block in which the contracts \<open>[1]\<close> and \<open>[2]\<close> and, in the database, the token contract are
  deployed. The transaction has the first call the second.
\<close>

definition token_db :: rocksdb where
  "token_db key =
     Inr (if drop 8 key = right_pad_vec BASE_TOKEN_ADDRESS 64 0 then Some [3] else None)"

definition sparse_services ::
  "(demo_instance, demo_instance, activation, demo_lists) services" where
  "sparse_services = (demo_services Release (Return ok_result))\<lparr>rocksdb_open := Some token_db\<rparr>"

definition sparse_block :: "demo_lists block" where
  "sparse_block = demo_block\<lparr>storage_changeset := demo_code\<rparr>"

lemma token_db_at:
  "token_db (u64_to_vec n @ k) =
     Inr (if k = right_pad_vec BASE_TOKEN_ADDRESS 64 0 then Some [3] else None)"
  by (simp add: token_db_def)

lemma sparse_has_code:
  assumes "has_code (storage_new demo_redis token_db demo_code) a"
  shows "right_pad_vec a 64 0 \<in>
    {right_pad_vec [1] 64 0, right_pad_vec [2] 64 0, right_pad_vec BASE_TOKEN_ADDRESS 64 0}"
  using assms
  by (auto simp: has_code_def storage_get_def get_from_storage_def storage_get_latest_def
      demo_redis_def storage_op_defs token_db_at demo_code_def split: if_splits)

lemma run_sparse:
  "\<exists>c b'. run_transaction sparse_services 50 token_db (demo_tx [1] ''callok'' 100000) demo_env
      sparse_block = (Ok c, b') \<and> return_code c = 0"
proof -
  obtain r where r: "BASE_TOKEN_ADDRESS = 0 # r" using base_token_address ..
  have ne: "right_pad_vec [1] 64 0 \<noteq> right_pad_vec BASE_TOKEN_ADDRESS 64 0"
    "right_pad_vec [2] 64 0 \<noteq> right_pad_vec BASE_TOKEN_ADDRESS 64 0"
    unfolding r by (simp_all add: right_pad_vec_eq)
  show ?thesis
    by (simp add: sparse_services_def sparse_block_def processor_data token_db_at ne
        run_demo run_data run_applied)
qed

theorem transaction_isolated_witness:
  "\<exists>c b'. run_transaction sparse_services 50 token_db (demo_tx [1] ''callok'' 100000) demo_env
      sparse_block = (Ok c, b') \<and> return_code c = 0 \<and>
     storage_changeset b' (namespaced_key [5] []) = None \<and>
     memory_changeset b' (namespaced_key [5] []) = None"
proof -
  obtain c b' where r: "run_transaction sparse_services 50 token_db (demo_tx [1] ''callok'' 100000)
      demo_env sparse_block = (Ok c, b')" and c: "return_code c = 0"
    using run_sparse by blast
  obtain t where t: "BASE_TOKEN_ADDRESS = 0 # t" using base_token_address ..
  have out: "\<not> in_namespace a (namespaced_key [5] [])" if "right_pad_vec a 64 0 \<in>
    {right_pad_vec [1] 64 0, right_pad_vec [2] 64 0, right_pad_vec BASE_TOKEN_ADDRESS 64 0}" for a
  proof
    assume "in_namespace a (namespaced_key [5] [])"
    then have "hd (right_pad_vec a 64 0) = 5"
      by (auto simp: in_namespace_def namespaced_key_def right_pad_vec_eq dest: arg_cong [of _ _ hd])
    moreover have "hd (right_pad_vec BASE_TOKEN_ADDRESS 64 0) = 0"
      unfolding t by (simp add: right_pad_vec_eq)
    ultimately show False using that by (auto simp: right_pad_vec_eq)
  qed
  then have none: "\<not> territory (has_code (storage_new demo_redis token_db demo_code)) (namespaced_key [5] [])"
    "\<not> in_namespace BASE_TOKEN_ADDRESS (namespaced_key [5] [])"
    using sparse_has_code by (auto simp: territory_def)
  have "\<not> is_system_contract (demo_tx [1] ''callok'' 100000)" by (simp add: demo_tx_def)
  from transaction_isolated [OF r this, of demo_redis] none
  have "storage_changeset b' (namespaced_key [5] []) = demo_code (namespaced_key [5] [])"
    "memory_changeset b' (namespaced_key [5] []) = None"
    by (simp_all add: sparse_services_def sparse_block_def empty_block_def)
  moreover have "demo_code (namespaced_key [5] []) = None"
    by (simp add: demo_code_def namespaced_key_def right_pad_vec_eq)
  ultimately show ?thesis using r c by auto
qed

text \<open>
  C13: what a completed transaction of an ordinary contract is charged and what it changes. The
  fee handed to the token contract is the 32-bit gas limit minus the gas the run has left, with no
  overflow in any build. Whatever the token contract does with it (accept it, refuse it, trap), the
  transaction is completed with the result of its own run, the block's storage is extended by
  exactly what that run has changed, and its memory by that and what the transfer writes in the
  namespace of the token contract: a sender that cannot pay is served all the same.
\<close>

theorem transaction_charged:
  assumes "run_transaction S fuel db tx env b = (Ok c, b')" and "\<not> is_system_contract tx"
  shows "\<exists>redis mc sc res left_over fee_env db' gmc gsc gres wf.
    transaction_run (vm_platform S) fuel tx (memory_new redis (memory_changeset b))
      (storage_new redis db (storage_changeset b)) env = Ok (mc, sc, res, Some left_over) \<and>
    left_over \<le> ucast (gas_limit tx) \<and>
    transfer (vm_platform S) fuel tx redis db' mc Map.empty fee_env
      (ucast (gas_limit tx) - left_over) (sender tx) (block_winner fee_env) = Ok (gmc, gsc, gres) \<and>
    gmc = mc ++ wf \<and> (\<forall>k \<in> dom wf. in_namespace BASE_TOKEN_ADDRESS k) \<and>
    memory_changeset b' = memory_changeset b ++ gmc \<and>
    storage_changeset b' = storage_changeset b ++ sc \<and>
    c = complete tx res"
  using assms(1)
proof (cases rule: run_transaction_Ok_cases)
  case system
  with assms(2) show ?thesis by simp
next
  case (contract redis mc sc res left_over fee_env db' gmc gsc gres q)
  from transfer_changesets [OF contract(7)] obtain wf where
      "gmc = mc ++ wf" "\<forall>k \<in> dom wf. in_namespace BASE_TOKEN_ADDRESS k" by blast
  then show ?thesis
    by (intro exI conjI) (rule contract(3,4,7,9) | assumption | simp add: contract(10))+
qed

theorem transaction_charged_witness:
  "\<exists>c b' mc wf. run_transaction (demo_services Release Trap) 50 demo_db
      (demo_tx [1] ''set'' 100000) demo_env demo_block = (Ok c, b') \<and> return_code c = 0 \<and>
     memory_changeset b' = mc ++ wf \<and> mc (namespaced_key [1] [2]) = Some [2] \<and>
     (\<forall>k \<in> dom wf. in_namespace BASE_TOKEN_ADDRESS k)"
proof -
  obtain r where r: "BASE_TOKEN_ADDRESS = 0 # r" using base_token_address ..
  have outside: "\<not> in_namespace BASE_TOKEN_ADDRESS (namespaced_key [1] [2])"
    unfolding r by (simp add: in_namespace_def namespaced_key_def right_pad_vec_eq)
  obtain c b' where run: "run_transaction (demo_services Release Trap) 50 demo_db
      (demo_tx [1] ''set'' 100000) demo_env demo_block = (Ok c, b')" and c: "return_code c = 0"
    and m: "memory_changeset b' = [namespaced_key [1] [2] \<mapsto> [2]]"
    using run_fee_refused [of "\<lambda>_. []"] unfolding demo_fee_run_def by blast
  have "\<not> is_system_contract (demo_tx [1] ''set'' 100000)" by (simp add: demo_tx_def)
  from transaction_charged [OF run this] obtain mc wf where
      w: "memory_changeset b' = mc ++ wf" "\<forall>k \<in> dom wf. in_namespace BASE_TOKEN_ADDRESS k"
    by (auto simp: empty_block_def)
  have "mc (namespaced_key [1] [2]) = Some [2]"
    using map_add_outside [OF w(2) outside, of mc] m w(1) by simp
  with run c w show ?thesis by blast
qed

section \<open>Blocks\<close>

text \<open>
  A block is the sequence of its transactions: running the transactions \<open>xs @ ys\<close> is running
  \<open>xs\<close> and then \<open>ys\<close> on the changesets, the list and the queues that are left; an error in \<open>xs\<close>
  stops the block.
\<close>

theorem run_all_append:
  "run_all S fuel (xs @ ys) = and_then (run_all S fuel xs) (\<lambda>_. run_all S fuel ys)"
proof (induction xs)
  case Nil
  show ?case by (rule ext) (simp add: rust_simps)
qed (simp add: and_then_assoc)

lemma run_next_completed:
  assumes "run_next S fuel tx b = (Ok (), b')"
  shows "\<exists>c db env b1. run_transaction S fuel db tx env b = (Ok c, b1) \<and>
    b' = b1\<lparr>completed_transactions := completed_transactions b1 @ [c]\<rparr>"
  using assms by (auto simp: run_next_def and_then_eq_Ok_iff unwrap_eq_Ok_iff)

lemma run_transaction_completed:
  assumes "run_transaction S fuel db tx env b = (Ok c, b')"
  shows "transaction.truncate c = tx \<and> completed_transactions b' = completed_transactions b"
  using assms by (cases rule: run_transaction_Ok_cases) simp_all

lemma run_next_truncate:
  assumes "run_next S fuel tx b = (Ok (), b')"
  shows "map transaction.truncate (completed_transactions b') =
    map transaction.truncate (completed_transactions b) @ [tx]"
  using run_next_completed [OF assms] run_transaction_completed by fastforce

text \<open>
  C15: a block that is processed completes each of its transactions exactly once, in order and with
  all its fields, after those completed before.
\<close>

theorem run_all_completes:
  assumes "run_all S fuel txs b = (Ok (), b')"
  shows "map transaction.truncate (completed_transactions b') =
    map transaction.truncate (completed_transactions b) @ txs"
  using assms
proof (induction txs arbitrary: b)
  case (Cons tx txs)
  then obtain b1 where "run_next S fuel tx b = (Ok (), b1)" "run_all S fuel txs b1 = (Ok (), b')"
    by (auto simp: and_then_eq_Ok_iff)
  with Cons.IH run_next_truncate show ?case by fastforce
qed simp

theorem run_all_completes_witness:
  "\<exists>b'. run_all (demo_services Release Trap) 50 [demo_tx [1] ''set'' 100000] demo_block = (Ok (), b') \<and>
     map transaction.truncate (completed_transactions b') = [demo_tx [1] ''set'' 100000]"
proof -
  obtain b' where r: "run_all (demo_services Release Trap) 50 [demo_tx [1] ''set'' 100000] demo_block
      = (Ok (), b')"
    using run_fee_refused [of "\<lambda>_. []"] by (auto simp: run_next_def rust_simps demo_fee_run_def)
  from run_all_completes [OF r] r show ?thesis by (simp add: empty_block_def)
qed

section \<open>The queue of a new block\<close>

text \<open>
  What the two Redis commands do to the lists, given by the view \<open>L\<close> of a state as its lists:
  RPOPLPUSH moves the last element of one list to the front of another and answers nothing (an
  empty vector) for an empty list; LREM with count 0 removes every equal element.
\<close>

definition redis_list_laws ::
  "('mo, 'i, 'a, 'q) services \<Rightarrow> ('q \<Rightarrow> string \<Rightarrow> bytes list) \<Rightarrow> bool" where
  "redis_list_laws S L \<longleftrightarrow>
     (\<forall>source destination q. source \<noteq> destination \<longrightarrow>
        (if L q source = [] then rpoplpush S source destination q = (Some [], q)
         else (\<exists>q'. rpoplpush S source destination q = (Some (last (L q source)), q') \<and>
           L q' = (L q)(source := butlast (L q source),
                        destination := last (L q source) # L q destination)))) \<and>
     (\<forall>key v q. \<exists>q'. lrem S key 0 v q = (True, q') \<and>
        L q' = (L q)(key := filter (\<lambda>x. x \<noteq> v) (L q key)))"

lemma pop_empty:
  assumes "redis_list_laws S L" and "source \<noteq> destination" and "L q source = []"
  shows "rpoplpush S source destination q = (Some [], q)"
  using assms unfolding redis_list_laws_def by presburger

lemma pop_last:
  assumes laws: "redis_list_laws S L" and ne: "source \<noteq> destination" and l: "L q source = xs @ [x]"
  shows "\<exists>q'. rpoplpush S source destination q = (Some x, q') \<and>
    L q' = (L q)(source := xs, destination := x # L q destination)"
proof -
  have "L q source \<noteq> []" using l by simp
  with laws ne have "\<exists>q'. rpoplpush S source destination q = (Some (last (L q source)), q') \<and>
      L q' = (L q)(source := butlast (L q source),
                   destination := last (L q source) # L q destination)"
    unfolding redis_list_laws_def by presburger
  with l show ?thesis by simp
qed

text \<open>The encoded transaction, and when decoding and encoding it again gives the same bytes.\<close>

definition canonical :: "('mo, 'i, 'a, 'q) services \<Rightarrow> bytes \<Rightarrow> transaction \<Rightarrow> bool" where
  "canonical S bs tx \<longleftrightarrow> bs \<noteq> [] \<and> transaction_from_slice S bs = Some tx \<and>
     transaction_to_vec S tx = Some bs"

text \<open>
  In general the processor removes its own encoding of the transaction, \<open>again\<close>, from the list of
  those in progress, which need not be the bytes that it has taken.
\<close>

definition recodes :: "('mo, 'i, 'a, 'q) services \<Rightarrow> bytes \<Rightarrow> transaction \<Rightarrow> bytes \<Rightarrow> bool" where
  "recodes S bs tx again \<longleftrightarrow> bs \<noteq> [] \<and> transaction_from_slice S bs = Some tx \<and>
     transaction_to_vec S tx = Some again"

lemma canonical_recodes: "canonical S bs tx \<longleftrightarrow> recodes S bs tx bs"
  by (simp add: canonical_def recodes_def)

lemma run_transaction_lists:
  assumes laws: "redis_list_laws S L" and code: "transaction_to_vec S tx = Some again"
    and run: "run_transaction S fuel db tx env b = (Ok c, b')"
  shows "L (redis_lists b') = (L (redis_lists b))
    (''transactions::processing'' :=
       filter (\<lambda>x. x \<noteq> again) (L (redis_lists b) ''transactions::processing''))"
proof -
  from laws obtain q' where q': "lrem S ''transactions::processing'' 0 again (redis_lists b) = (True, q')"
      "L q' = (L (redis_lists b))(''transactions::processing'' :=
         filter (\<lambda>x. x \<noteq> again) (L (redis_lists b) ''transactions::processing''))"
    unfolding redis_list_laws_def by blast
  have rm: "remove_from_processing S tx b = (Ok (), b\<lparr>redis_lists := q'\<rparr>)"
    using code q'(1) by (simp add: remove_from_processing_def rust_simps)
  from run show ?thesis
    by (cases rule: run_transaction_Ok_cases) (use rm q'(2) in \<open>auto dest: arg_cong [of _ _ redis_lists]\<close>)
qed

text \<open>The state of the lists during a new block: the queue holds the rest, nothing is in progress.\<close>

definition queue_holds ::
  "('q \<Rightarrow> string \<Rightarrow> bytes list) \<Rightarrow> bytes list \<Rightarrow> 'q block \<Rightarrow> bool" where
  "queue_holds L encoded b \<longleftrightarrow>
     L (redis_lists b) ''transactions::queued'' = rev encoded \<and>
     L (redis_lists b) ''transactions::processing'' = []"

text \<open>The same with transactions in progress.\<close>

definition lists_hold ::
  "('q \<Rightarrow> string \<Rightarrow> bytes list) \<Rightarrow> bytes list \<Rightarrow> bytes list \<Rightarrow> 'q block \<Rightarrow> bool" where
  "lists_hold L encoded busy b \<longleftrightarrow>
     L (redis_lists b) ''transactions::queued'' = rev encoded \<and>
     L (redis_lists b) ''transactions::processing'' = busy"

lemma queue_holds_lists: "queue_holds L encoded b \<longleftrightarrow> lists_hold L encoded [] b"
  by (simp add: queue_holds_def lists_hold_def)

lemma new_block_round_idle:
  assumes "redis_list_laws S L" and "lists_hold L [] busy b"
  shows "new_block_round S fuel b = (Ok (), b)"
proof -
  have "rpoplpush S ''transactions::queued'' ''transactions::processing'' (redis_lists b) =
      (Some [], redis_lists b)"
    using assms(2) by (intro pop_empty [OF assms(1)]) (simp_all add: lists_hold_def)
  then show ?thesis
    by (simp add: new_block_round_def get_next_transaction_def rust_simps)
qed

lemmas new_block_round_empty = new_block_round_idle [of _ _ "[]", folded queue_holds_lists]

text \<open>A round takes the next transaction to the front of those in progress and runs it.\<close>

lemma new_block_round_takes:
  assumes laws: "redis_list_laws S L" and lists: "lists_hold L (bs # encoded) busy b"
    and code: "recodes S bs tx again"
  obtains q where "new_block_round S fuel b = run_next S fuel tx (b\<lparr>redis_lists := q\<rparr>)"
    and "lists_hold L encoded (bs # busy) (b\<lparr>redis_lists := q\<rparr>)"
proof -
  let ?Q = "L (redis_lists b)"
  have ne: "?Q ''transactions::queued'' = rev encoded @ [bs]" "?Q ''transactions::processing'' = busy"
    using lists by (simp_all add: lists_hold_def)
  have "\<exists>q'. rpoplpush S ''transactions::queued'' ''transactions::processing'' (redis_lists b) =
      (Some bs, q') \<and> L q' = ?Q(''transactions::queued'' := rev encoded,
      ''transactions::processing'' := bs # ?Q ''transactions::processing'')"
    using laws ne(1) by (intro pop_last) simp_all
  then obtain q' where q': "rpoplpush S ''transactions::queued''
      ''transactions::processing'' (redis_lists b) = (Some bs, q')"
    and L: "L q' = ?Q(''transactions::queued'' := rev encoded, ''transactions::processing'' := bs # busy)"
    using ne(2) by auto
  have "new_block_round S fuel b = run_next S fuel tx (b\<lparr>redis_lists := q'\<rparr>)"
    using code by (simp add: new_block_round_def get_next_transaction_def rust_simps q' recodes_def)
  then show thesis by (rule that) (simp add: lists_hold_def L)
qed

lemma new_block_round_runs:
  assumes laws: "redis_list_laws S L" and lists: "lists_hold L (bs # encoded) busy b"
    and code: "recodes S bs tx again" and run: "new_block_round S fuel b = (Ok (), b')"
  shows "lists_hold L encoded (filter (\<lambda>x. x \<noteq> again) (bs # busy)) b' \<and>
    map transaction.truncate (completed_transactions b') =
      map transaction.truncate (completed_transactions b) @ [tx]"
proof -
  obtain q where round: "new_block_round S fuel b = run_next S fuel tx (b\<lparr>redis_lists := q\<rparr>)"
    and taken: "lists_hold L encoded (bs # busy) (b\<lparr>redis_lists := q\<rparr>)"
    using laws lists code by (rule new_block_round_takes)
  from run have next_run: "run_next S fuel tx (b\<lparr>redis_lists := q\<rparr>) = (Ok (), b')" by (simp add: round)
  from run_next_completed [OF this] obtain c db env b1 where
      r: "run_transaction S fuel db tx env (b\<lparr>redis_lists := q\<rparr>) = (Ok c, b1)"
    and b': "b' = b1\<lparr>completed_transactions := completed_transactions b1 @ [c]\<rparr>" by blast
  have "transaction_to_vec S tx = Some again" using code by (simp add: recodes_def)
  from run_transaction_lists [OF laws this r] taken
  have "lists_hold L encoded (filter (\<lambda>x. x \<noteq> again) (bs # busy)) b'"
    by (simp add: lists_hold_def b')
  with run_next_truncate [OF next_run] show ?thesis by simp
qed

lemma new_block_round_next:
  assumes "redis_list_laws S L" and "queue_holds L (bs # encoded) b"
    and "canonical S bs tx" and "new_block_round S fuel b = (Ok (), b')"
  shows "queue_holds L encoded b' \<and> map transaction.truncate (completed_transactions b') =
    map transaction.truncate (completed_transactions b) @ [tx]"
  using new_block_round_runs [OF assms(1,2,3,4) [unfolded queue_holds_lists canonical_recodes]]
  by (simp add: queue_holds_lists)

text \<open>
  C16: a new block takes the queued transactions in the order in which they were queued. When the
  loop ends after any number of rounds, the completed transactions are a prefix of that order, the
  queue holds exactly the rest, and the list of transactions in progress is empty again; this needs
  the queued bytes to be the encoding that the processor itself produces.
\<close>

theorem new_block_in_order:
  assumes laws: "redis_list_laws S L"
    and "list_all2 (canonical S) encoded txs" and "queue_holds L encoded b"
    and "run_for clock duration (new_block_round S fuel) rounds n b = (Ok (), b')"
  shows "\<exists>k \<le> length txs. map transaction.truncate (completed_transactions b') =
      map transaction.truncate (completed_transactions b) @ take k txs \<and>
    queue_holds L (drop k encoded) b'"
  using assms(2-)
proof (induction rounds arbitrary: n b encoded txs)
  case (Suc rounds)
  show ?case
  proof (cases "clock n < unat duration")
    case False
    with Suc.prems show ?thesis by (intro exI [of _ 0]) simp
  next
    case True
    with Suc.prems(3) obtain b1 where round: "new_block_round S fuel b = (Ok (), b1)"
      and rest: "run_for clock duration (new_block_round S fuel) rounds (Suc n) b1 = (Ok (), b')"
      by (auto simp: and_then_eq_Ok_iff)
    show ?thesis
    proof (cases encoded)
      case Nil
      with laws Suc.prems(2) round have "b1 = b" by (simp add: new_block_round_empty)
      with Suc.IH [OF Suc.prems(1) _ rest] Suc.prems(2) show ?thesis by simp
    next
      case (Cons bs encoded')
      with Suc.prems(1) obtain tx txs' where t: "txs = tx # txs'" "canonical S bs tx"
          "list_all2 (canonical S) encoded' txs'" by (auto simp: list_all2_Cons1)
      from new_block_round_next [OF laws Suc.prems(2) [unfolded Cons] t(2) round]
      have "queue_holds L encoded' b1" and c: "map transaction.truncate (completed_transactions b1) =
          map transaction.truncate (completed_transactions b) @ [tx]" by auto
      from Suc.IH [OF t(3) this(1) rest] obtain k where "k \<le> length txs'"
          "map transaction.truncate (completed_transactions b') =
             map transaction.truncate (completed_transactions b1) @ take k txs'"
          "queue_holds L (drop k encoded') b'" by blast
      with c t(1) Cons show ?thesis by (intro exI [of _ "Suc k"]) simp
    qed
  qed
qed simp

lemma demo_list_laws: "redis_list_laws (demo_services mode token) (\<lambda>q. q)"
  by (auto simp: redis_list_laws_def demo_rpoplpush_def demo_lrem_def)

definition demo_queue :: demo_lists where
  "demo_queue = (\<lambda>_. [])(''transactions::queued'' := [u64_to_vec 0])"

lemma run_one_round:
  "\<exists>b'. run_for (\<lambda>n. n) 1 (new_block_round (demo_services Release Trap) 50) (Suc (Suc 0)) 0
     (empty_block demo_queue) = (Ok (), b') \<and>
   map transaction.truncate (completed_transactions b') = [demo_tx [1] ''set'' 100000]"
proof -
  let ?q = "(\<lambda>_. [])(''transactions::processing'' := [u64_to_vec 0])"
  have q: "demo_rpoplpush ''transactions::queued'' ''transactions::processing'' demo_queue =
      (Some (u64_to_vec 0), ?q)"
    by (auto simp: demo_rpoplpush_def demo_queue_def)
  have tx: "demo_tx_of_bytes (u64_to_vec 0) = Some (demo_tx [1] ''set'' 100000)"
    by (simp add: demo_tx_of_bytes_def demo_tx_def)
  obtain c b' where r: "run_transaction (demo_services Release Trap) 50 demo_db
      (demo_tx [1] ''set'' 100000) demo_env (empty_block ?q) = (Ok c, b')"
    using run_fee_refused [of ?q] unfolding demo_fee_run_def by blast
  have ran: "completed_transactions b' = []" "transaction.truncate c = demo_tx [1] ''set'' 100000"
    using run_transaction_completed [OF r] by (simp_all add: empty_block_def)
  have "run_for (\<lambda>n. n) 1 (new_block_round (demo_services Release Trap) 50) (Suc (Suc 0)) 0
     (empty_block demo_queue) = (Ok (), b'\<lparr>completed_transactions := [c]\<rparr>)"
    using r q tx ran(1)
    by (simp add: new_block_round_def get_next_transaction_def run_next_def rust_simps
        empty_block_def)
  then show ?thesis using ran(2) by auto
qed

theorem new_block_in_order_witness:
  "\<exists>b'. run_for (\<lambda>n. n) 1 (new_block_round (demo_services Release Trap) 50) (Suc (Suc 0)) 0
     (empty_block demo_queue) = (Ok (), b') \<and>
     map transaction.truncate (completed_transactions b') = [demo_tx [1] ''set'' 100000] \<and>
     redis_lists b' ''transactions::queued'' = []"
proof -
  obtain b' where r: "run_for (\<lambda>n. n) 1 (new_block_round (demo_services Release Trap) 50) (Suc (Suc 0)) 0
     (empty_block demo_queue) = (Ok (), b')"
    and l: "map transaction.truncate (completed_transactions b') = [demo_tx [1] ''set'' 100000]"
    using run_one_round by (elim exE conjE)
  have can: "list_all2 (canonical (demo_services Release Trap)) [u64_to_vec 0]
      [demo_tx [1] ''set'' 100000]"
    by (simp add: canonical_def demo_tx_bytes_def demo_tx_of_bytes_def demo_tx_def)
  have q: "queue_holds (\<lambda>q. q) [u64_to_vec 0] (empty_block demo_queue)"
    by (simp add: queue_holds_def empty_block_def demo_queue_def)
  from new_block_in_order [OF demo_list_laws can q r] obtain k where
      k: "k \<le> 1" "map transaction.truncate (completed_transactions b') =
        take k [demo_tx [1] ''set'' 100000]"
      "queue_holds (\<lambda>q. q) (drop k [u64_to_vec 0]) b'" by (auto simp: empty_block_def)
  with l have "k = 1" by (cases k) auto
  with r k show ?thesis by (simp add: queue_holds_def)
qed

text \<open>
  The loop of a new block ends. It makes at most as many rounds as there are clock readings
  below the duration, so it returns as soon as one reading reaches it, whenever each of its rounds
  returns.
\<close>

lemma run_for_terminates:
  assumes "\<And>b. fst (f b) \<noteq> Timeout" and "unat duration \<le> clock (n + k)" and "k < rounds"
  shows "fst (run_for clock duration f rounds n b) \<noteq> Timeout"
  using assms(2,3)
proof (induction rounds arbitrary: n k b)
  case (Suc rounds)
  show ?case
  proof (cases "clock n < unat duration")
    case True
    with Suc.prems obtain k' where k: "k = Suc k'" by (cases k) auto
    obtain r b1 where f: "f b = (r, b1)" by force
    with assms(1) [of b] have "r \<noteq> Timeout" by auto
    moreover have "fst (run_for clock duration f rounds (Suc n) b1) \<noteq> Timeout"
      using Suc.IH [of "Suc n" k'] Suc.prems k by simp
    ultimately show ?thesis using True f by (cases r) (simp_all add: rust_simps)
  qed simp
qed simp

lemma run_for_four_rounds:
  "fst (run_for (\<lambda>n. 400 * n) 1000 (ret ()) 4 0 demo_block) \<noteq> Timeout"
  by (rule run_for_terminates [where k = 3]) simp_all

section \<open>Failing transactions\<close>

text \<open>
  C19: a transaction that names a function its contract does not export takes the whole block down:
  whatever transactions were completed before it and whatever would come after it, the block
  panics with the interpreter's error. The name is only looked up once the arguments have been copied
  into the contract; if that traps, the transaction is completed with the trap instead, so it is
  assumed that it does not.
\<close>

theorem unknown_function_panics:
  assumes "run_all S (Suc fuel) before b0 = (Ok (), b)"
    and "redis_connect S = Some redis" "env_value S = Some env" "rocksdb_open S = Some db"
    and "\<not> is_system_contract tx"
    and "storage_get (storage_new redis db (storage_changeset b))
      (right_pad_vec (contract_address tx) 64 0) = Inr code" "code \<noteq> []"
    and "new_module_instance (vm_platform S) code = Ok inst"
    and "push_arguments (vm_platform S) (invoke_export (vm_platform S) (Suc fuel)) (arguments tx) []
      (transaction_vm inst tx (memory_new redis (memory_changeset b))
        (storage_new redis db (storage_changeset b)) env) = (Ok (Inr pointers), vm)"
    and "start_export (vm_platform S) (vm_instance vm) (function_name tx) pointers = Inl e"
  shows "fst (run_all S (Suc fuel) (before @ tx # after) b0) = Panic e"
proof -
  have "transaction_run (vm_platform S) (Suc fuel) tx (memory_new redis (memory_changeset b))
      (storage_new redis db (storage_changeset b)) env = Panic e"
    using assms(6-10)
    by (simp add: transaction_run_code call_def rust_simps finish_call_def call_outcome_def)
  then show ?thesis
    using assms(1-5) by (simp add: run_all_append run_next_def run_transaction_def rust_simps)
qed

text \<open>With an argument, which is copied first.\<close>

definition demo_unknown_tx :: transaction where
  "demo_unknown_tx = (demo_tx [1] ''nothing'' 100000)\<lparr>arguments := [Integer 5]\<rparr>"

theorem unknown_function_panics_witness:
  "fst (run_all (demo_services Release Trap) (Suc 2) [demo_unknown_tx] demo_block) =
     Panic ''unknown export''"
proof -
  let ?S = "demo_services Release Trap"
  obtain pointers vm where "push_arguments (vm_platform ?S) (invoke_export (vm_platform ?S) (Suc 2))
      (arguments demo_unknown_tx) []
      (transaction_vm (the (token_modules Trap [1])) demo_unknown_tx
        (memory_new demo_redis (memory_changeset demo_block))
        (storage_new demo_redis demo_db (storage_changeset demo_block)) demo_env) =
      (Ok (Inr pointers), vm)"
    and "start_export (vm_platform ?S) (vm_instance vm) (function_name demo_unknown_tx) pointers =
      Inl ''unknown export''"
    by (simp add: demo_unknown_tx_def processor_data run_demo run_data run_applied)
  from unknown_function_panics [where before = "[]" and after = "[]" and S = ?S and fuel = 2 and
      ?b0.0 = demo_block and b = demo_block and code = "[1]" and redis = demo_redis and
      env = demo_env and db = demo_db, OF _ _ _ _ _ _ _ _ this]
  show ?thesis by (simp add: demo_unknown_tx_def processor_data run_demo run_data)
qed




section \<open>Deployment\<close>

text \<open>
  A deployment always runs the constructor of the code it was given, on a storage in which the code
  is committed already.
\<close>

lemma create_contract_runs_constructor:
  assumes "arguments tx = [Text contract_name, Bytes code, Array args]" and "code \<noteq> []"
    and "get_from_storage storage (right_pad_vec (sender tx @ as_bytes contract_name) 64 0) =
      Inr stored"
    and "new_module_instance P code = Ok inst"
  shows "create_contract P fuel tx memory storage env =
    drop_gas (call_outcome (call P (invoke_export P fuel) ''constructor'' args
      (transaction_vm inst (constructor_transaction tx contract_name args) memory
        (storage_commit (storage_set (right_pad_vec (sender tx @ as_bytes contract_name) 64 0)
           code storage)) env)))"
proof -
  let ?key = "right_pad_vec (sender tx @ as_bytes contract_name) 64 0"
  let ?storage = "storage_commit (storage_set ?key code storage)"
  have "get_from_storage ?storage = get_from_storage storage"
    by (rule get_from_storage_cong) simp_all
  then have "storage_get ?storage ?key = Inr code"
    using assms(3) by (simp add: storage_get_def sto.store_laws)
  then show ?thesis
    using assms(2,4)
    by (simp add: create_contract_args [OF assms(1)] run_constuctor_def transaction_run_def
        constructor_transaction_def)
qed

lemma map_add_again: "m ++ (m ++ w) = m ++ (w :: 'k \<rightharpoonup> 'v)"
  by (simp add: fun_eq_iff map_add_def split: option.split)

lemma storage_commit_set_new:
  "storage_commit (storage_set k v (storage_new r db cs)) = storage_new r db (cs(k \<mapsto> v))"
  by (simp add: storage_op_defs)

text \<open>What a new storage shows of a key in its changeset, if the database can be read.\<close>

lemma storage_get_new_at:
  assumes "cs k = Some code"
  shows "storage_get (storage_new redis db cs) k = Inr code \<or> (\<exists>p. storage_get (storage_new redis db cs) k = Inl p)"
  using assms by (auto simp: storage_get_def storage_op_defs panic_bind_def split: sum.splits)

text \<open>
  C21: what a deployment does to a block, for a constructor that calls no other contract (others may,
  and so may the other functions of the new contract). The code is
  installed at the sender's address extended by the name, whatever was there before. If the
  constructor returns, its writes, all in the namespace of the new contract, are added; if it does
  not (it traps, or its arguments cannot be copied), the contract is deployed all the same, without
  having been set up.
\<close>

theorem deployment_effect:
  assumes "\<And>inst. new_module_instance (vm_platform S) code = Ok inst \<Longrightarrow>
      calls_no_other (vm_platform S) inst ''constructor''"
    and "redis_connect S = Some redis"
    and "is_system_contract tx" and "function_name tx = ''create_contract''"
    and "arguments tx = [Text contract_name, Bytes code, Array args]"
    and "address = sender tx @ as_bytes contract_name"
    and "deployed = (storage_changeset b)(right_pad_vec address 64 0 \<mapsto> code)"
    and "run_transaction S fuel db tx env b = (Ok c, b')"
  shows "(\<exists>wm ws. completes_with (vm_platform S) fuel (constructor_transaction tx contract_name args)
        (memory_new redis (memory_changeset b)) (storage_new redis db deployed) env wm ws \<and>
      memory_changeset b' = memory_changeset b ++ wm \<and> storage_changeset b' = deployed ++ ws \<and>
      (\<forall>k \<in> dom wm \<union> dom ws. in_namespace address k)) \<or>
    ((\<nexists>wm ws. completes_with (vm_platform S) fuel (constructor_transaction tx contract_name args)
        (memory_new redis (memory_changeset b)) (storage_new redis db deployed) env wm ws) \<and>
      memory_changeset b' = memory_changeset b \<and> storage_changeset b' = deployed)"
  using assms(8)
proof (cases rule: run_transaction_Ok_cases)
  case (system r mc sc res q)
  let ?tx = "constructor_transaction tx contract_name args"
  from system(2) assms(2) have r: "r = redis" by simp
  from system(3) obtain gas where run: "transaction_run (vm_platform S) fuel ?tx
      (memory_new redis (memory_changeset b)) (storage_new redis db deployed) env = Ok (mc, sc, res, gas)"
    by (auto simp: r system_run_def assms(4) create_contract_args [OF assms(5)] run_constuctor_def
        storage_commit_set_new assms(6,7) drop_gas_eq_Ok_iff)
  have grown: "memory_changeset b' = memory_changeset b ++ mc" "storage_changeset b' = storage_changeset b ++ sc"
    by (simp_all add: system(6))
  have twice: "storage_changeset b ++ (deployed ++ w) = deployed ++ w" for w
    by (auto simp: assms(7) fun_eq_iff map_add_def split: option.split)
  have "leaf_transaction (vm_platform S) (storage_new redis db deployed) ?tx"
    using assms(1) storage_get_new_at [of deployed "right_pad_vec address 64 0" code redis db]
    by (auto simp: leaf_transaction_def loads_def constructor_transaction_def assms(6,7) split: sum.splits)
  then show ?thesis using run
  proof (cases rule: leaf_transaction_changesets)
    case unchanged
    then show ?thesis
      using twice [of Map.empty] map_add_again [of "memory_changeset b" Map.empty] by (simp add: grown)
  next
    case (committed wm ws)
    then show ?thesis
      by (intro disjI1 exI [of _ wm] exI [of _ ws])
        (simp add: grown twice map_add_again constructor_transaction_def assms(6) del: map_add_assoc)
  qed
next
  case contract
  with assms(3) show ?thesis by simp
qed

text \<open>A deployment whose constructor writes and then traps; another function of the contract calls.\<close>

definition demo_deploy :: transaction where
  "demo_deploy = \<lparr>contract_address = SYSTEM_ADDRESS, sender = [7], nonce = 0, gas_limit = 100000,
     function_name = ''create_contract'', arguments = [Text ''g'', Bytes [1], Array []]\<rparr>"

definition deployed_module :: demo_instance where
  "deployed_module = demo_contract
     [(''constructor'', [Host 7 [I32 0, I32 0], Trap]), (''other'', [Host 11 [I32 0, I32 5, I32 10], Trap])]"

definition deploy_services ::
  "(demo_instance, demo_instance, activation, demo_lists) services" where
  "deploy_services = (demo_services Release Trap)\<lparr>vm_platform :=
     demo_platform Release (\<lambda>code. Some deployed_module)\<rparr>"

lemma run_deploy:
  "\<exists>c b'. run_transaction deploy_services 50 demo_db demo_deploy demo_env demo_block = (Ok c, b') \<and>
     return_code c = 1 \<and> memory_changeset b' = Map.empty"
  by (simp add: deploy_services_def deployed_module_def demo_deploy_def processor_data run_demo run_data
      run_applied is_system_contract_def system_run_def create_contract_def run_constuctor_def
      constructor_transaction_def)

theorem deployment_effect_witness:
  "\<exists>c b' ws. run_transaction deploy_services 50 demo_db demo_deploy demo_env demo_block = (Ok c, b') \<and>
     return_code c = 1 \<and> memory_changeset b' = Map.empty \<and>
     storage_changeset b' = [right_pad_vec [7, 103] 64 0 \<mapsto> [1]] ++ ws"
proof -
  obtain c b' where r: "run_transaction deploy_services 50 demo_db demo_deploy demo_env demo_block = (Ok c, b')"
    "return_code c = 1" "memory_changeset b' = Map.empty"
    using run_deploy by blast
  have sys: "is_system_contract demo_deploy"
    by (simp add: is_system_contract_def demo_deploy_def)
  have leaf: "calls_no_other (vm_platform deploy_services) inst ''constructor''"
    if "new_module_instance (vm_platform deploy_services) [1] = Ok inst" for inst
    using that by (auto simp: deploy_services_def new_module_instance_def deployed_module_def
        demo_contract_def CALL_FUNC_INDEX_def intro!: demo_calls_no_other)
  have "\<exists>ws. storage_changeset b' = [right_pad_vec [7, 103] 64 0 \<mapsto> [1]] ++ ws"
    using deployment_effect [OF leaf _ sys _ _ refl refl r(1), where redis = demo_redis and
        contract_name = "''g''" and code = "[1]" and args = "[]"]
    by (auto simp: demo_deploy_def deploy_services_def empty_block_def as_bytes_def char_of_g
        intro: exI [of _ Map.empty])
  with r show ?thesis by blast
qed

text \<open>
  C22: anything else sent to the system address is free and does nothing: an unknown function, or a
  deployment with other than a text, a byte string and an array as arguments, changes neither
  changeset and is completed with code 0, as if it had succeeded.
\<close>

theorem system_contract_ignores:
  assumes "is_system_contract tx"
    and "function_name tx \<noteq> ''create_contract'' \<or>
      (\<nexists>contract_name code args. arguments tx = [Text contract_name, Bytes code, Array args])"
    and "run_transaction S fuel db tx env b = (Ok c, b')"
  shows "memory_changeset b' = memory_changeset b \<and> storage_changeset b' = storage_changeset b \<and>
    c = complete tx (0, Null)"
proof -
  have run: "system_run (vm_platform S) fuel tx memory storage env =
      Ok (Map.empty, Map.empty, (0, Null))" for memory storage
    using assms(2) by (auto simp: system_run_def create_contract_bad_args)
  from assms(3) show ?thesis
    by (cases rule: run_transaction_Ok_cases) (use run assms(1) in auto)
qed

definition demo_system_tx :: transaction where
  "demo_system_tx = \<lparr>contract_address = SYSTEM_ADDRESS, sender = [7], nonce = 0, gas_limit = 100,
     function_name = ''create'', arguments = []\<rparr>"

theorem system_contract_ignores_witness:
  "\<exists>b'. run_transaction (demo_services Release Trap) 50 demo_db demo_system_tx demo_env demo_block =
     (Ok (complete demo_system_tx (0, Null)), b') \<and> storage_changeset b' = Map.empty"
proof -
  have sys: "is_system_contract demo_system_tx"
    by (simp add: is_system_contract_def demo_system_tx_def)
  then obtain c b' where r: "run_transaction (demo_services Release Trap) 50 demo_db demo_system_tx
      demo_env demo_block = (Ok c, b')"
    by (simp add: run_transaction_def system_run_def remove_from_processing_def rust_simps
        demo_lrem_def demo_tx_bytes_def demo_system_tx_def)
  from system_contract_ignores [OF sys _ r] r show ?thesis
    by (simp add: demo_system_tx_def empty_block_def)
qed

text \<open>
  No error value is left unhandled: the trap values of the virtual machine never leave it, so
  that a transaction of the processor is either completed or panics.
\<close>

lemma run_transaction_not_Err: "fst (run_transaction S fuel db tx env b) \<noteq> Err e"
proof -
  have lift: "never_Err (lift_outcome r)" if "\<And>e. r \<noteq> Err e" for r
    using that by (simp add: never_Err_def)
  have charge: "never_Err (charge_gas S fuel redis tx r)" for redis r
    unfolding charge_gas_def
    by (cases r)
      (auto intro!: never_Err_and_then never_Err_basic lift transfer_not_Err split: prod.split)
  have "never_Err (run_transaction S fuel db tx env)"
    unfolding run_transaction_def remove_from_processing_def
    by (intro never_Err_and_then never_Err_basic)
      (auto intro!: never_Err_and_then never_Err_basic charge lift system_run_not_Err
        transaction_run_not_Err split: prod.split)
  then show ?thesis by (simp add: never_Err_def)
qed

end
