(* ===== verification/Processor_Replay.thy ===== *)
theory Processor_Replay
  imports Processor_Properties
begin

text \<open>
  The two commands of the transaction processor together: a block that one node made out of its
  queue is sent to the others, which run its transactions with \<open>process_existing_block\<close>.
\<close>

section \<open>Nodes\<close>



definition same_effects :: "'q block \<Rightarrow> 'r block \<Rightarrow> bool" where
  "same_effects b c \<longleftrightarrow> memory_changeset c = memory_changeset b \<and>
     storage_changeset c = storage_changeset b \<and>
     completed_transactions c = completed_transactions b"

lemma same_effects_lists [simp]:
  "same_effects (b\<lparr>redis_lists := q\<rparr>) c \<longleftrightarrow> same_effects b c"
  "same_effects b (c\<lparr>redis_lists := r\<rparr>) \<longleftrightarrow> same_effects b c"
  by (simp_all add: same_effects_def)


section \<open>Replaying\<close>












end
