(* ===== verification/Processor_Panics.thy ===== *)
theory Processor_Panics
  imports Processor_Properties
begin

text \<open>
  What is left of a new block when one of its transactions panics: the two Redis lists at that
  moment, and the transactions that were completed but never printed.
\<close>

section \<open>Where a round can panic\<close>

lemma and_then_eq_Panic_iff:
  "and_then m f s = (Panic p, s') \<longleftrightarrow>
     m s = (Panic p, s') \<or> (\<exists>a s1. m s = (Ok a, s1) \<and> f a s1 = (Panic p, s'))"
  by (auto simp: and_then_def split: prod.splits outcome.splits)

lemma pure_charge_gas: "keeps (=) (charge_gas S fuel redis tx r)"
  unfolding charge_gas_def
  by (cases r) (auto intro!: reads.keeps_basic split: prod.split)

text \<open>
  Everything before the removal from the list of the transactions in progress only reads the block,
  and after it nothing can fail.
\<close>

lemma run_transaction_panic:
  assumes laws: "redis_list_laws S L" and code: "transaction_to_vec S tx = Some again"
    and run: "run_transaction S fuel db tx env b = (Panic p, b')"
  shows "b' = b"
proof -
  have removes: "\<exists>q. remove_from_processing S tx c = (Ok (), c\<lparr>redis_lists := q\<rparr>)" for c
  proof -
    obtain q where "lrem S ''transactions::processing'' 0 again (redis_lists c) = (True, q)"
      using laws unfolding redis_list_laws_def by blast
    then show ?thesis using code by (auto simp: remove_from_processing_def rust_simps)
  qed
  define body :: "redis_conn \<Rightarrow> memory \<Rightarrow> storage \<Rightarrow> ('d, system_result) block_op"
    where "body redis memory storage =
      (if is_system_contract tx then
          lift_outcome (system_run (vm_platform S) fuel tx memory storage env)
        else
          and_then (lift_outcome (transaction_run (vm_platform S) fuel tx memory storage env))
            (charge_gas S fuel redis tx))" for redis memory storage
  have body: "keeps (=) (body redis memory storage)" for redis memory storage
    by (simp add: body_def reads.keeps_lift_outcome reads.keeps_and_then pure_charge_gas)
  have rest: "remove_from_processing S tx c \<noteq> (Panic p, c')" for c c'
    using removes [of c] by auto
  from run obtain redis where "body redis (memory_new redis (memory_changeset b))
      (storage_new redis db (storage_changeset b)) b = (Panic p, b') \<or> b' = b"
    unfolding run_transaction_def body_def [symmetric]
    by (auto simp: and_then_eq_Panic_iff rest unwrap_def split: option.splits prod.splits)
  with body show ?thesis by (auto dest: keepsD)
qed

section \<open>The lists after a panic\<close>

text \<open>A round that panics leaves the transaction it took in the list of those in progress.\<close>

lemma new_block_round_panic:
  assumes laws: "redis_list_laws S L" and lists: "lists_hold L (bs # encoded) busy b"
    and code: "recodes S bs tx again" and run: "new_block_round S fuel b = (Panic p, b')"
  shows "lists_hold L encoded (bs # busy) b' \<and> completed_transactions b' = completed_transactions b"
proof -
  obtain q where round: "new_block_round S fuel b = run_next S fuel tx (b\<lparr>redis_lists := q\<rparr>)"
    and taken: "lists_hold L encoded (bs # busy) (b\<lparr>redis_lists := q\<rparr>)"
    using laws lists code by (rule new_block_round_takes)
  have again: "transaction_to_vec S tx = Some again" using code by (simp add: recodes_def)
  from run have "run_next S fuel tx (b\<lparr>redis_lists := q\<rparr>) = (Panic p, b')" by (simp add: round)
  then have "b' = b\<lparr>redis_lists := q\<rparr>"
    by (auto simp: run_next_def and_then_eq_Panic_iff unwrap_def split: option.splits
        dest: run_transaction_panic [OF laws again])
  with taken show ?thesis by simp
qed

text \<open>
  The list of those in progress after some were taken, as the bytes that were queued, and completed,
  when the processor's own encoding of them was removed.
\<close>

fun in_progress :: "(bytes \<times> bytes) list \<Rightarrow> bytes list \<Rightarrow> bytes list" where
  "in_progress [] busy = busy"
| "in_progress ((bs, again) # done) busy = in_progress done (filter (\<lambda>x. x \<noteq> again) (bs # busy))"

text \<open>If both are the same, nothing is left of them; if no encoding is one that was queued, all are left.\<close>

lemma in_progress_same: "in_progress (map (\<lambda>bs. (bs, bs)) queued) busy = filter (\<lambda>x. x \<notin> set queued) busy"
  by (induction queued arbitrary: busy) (simp_all add: conj_commute)

lemma in_progress_other:
  "snd ` set done \<inter> (set busy \<union> fst ` set done) = {} \<Longrightarrow> in_progress done busy = rev (map fst done) @ busy"
proof (induction "done" busy rule: in_progress.induct)
  case (2 bs again "done" busy)
  then have "filter (\<lambda>x. x \<noteq> again) (bs # busy) = bs # busy" by (auto simp: filter_id_conv)
  with 2 show ?case by simp
qed simp

lemma run_for_panic:
  assumes laws: "redis_list_laws S L"
  shows "list_all2 (\<lambda>(bs, again) tx. recodes S bs tx again) queue txs \<Longrightarrow>
    lists_hold L (map fst queue) busy b \<Longrightarrow>
    run_for clock duration (new_block_round S fuel) rounds n b = (Panic p, b') \<Longrightarrow>
    \<exists>k < length queue. map transaction.truncate (completed_transactions b') =
        map transaction.truncate (completed_transactions b) @ take k txs \<and>
      lists_hold L (map fst (drop (Suc k) queue)) (fst (queue ! k) # in_progress (take k queue) busy) b'"
proof (induction rounds arbitrary: n b queue txs busy)
  case (Suc rounds)
  from Suc.prems(3) consider (now) "new_block_round S fuel b = (Panic p, b')"
    | (later) b1 where "new_block_round S fuel b = (Ok (), b1)"
        "run_for clock duration (new_block_round S fuel) rounds (Suc n) b1 = (Panic p, b')"
    by (auto simp: and_then_eq_Panic_iff split: if_splits)
  then show ?case
  proof cases
    case now
    show ?thesis
    proof (cases queue)
      case Nil
      with new_block_round_idle [OF laws] Suc.prems(2) now show ?thesis by fastforce
    next
      case (Cons e rest)
      with Suc.prems(1) obtain tx where "recodes S (fst e) tx (snd e)"
        by (auto simp: list_all2_Cons1 split: prod.splits)
      with new_block_round_panic [OF laws _ _ now] Suc.prems(2) Cons show ?thesis
        by (intro exI [of _ 0]) fastforce
    qed
  next
    case later
    show ?thesis
    proof (cases queue)
      case Nil
      with new_block_round_idle [OF laws] Suc.prems(2) later(1) have "b1 = b" by fastforce
      with Suc.IH [OF Suc.prems(1,2)] later(2) show ?thesis by blast
    next
      case (Cons e rest)
      with Suc.prems(1) obtain tx txs' where t: "txs = tx # txs'" "recodes S (fst e) tx (snd e)"
          "list_all2 (\<lambda>(bs, again) tx. recodes S bs tx again) rest txs'"
        by (auto simp: list_all2_Cons1 split: prod.splits)
      from Suc.prems(2) Cons have "lists_hold L (fst e # map fst rest) busy b" by simp
      from new_block_round_runs [OF laws this t(2) later(1)]
      have "lists_hold L (map fst rest) (filter (\<lambda>x. x \<noteq> snd e) (fst e # busy)) b1"
        and c: "map transaction.truncate (completed_transactions b1) =
          map transaction.truncate (completed_transactions b) @ [tx]" by auto
      from Suc.IH [OF t(3) this(1) later(2)] obtain k where k: "k < length rest"
          "map transaction.truncate (completed_transactions b') =
             map transaction.truncate (completed_transactions b1) @ take k txs'"
          "lists_hold L (map fst (drop (Suc k) rest)) (fst (rest ! k) #
             in_progress (take k rest) (filter (\<lambda>x. x \<noteq> snd e) (fst e # busy))) b'" by blast
      then show ?thesis
        using c t(1) Cons by (cases e) (intro exI [of _ "Suc k"], simp)
    qed
  qed
qed simp

text \<open>
  C18: a panic loses the block. When the loop of a new block panics, the first \<open>k\<close> transactions of the
  queue were completed, in order, and none of them is reported: the block is only printed after the
  loop. They are no longer queued, and the one that panicked is in the list of those in progress, which
  nothing ever reads; only the ones after it are still queued. A completed transaction is taken off
  that list by the encoding that the processor itself makes of it (\<open>in_progress\<close>): if this is not what
  was queued, it stays there as well. The queued bytes have to be encodings of transactions that can
  be encoded again, in whatever form.
\<close>

theorem new_block_panic_loses:
  assumes laws: "redis_list_laws S L"
    and "list_all2 (\<lambda>(bs, again) tx. recodes S bs tx again) queue txs"
    and "L (redis_lists b) ''transactions::queued'' = rev (map fst queue)"
    and "L (redis_lists b) ''transactions::processing'' = busy"
    and "run_for clock duration (new_block_round S fuel) rounds n b = (Panic p, b')"
  shows "\<exists>k < length queue. map transaction.truncate (completed_transactions b') =
      map transaction.truncate (completed_transactions b) @ take k txs \<and>
    L (redis_lists b') ''transactions::queued'' = rev (map fst (drop (Suc k) queue)) \<and>
    L (redis_lists b') ''transactions::processing'' = fst (queue ! k) # in_progress (take k queue) busy"
  using run_for_panic [OF laws assms(2) _ assms(5), of busy] assms(3,4) by (simp add: lists_hold_def)

text \<open>
  A queue with two transactions, of which the second names a function that its contract does not have.
  They are queued in another encoding than the processor's.
\<close>

definition demo_unknown ::
  "(demo_instance, demo_instance, activation, demo_lists) services" where
  "demo_unknown =
     (demo_services Release Trap)\<lparr>transaction_from_slice := (\<lambda>bs.
        if bs = [1] then Some (demo_tx [1] ''set'' 100000)
        else if bs = [2] then Some (demo_tx [1] ''nothing'' 100000) else None)\<rparr>"

definition demo_pair :: demo_lists where
  "demo_pair = (\<lambda>_. [])(''transactions::queued'' := [[2], [1]])"

lemma demo_unknown_simps [simp]:
  "vm_platform demo_unknown = demo_platform Release (token_modules Trap)"
  "redis_connect demo_unknown = Some demo_redis" "rocksdb_open demo_unknown = Some demo_db"
  "env_value demo_unknown = Some demo_env" "transaction_to_vec demo_unknown = demo_tx_bytes"
  "transaction_from_slice demo_unknown [1] = Some (demo_tx [1] ''set'' 100000)"
  "transaction_from_slice demo_unknown [2] = Some (demo_tx [1] ''nothing'' 100000)"
  "rpoplpush demo_unknown = demo_rpoplpush" "lrem demo_unknown = demo_lrem"
  by (simp_all add: demo_unknown_def)

lemma demo_unknown_laws: "redis_list_laws demo_unknown (\<lambda>q. q)"
  by (auto simp: redis_list_laws_def demo_rpoplpush_def demo_lrem_def)

lemma run_set_first:
  "\<exists>c b. run_transaction demo_unknown 50 demo_db (demo_tx [1] ''set'' 100000) demo_env (empty_block q) =
     (Ok c, b) \<and> storage_changeset b = Map.empty"
  by (simp add: processor_data run_demo run_data run_applied)

lemma run_unknown_second:
  assumes "storage_changeset b = Map.empty"
  shows "run_transaction demo_unknown 50 demo_db (demo_tx [1] ''nothing'' 100000) demo_env b =
    (Panic ''unknown export'', b)"
  by (simp add: assms processor_data run_demo run_data run_applied)

lemma demo_recodes:
  "recodes demo_unknown [1] (demo_tx [1] ''set'' 100000) (u64_to_vec 0)"
  "recodes demo_unknown [2] (demo_tx [1] ''nothing'' 100000) (u64_to_vec 0)"
  by (simp_all add: recodes_def demo_tx_bytes_def demo_tx_def)

lemma run_unknown:
  "\<exists>b. run_for (\<lambda>n. n) 2 (new_block_round demo_unknown 50) (Suc (Suc 0)) 0 (empty_block demo_pair) =
     (Panic ''unknown export'', b) \<and> length (completed_transactions b) = 1"
proof -
  have start: "lists_hold (\<lambda>q. q) [[1], [2]] [] (empty_block demo_pair)"
    by (simp add: lists_hold_def empty_block_def demo_pair_def)
  obtain q where 1: "new_block_round demo_unknown 50 (empty_block demo_pair) =
      run_next demo_unknown 50 (demo_tx [1] ''set'' 100000) ((empty_block demo_pair)\<lparr>redis_lists := q\<rparr>)"
    by (rule new_block_round_takes [OF demo_unknown_laws start demo_recodes(1)])
  have "(empty_block demo_pair)\<lparr>redis_lists := q\<rparr> = empty_block q" by (simp add: empty_block_def)
  with run_set_first [of q] 1 obtain b1 where
      b1: "new_block_round demo_unknown 50 (empty_block demo_pair) = (Ok (), b1)"
    and empty: "storage_changeset b1 = Map.empty"
    by (auto simp: run_next_def rust_simps)
  from new_block_round_runs [OF demo_unknown_laws start demo_recodes(1) b1]
  obtain busy where lists: "lists_hold (\<lambda>q. q) [[2]] busy b1"
    and "map transaction.truncate (completed_transactions b1) = [demo_tx [1] ''set'' 100000]"
    by (auto simp: empty_block_def)
  then have one: "length (completed_transactions b1) = 1" by (auto dest: arg_cong [of _ _ length])
  from lists obtain q' where "new_block_round demo_unknown 50 b1 =
      run_next demo_unknown 50 (demo_tx [1] ''nothing'' 100000) (b1\<lparr>redis_lists := q'\<rparr>)"
    by (rule new_block_round_takes [OF demo_unknown_laws _ demo_recodes(2)])
  with empty have "new_block_round demo_unknown 50 b1 = (Panic ''unknown export'', b1\<lparr>redis_lists := q'\<rparr>)"
    by (simp add: run_next_def rust_simps run_unknown_second)
  with b1 one show ?thesis by (simp add: rust_simps)
qed

theorem new_block_panic_loses_witness:
  "\<exists>b. run_for (\<lambda>n. n) 2 (new_block_round demo_unknown 50) (Suc (Suc 0)) 0 (empty_block demo_pair) =
     (Panic ''unknown export'', b) \<and>
   redis_lists b ''transactions::queued'' = [] \<and>
   redis_lists b ''transactions::processing'' = [[2], [1]]"
proof -
  obtain b where r: "run_for (\<lambda>n. n) 2 (new_block_round demo_unknown 50) (Suc (Suc 0)) 0
      (empty_block demo_pair) = (Panic ''unknown export'', b)"
    and one: "length (completed_transactions b) = 1"
    using run_unknown by blast
  have "length (u64_to_vec 0) = 8" by simp
  then have other: "u64_to_vec 0 \<noteq> [1]" by fastforce
  have "list_all2 (\<lambda>(bs, again) tx. recodes demo_unknown bs tx again)
      [([1], u64_to_vec 0), ([2], u64_to_vec 0)] [demo_tx [1] ''set'' 100000, demo_tx [1] ''nothing'' 100000]"
    using demo_recodes by simp
  from new_block_panic_loses [OF demo_unknown_laws this _ _ r] obtain k where "k < Suc (Suc 0)"
      "map transaction.truncate (completed_transactions b) =
        take k [demo_tx [1] ''set'' 100000, demo_tx [1] ''nothing'' 100000]"
      "redis_lists b ''transactions::queued'' = rev (map fst (drop (Suc k) [([1], u64_to_vec 0), ([2], u64_to_vec 0)]))"
      "redis_lists b ''transactions::processing'' =
        fst ([([1], u64_to_vec 0), ([2], u64_to_vec 0)] ! k) #
          in_progress (take k [([1], u64_to_vec 0), ([2], u64_to_vec 0)]) []"
    by (auto simp: empty_block_def demo_pair_def)
  moreover from this(2) one have "k = 1" using calculation(1) by (auto simp: less_Suc_eq dest: arg_cong [of _ _ length])
  ultimately show ?thesis using r other by simp
qed

end
