(* ===== verification/Hashfactor.thy ===== *)
theory Hashfactor
  imports Prelude
begin

text \<open>
  native/hashfactor/src/main.rs: the proof of work of a block. Starting from a random nonce, the
  miner searches for the first one for which the hash of the block's hash and the nonce, read as a
  little-endian 64-bit number from its first eight bytes, is a multiple of the target plus one.
  \<open>valid_nonce\<close> is the check a receiving node makes (\<open>valid_nonce?\<close> in lib/hashfactor.ex).

  SHA-256, the two conversions of \<open>BigUint\<close>, base64 and the random generator are not under src/: they
  are the record \<open>hasher\<close>.
\<close>

record hasher =
  sha256 :: "bytes \<Rightarrow> bytes"
  big_to_bytes_le :: "nat \<Rightarrow> bytes"
  big_from_bytes_le :: "bytes \<Rightarrow> nat"
  gen_range :: "u64 \<Rightarrow> u64 \<Rightarrow> u64"
  base64_decode_line :: "string \<Rightarrow> bytes option"

definition NUMERATOR_BYTE_LENGTH :: nat where
  "NUMERATOR_BYTE_LENGTH = 8"

text \<open>\<open>BigUint::to_u64\<close> answers nothing above 64 bits.\<close>

definition to_u64 :: "nat \<Rightarrow> u64 option" where
  "to_u64 n = (if n < 2 ^ 64 then Some (word_of_nat n) else None)"

definition first_bytes_as_u64 :: "hasher \<Rightarrow> bytes \<Rightarrow> u64 may_panic" where
  "first_bytes_as_u64 H hash =
     (if length hash < NUMERATOR_BYTE_LENGTH then Inl ''index out of range for slice''
      else case to_u64 (big_from_bytes_le H (take NUMERATOR_BYTE_LENGTH hash)) of
             None \<Rightarrow> Inl unwrap_none_msg
           | Some n \<Rightarrow> Inr n)"

definition is_factor_of :: "u64 \<Rightarrow> u64 \<Rightarrow> bool may_panic" where
  "is_factor_of numerator denominator =
     (if denominator = 0 then Inl ''attempt to calculate the remainder with a divisor of zero''
      else Inr (numerator mod denominator = 0))"

definition hash_with_nonce :: "hasher \<Rightarrow> u64 \<Rightarrow> bytes \<Rightarrow> bytes" where
  "hash_with_nonce H nonce data = sha256 H (concat [data, big_to_bytes_le H (unat nonce)])"

text \<open>One round: is the nonce found?\<close>

definition try_nonce :: "hasher \<Rightarrow> build_mode \<Rightarrow> bytes \<Rightarrow> u64 \<Rightarrow> u64 \<Rightarrow> bool may_panic" where
  "try_nonce H mode data_hash target nonce =
     panic_bind (first_bytes_as_u64 H (hash_with_nonce H nonce data_hash)) (\<lambda>v.
     panic_bind (add_u64 mode target 1) (\<lambda>denominator. is_factor_of v denominator))"

fun search :: "hasher \<Rightarrow> build_mode \<Rightarrow> bytes \<Rightarrow> u64 \<Rightarrow> nat \<Rightarrow> u64 \<Rightarrow> (unit, u64) outcome" where
  "search H mode data_hash target 0 nonce = Timeout"
| "search H mode data_hash target (Suc fuel) nonce =
     (case try_nonce H mode data_hash target nonce of
        Inl p \<Rightarrow> Panic p
      | Inr found \<Rightarrow>
          if found then Ok nonce
          else case add_u64 mode nonce 1 of
                 Inl p \<Rightarrow> Panic p
               | Inr nonce' \<Rightarrow> search H mode data_hash target fuel nonce')"

text \<open>\<open>gen_range(0, n)\<close> panics on an empty range.\<close>

definition hashfactor ::
  "hasher \<Rightarrow> build_mode \<Rightarrow> nat \<Rightarrow> bytes \<Rightarrow> u64 \<Rightarrow> (unit, u64) outcome" where
  "hashfactor H mode fuel data target =
     (if target = 0 then Panic ''Uniform::sample_single called with low >= high''
      else search H mode (sha256 H data) target fuel (gen_range H 0 target))"

definition hashfactor_main ::
  "hasher \<Rightarrow> build_mode \<Rightarrow> nat \<Rightarrow> u64 \<Rightarrow> string \<Rightarrow> (unit, u64) outcome" where
  "hashfactor_main H mode fuel target line =
     (case base64_decode_line H (rev (dropWhile (\<lambda>c. c = CHR 0x0A) (rev line))) of
        None \<Rightarrow> Panic unwrap_err_msg
      | Some data \<Rightarrow> hashfactor H mode fuel data target)"

section \<open>The verifier\<close>

definition valid_nonce :: "hasher \<Rightarrow> u64 \<Rightarrow> bytes \<Rightarrow> nat \<Rightarrow> bool" where
  "valid_nonce H target data nonce \<longleftrightarrow>
     big_from_bytes_le H (take 8 (sha256 H (sha256 H data @ big_to_bytes_le H nonce)))
       mod (unat target + 1) = 0"

text \<open>What the code relies on: the hash has at least 8 bytes, and 8 bytes fit 64 bits.\<close>

definition hasher_laws :: "hasher \<Rightarrow> bool" where
  "hasher_laws H \<longleftrightarrow> (\<forall>m. 8 \<le> length (sha256 H m)) \<and>
     (\<forall>bs. length bs = 8 \<longrightarrow> big_from_bytes_le H bs < 2 ^ 64)"

lemma add_one:
  "add_u64 mode a 1 =
     (if unat a + 1 < 2 ^ 64 \<or> mode = Release then Inr (a + 1)
      else Inl ''attempt to add with overflow'')"
proof -
  have "uint a + uint (1 :: u64) = int (unat a + 1)" by simp
  then have "uint a + uint (1 :: u64) < 2 ^ 64 \<longleftrightarrow> unat a + 1 < 2 ^ 64"
    by (metis of_nat_less_iff of_nat_numeral of_nat_power)
  then show ?thesis by (simp add: add_u64_def overflow_check_def)
qed

lemma unat_add_one: "unat (a :: u64) + 1 < 2 ^ 64 \<Longrightarrow> unat (a + 1) = unat a + 1"
  by (simp add: unat_word_ariths)

lemma not_max_iff: "(target :: u64) \<noteq> - 1 \<longleftrightarrow> unat target + 1 < 2 ^ 64"
proof
  assume ne: "target \<noteq> - 1"
  have "unat target \<noteq> 2 ^ 64 - 1"
  proof
    assume "unat target = 2 ^ 64 - 1"
    then have "unat target = unat (- 1 :: u64)"
      by (simp add: unsigned_minus_1_eq_mask mask_eq_exp_minus_1)
    then have "target = - 1" by (simp only: word_unat_eq_iff)
    with ne show False ..
  qed
  moreover have "unat target < 2 ^ 64" using unsigned_less [of target] by simp
  ultimately show "unat target + 1 < 2 ^ 64" by linarith
qed (auto simp: unsigned_minus_1_eq_mask mask_eq_exp_minus_1)

text \<open>A round of the miner is the check of the verifier.\<close>

lemma try_nonce_valid:
  assumes laws: "hasher_laws H" and "target \<noteq> - 1"
  shows "try_nonce H mode (sha256 H data) target nonce = Inr (valid_nonce H target data (unat nonce))"
proof -
  let ?hash = "hash_with_nonce H nonce (sha256 H data)"
  let ?n = "big_from_bytes_le H (take 8 ?hash)"
  have len: "8 \<le> length ?hash" using laws by (simp add: hasher_laws_def hash_with_nonce_def)
  with laws have n: "?n < 2 ^ 64" unfolding hasher_laws_def by simp
  with len have "first_bytes_as_u64 H ?hash = Inr (word_of_nat ?n)"
    by (simp add: first_bytes_as_u64_def NUMERATOR_BYTE_LENGTH_def to_u64_def not_less)
  moreover have t: "unat target + 1 < 2 ^ 64" using assms(2) by (simp add: not_max_iff)
  then have "add_u64 mode target 1 = Inr (target + 1)" "unat (target + 1) = unat target + 1"
    unfolding add_one using unat_add_one [of target] by simp_all
  moreover have "target + 1 \<noteq> 0" using \<open>unat (target + 1) = unat target + 1\<close>
    by (metis Suc_eq_plus1 nat.distinct(1) unsigned_0)
  moreover have "(word_of_nat ?n :: u64) mod (target + 1) = 0 \<longleftrightarrow> ?n mod (unat target + 1) = 0"
    using n \<open>unat (target + 1) = unat target + 1\<close>
    by (simp add: word_unat_eq_iff unat_mod_distrib unat_of_nat)
  ultimately show ?thesis
    by (simp add: try_nonce_def is_factor_of_def valid_nonce_def hash_with_nonce_def)
qed

text \<open>Whatever the search returns is the first valid nonce from its start on, counted modulo \<open>2 ^ 64\<close>.\<close>

lemma search_Ok:
  assumes laws: "hasher_laws H" and target: "target \<noteq> - 1"
    and run: "search H mode (sha256 H data) target fuel nonce = Ok n"
  shows "\<exists>d < fuel. n = nonce + word_of_nat d \<and> valid_nonce H target data (unat n) \<and>
    (\<forall>j < d. \<not> valid_nonce H target data (unat (nonce + word_of_nat j)))"
  using run
proof (induction fuel arbitrary: nonce)
  case (Suc fuel)
  show ?case
  proof (cases "valid_nonce H target data (unat nonce)")
    case True
    with Suc.prems have "n = nonce" by (simp add: try_nonce_valid [OF laws target])
    with True show ?thesis by (intro exI [of _ 0]) simp
  next
    case False
    with Suc.prems have "search H mode (sha256 H data) target fuel (nonce + 1) = Ok n"
      by (simp add: try_nonce_valid [OF laws target] add_one split: if_splits)
    from Suc.IH [OF this] obtain d where d: "d < fuel" "n = nonce + 1 + word_of_nat d"
      "valid_nonce H target data (unat n)"
      "\<forall>j < d. \<not> valid_nonce H target data (unat (nonce + 1 + word_of_nat j))" by blast
    have "\<not> valid_nonce H target data (unat (nonce + word_of_nat j))" if "j < Suc d" for j
      using that False d(4) by (cases j) (simp_all add: algebra_simps)
    with d show ?thesis by (intro exI [of _ "Suc d"]) (simp add: algebra_simps)
  qed
qed simp

text \<open>More fuel only turns a timeout into a result.\<close>

lemma search_mono: "mono (\<lambda>fuel. search H mode data_hash target fuel nonce)"
proof (rule fuel_mono_Suc)
  show "search H mode data_hash target fuel nonce \<le> search H mode data_hash target (Suc fuel) nonce"
    for fuel
  proof (induction fuel arbitrary: nonce)
    case (Suc fuel)
    then show ?case
      by (auto intro!: outcome_leI dest: outcome_leD split: sum.splits)
  qed (simp add: outcome_leI)
qed

lemma hashfactor_mono: "mono (\<lambda>fuel. hashfactor H mode fuel data target)"
  using search_mono [of H mode] by (simp add: hashfactor_def mono_def)

lemma search_returns:
  assumes laws: "hasher_laws H" and target: "target \<noteq> - 1"
    and "valid_nonce H target data (unat nonce + d)" and "unat nonce + d < 2 ^ 64" and "d < fuel"
  shows "\<exists>n. search H mode (sha256 H data) target fuel nonce = Ok n"
  using assms(3-)
proof (induction fuel arbitrary: nonce d)
  case (Suc fuel)
  show ?case
  proof (cases "valid_nonce H target data (unat nonce)")
    case False
    with Suc.prems obtain d' where d: "d = Suc d'" by (cases d) auto
    with Suc.prems have "unat nonce + 1 < 2 ^ 64" by simp
    moreover from this have "unat (nonce + 1) = unat nonce + 1" by (rule unat_add_one)
    ultimately show ?thesis
      using Suc.IH [of "nonce + 1" d'] Suc.prems d False
      by (simp add: try_nonce_valid [OF laws target] add_one)
  qed (simp add: try_nonce_valid [OF laws target])
qed simp

section \<open>Properties\<close>

text \<open>A concrete hasher: eight bytes of which the last is the length; numbers in unary.\<close>

definition demo_hasher :: hasher where
  "demo_hasher = \<lparr>sha256 = (\<lambda>m. [0, 0, 0, 0, 0, 0, 0, word_of_nat (length m)]),
     big_to_bytes_le = (\<lambda>n. replicate n 0), big_from_bytes_le = (\<lambda>bs. unat (last bs)),
     gen_range = (\<lambda>low high. 0), base64_decode_line = Some \<circ> as_bytes\<rparr>"

lemma demo_hasher_laws: "hasher_laws demo_hasher"
proof -
  have "unat (b :: u8) < 2 ^ 64" for b
    by (rule order_less_trans [OF unsigned_less]) simp
  then show ?thesis by (simp add: hasher_laws_def demo_hasher_def)
qed

lemma demo_valid: "valid_nonce demo_hasher 9 [] 2" "valid_nonce demo_hasher 9 [] (Suc (Suc 0))"
  by (simp_all add: valid_nonce_def demo_hasher_def)

text \<open>
  C23: the proof of work that the miner prints is one that every node accepts, and it is the first
  such nonce from the random start on (counted modulo \<open>2 ^ 64\<close>), in both builds.
\<close>

theorem hashfactor_valid:
  assumes "hasher_laws H" and "target \<noteq> - 1" and "hashfactor H mode fuel data target = Ok n"
  shows "valid_nonce H target data (unat n) \<and>
    (\<exists>d. n = gen_range H 0 target + word_of_nat d \<and>
      (\<forall>j < d. \<not> valid_nonce H target data (unat (gen_range H 0 target + word_of_nat j))))"
proof -
  have "search H mode (sha256 H data) target fuel (gen_range H 0 target) = Ok n"
    using assms(3) by (simp add: hashfactor_def split: if_splits)
  from search_Ok [OF assms(1,2) this] show ?thesis by blast
qed

theorem hashfactor_valid_witness:
  "\<exists>n. hashfactor demo_hasher Debug 10 [] 9 = Ok n \<and> valid_nonce demo_hasher 9 [] (unat n)"
proof -
  have "\<exists>n. search demo_hasher Debug (sha256 demo_hasher []) 9 10 0 = Ok n"
    by (rule search_returns [OF demo_hasher_laws, where d = 2]) (simp_all add: demo_valid)
  then obtain n where n: "hashfactor demo_hasher Debug 10 [] 9 = Ok n"
    by (auto simp: hashfactor_def demo_hasher_def)
  from hashfactor_valid [OF demo_hasher_laws _ n] n show ?thesis by simp
qed

text \<open>
  C24: the search ends. If some nonce from the start on, below \<open>2 ^ 64\<close>, is valid, the miner returns
  a nonce after at most as many rounds as that one is away, the same for every larger number of
  rounds it is allowed.
\<close>

theorem hashfactor_terminates:
  assumes "hasher_laws H" and "target \<noteq> 0" and "target \<noteq> - 1"
    and "valid_nonce H target data (unat (gen_range H 0 target) + d)"
    and "unat (gen_range H 0 target) + d < 2 ^ 64"
  shows "\<exists>n. \<forall>fuel > d. hashfactor H mode fuel data target = Ok n"
proof -
  obtain n where n: "hashfactor H mode (Suc d) data target = Ok n"
    using search_returns [OF assms(1,3-5) lessI] assms(2) by (auto simp: hashfactor_def)
  have "hashfactor H mode fuel data target = Ok n" if "d < fuel" for fuel
    using monoD [OF hashfactor_mono, of "Suc d" fuel H mode data target] that n
    by (auto dest: outcome_leD)
  then show ?thesis by blast
qed

theorem hashfactor_terminates_witness:
  "\<exists>n. hashfactor demo_hasher Release 100 [] 9 = Ok n"
proof -
  have "gen_range demo_hasher 0 9 = 0" by (simp add: demo_hasher_def)
  then have "\<exists>n. \<forall>fuel > 2. hashfactor demo_hasher Release fuel [] 9 = Ok n"
    using hashfactor_terminates [OF demo_hasher_laws, of 9 "[]" 2 Release] demo_valid by simp
  then show ?thesis by auto
qed

text \<open>
  Two targets make every run panic, in both builds: zero, for which there is no random start,
  and the largest one, whose successor is no 64-bit number (a debug build stops at the overflow, a
  release build at the division by zero).
\<close>

lemma hashfactor_bad_targets:
  assumes "hasher_laws H" and "target = 0 \<or> target = - 1"
  shows "\<exists>p. hashfactor H mode (Suc fuel) data target = Panic p"
proof -
  have "\<exists>p. try_nonce H mode data_hash (- 1) nonce = Inl p" for data_hash nonce
    by (cases "first_bytes_as_u64 H (hash_with_nonce H nonce data_hash)")
      (auto simp: try_nonce_def add_u64_def overflow_check_def is_factor_of_def)
  then obtain p where "try_nonce H mode (sha256 H data) (- 1) (gen_range H 0 (- 1)) = Inl p" by blast
  then show ?thesis using assms(2) by (auto simp: hashfactor_def)
qed

lemma hashfactor_target_max:
  "\<exists>p. hashfactor demo_hasher Release (Suc 5) [1] (- 1) = Panic p"
  by (rule hashfactor_bad_targets [OF demo_hasher_laws]) simp

end
