(* ===== verification/Hashfactor_Watch.thy ===== *)
theory Hashfactor_Watch
  imports Hashfactor
begin

text \<open>
  The miner as a process of two threads: the search, and the thread of \<open>exit_on_close\<close> that reads one
  more line from the standard input and ends the process when there is none. The node closes the
  input of a miner whose block is no longer wanted.
\<close>

section \<open>Two threads and an input\<close>

text \<open>\<open>read_line\<close> on the lines that are there: it blocks (\<open>None\<close>) while the input is open and empty.\<close>

definition read_line :: "bytes list \<Rightarrow> bool \<Rightarrow> (nat may_panic \<times> bytes list) option" where
  "read_line pending closed =
     (case pending of
        line # rest \<Rightarrow>
          Some (if utf8_valid line then Inr (length line) else Inl unwrap_err_msg, rest)
      | [] \<Rightarrow> if closed then Some (Inr 0, []) else None)"

text \<open>What the thread does with the number of bytes read: the exit code, if it ends the process.\<close>

definition exit_on_close :: "nat may_panic \<Rightarrow> nat option may_panic" where
  "exit_on_close read = panic_bind read (\<lambda>bytes. Inr (if bytes = 0 then Some 0 else None))"

datatype miner_status = Mining u64 | Printed u64 | Exited nat | Aborted string

record miner =
  status :: miner_status
  watching :: bool
  pending :: "bytes list"
  closed :: bool

text \<open>
  The steps of the two threads in any order, and those of the node at the other end of the input. A
  thread that panics ends alone, the main one with its process.
\<close>

inductive miner_step :: "hasher \<Rightarrow> build_mode \<Rightarrow> bytes \<Rightarrow> u64 \<Rightarrow> miner \<Rightarrow> miner \<Rightarrow> bool"
  for H mode data_hash target where
  mine_found: "status m = Mining n \<Longrightarrow> try_nonce H mode data_hash target n = Inr True \<Longrightarrow>
     miner_step H mode data_hash target m (m\<lparr>status := Printed n\<rparr>)"
| mine_next: "status m = Mining n \<Longrightarrow> try_nonce H mode data_hash target n = Inr False \<Longrightarrow>
     add_u64 mode n 1 = Inr n' \<Longrightarrow>
     miner_step H mode data_hash target m (m\<lparr>status := Mining n'\<rparr>)"
| mine_panic: "status m = Mining n \<Longrightarrow> try_nonce H mode data_hash target n = Inl p \<Longrightarrow>
     miner_step H mode data_hash target m (m\<lparr>status := Aborted p\<rparr>)"
| mine_overflow: "status m = Mining n \<Longrightarrow> try_nonce H mode data_hash target n = Inr False \<Longrightarrow>
     add_u64 mode n 1 = Inl p \<Longrightarrow>
     miner_step H mode data_hash target m (m\<lparr>status := Aborted p\<rparr>)"
| watch_exit: "status m = Mining n \<Longrightarrow> watching m \<Longrightarrow>
     read_line (pending m) (closed m) = Some (read, rest) \<Longrightarrow> exit_on_close read = Inr (Some code) \<Longrightarrow>
     miner_step H mode data_hash target m (m\<lparr>status := Exited code\<rparr>)"
| watch_end: "status m = Mining n \<Longrightarrow> watching m \<Longrightarrow>
     read_line (pending m) (closed m) = Some (read, rest) \<Longrightarrow> exit_on_close read = Inr None \<Longrightarrow>
     miner_step H mode data_hash target m (m\<lparr>watching := False, pending := rest\<rparr>)"
| watch_panic: "status m = Mining n \<Longrightarrow> watching m \<Longrightarrow>
     read_line (pending m) (closed m) = Some (read, rest) \<Longrightarrow> exit_on_close read = Inl p \<Longrightarrow>
     miner_step H mode data_hash target m (m\<lparr>watching := False, pending := rest\<rparr>)"
| node_writes: "\<not> closed m \<Longrightarrow> line \<noteq> [] \<Longrightarrow>
     miner_step H mode data_hash target m (m\<lparr>pending := pending m @ [line]\<rparr>)"
| node_closes: "\<not> closed m \<Longrightarrow>
     miner_step H mode data_hash target m (m\<lparr>closed := True\<rparr>)"

text \<open>After the first line was read and the thread was started.\<close>

definition miner_start :: "hasher \<Rightarrow> u64 \<Rightarrow> miner" where
  "miner_start H target =
     \<lparr>status = Mining (gen_range H 0 target), watching = True, pending = [], closed = False\<rparr>"

inductive miner_reachable :: "hasher \<Rightarrow> build_mode \<Rightarrow> bytes \<Rightarrow> u64 \<Rightarrow> miner \<Rightarrow> bool"
  for H mode data target where
  miner_reach_start: "target \<noteq> 0 \<Longrightarrow> miner_reachable H mode data target (miner_start H target)"
| miner_reach_step: "miner_reachable H mode data target m \<Longrightarrow>
     miner_step H mode (sha256 H data) target m m' \<Longrightarrow> miner_reachable H mode data target m'"

inductive_cases miner_step_cases: "miner_step H mode data_hash target m m'"

section \<open>The invariant\<close>

text \<open>
  The search thread is a run of \<open>search\<close> that the other thread does not disturb; lines are never
  empty, so the process ends itself only when its input is closed.
\<close>

definition miner_invariant :: "hasher \<Rightarrow> build_mode \<Rightarrow> bytes \<Rightarrow> u64 \<Rightarrow> miner \<Rightarrow> bool" where
  "miner_invariant H mode data target m \<longleftrightarrow> (\<forall>line \<in> set (pending m). line \<noteq> []) \<and>
     (case status m of
        Mining n \<Rightarrow> (\<exists>d. \<forall>fuel. hashfactor H mode (d + fuel) data target =
          search H mode (sha256 H data) target fuel n)
      | Printed n \<Rightarrow> (\<exists>fuel. hashfactor H mode fuel data target = Ok n)
      | Exited code \<Rightarrow> code = 0 \<and> closed m \<and> watching m
      | Aborted p \<Rightarrow> (\<exists>fuel. hashfactor H mode fuel data target = Panic p))"

lemma exit_on_close_iff:
  assumes "\<forall>line \<in> set lines. line \<noteq> []" and "read_line lines is_closed = Some (read, rest)"
  shows "exit_on_close read = Inr (Some code) \<longleftrightarrow> code = 0 \<and> lines = [] \<and> is_closed"
    and "set rest \<subseteq> set lines"
  using assms by (auto simp: read_line_def exit_on_close_def split: list.splits if_splits)

lemma miner_step_invariant:
  assumes "miner_step H mode (sha256 H data) target m m'" and "miner_invariant H mode data target m"
  shows "miner_invariant H mode data target m'"
  using assms(1)
proof cases
  case (mine_found n)
  with assms(2) obtain d where "\<forall>fuel. hashfactor H mode (d + fuel) data target =
      search H mode (sha256 H data) target fuel n" by (auto simp: miner_invariant_def)
  from spec [OF this, of "Suc 0"] mine_found assms(2) show ?thesis
    by (auto simp: miner_invariant_def)
next
  case (mine_next n n')
  with assms(2) obtain d where d: "\<forall>fuel. hashfactor H mode (d + fuel) data target =
      search H mode (sha256 H data) target fuel n" by (auto simp: miner_invariant_def)
  have "hashfactor H mode (Suc d + fuel) data target = search H mode (sha256 H data) target fuel n'" for fuel
    using spec [OF d, of "Suc fuel"] mine_next by simp
  then have "\<exists>d. \<forall>fuel. hashfactor H mode (d + fuel) data target =
      search H mode (sha256 H data) target fuel n'" by blast
  then show ?thesis using mine_next assms(2) by (simp add: miner_invariant_def)
next
  case (mine_panic n p)
  with assms(2) obtain d where "\<forall>fuel. hashfactor H mode (d + fuel) data target =
      search H mode (sha256 H data) target fuel n" by (auto simp: miner_invariant_def)
  from spec [OF this, of "Suc 0"] mine_panic assms(2) show ?thesis
    by (auto simp: miner_invariant_def)
next
  case (mine_overflow n p)
  with assms(2) obtain d where "\<forall>fuel. hashfactor H mode (d + fuel) data target =
      search H mode (sha256 H data) target fuel n" by (auto simp: miner_invariant_def)
  from spec [OF this, of "Suc 0"] mine_overflow assms(2) show ?thesis
    by (auto simp: miner_invariant_def)
next
  case (watch_exit n read rest code)
  with assms(2) exit_on_close_iff(1) [of "pending m" "closed m" read rest code] show ?thesis
    by (simp add: miner_invariant_def)
next
  case (watch_end n read rest)
  with assms(2) exit_on_close_iff(2) [of "pending m" "closed m" read rest] show ?thesis
    by (auto simp: miner_invariant_def)
next
  case (watch_panic n read rest p)
  with assms(2) exit_on_close_iff(2) [of "pending m" "closed m" read rest] show ?thesis
    by (auto simp: miner_invariant_def)
qed (use assms(2) in \<open>auto simp: miner_invariant_def split: miner_status.splits\<close>)

lemma miner_reachable_invariant:
  "miner_reachable H mode data target m \<Longrightarrow> miner_invariant H mode data target m"
proof (induction rule: miner_reachable.induct)
  case miner_reach_start
  then show ?case
    by (auto simp: miner_invariant_def miner_start_def hashfactor_def intro: exI [of _ 0])
qed (rule miner_step_invariant)

text \<open>A thread that has ended stays ended, and so does the process.\<close>

lemma miner_step_not_watching:
  "miner_step H mode data_hash target m m' \<Longrightarrow> \<not> watching m \<Longrightarrow> \<not> watching m'"
  by (induction rule: miner_step.induct) simp_all

lemma miner_steps:
  assumes "(miner_step H mode (sha256 H data) target)\<^sup>*\<^sup>* m m'"
    and "miner_reachable H mode data target m" and "\<not> watching m"
  shows "miner_reachable H mode data target m' \<and> \<not> watching m'"
  using assms(1)
proof (induction rule: rtranclp_induct)
  case (step m1 m2)
  then show ?case using miner_reach_step miner_step_not_watching by blast
qed (simp add: assms(2,3))

section \<open>Properties\<close>

text \<open>
  C25: the second thread does not disturb the first, and ends the process only when its input is
  closed. However the steps of the threads and of the node interleave, what the miner prints is what
  the search alone returns, and if it panics, so does the search. It exits with code 0 only after
  the close. Once the input is closed and nothing else was written to it, the exit is possible
  at any moment; but the thread reads a single line, and after any other line has been read, no close
  ends the miner any more.
\<close>

theorem miner_outcome:
  assumes "miner_reachable H mode data target m"
  shows "case status m of
      Printed n \<Rightarrow> \<exists>fuel. hashfactor H mode fuel data target = Ok n
    | Aborted p \<Rightarrow> \<exists>fuel. hashfactor H mode fuel data target = Panic p
    | Exited code \<Rightarrow> code = 0 \<and> closed m
    | Mining n \<Rightarrow>
        (watching m \<and> closed m \<and> pending m = [] \<longrightarrow>
           miner_step H mode (sha256 H data) target m (m\<lparr>status := Exited 0\<rparr>)) \<and>
        (\<not> watching m \<longrightarrow>
           (\<forall>m' code. (miner_step H mode (sha256 H data) target)\<^sup>*\<^sup>* m m' \<longrightarrow> status m' \<noteq> Exited code))"
proof (cases "status m")
  case (Mining n)
  have "miner_step H mode (sha256 H data) target m (m\<lparr>status := Exited 0\<rparr>)"
    if "watching m \<and> closed m \<and> pending m = []"
    using Mining that
    by (intro watch_exit [where read = "Inr 0" and rest = "[]"]) (simp_all add: read_line_def exit_on_close_def)
  moreover have "status m' \<noteq> Exited code"
    if "\<not> watching m" "(miner_step H mode (sha256 H data) target)\<^sup>*\<^sup>* m m'" for m' code
    using miner_steps [OF that(2) assms that(1)] miner_reachable_invariant [of H mode data target m']
    by (auto simp: miner_invariant_def)
  ultimately show ?thesis using Mining by simp
qed (use miner_reachable_invariant [OF assms] in \<open>simp_all add: miner_invariant_def\<close>)

theorem miner_outcome_witness:
  "miner_step demo_hasher Release (sha256 demo_hasher []) 9
     ((miner_start demo_hasher 9)\<lparr>closed := True\<rparr>)
     ((miner_start demo_hasher 9)\<lparr>closed := True, status := Exited 0\<rparr>)"
proof -
  have "miner_reachable demo_hasher Release [] 9 ((miner_start demo_hasher 9)\<lparr>closed := True\<rparr>)"
    by (intro miner_reach_step [OF miner_reach_start] node_closes) (simp_all add: miner_start_def)
  from miner_outcome [OF this] show ?thesis by (simp add: miner_start_def)
qed

end
