(* ===== verification/Rocksdb_Server.thy ===== *)
theory Rocksdb_Server
  imports Prelude
begin

text \<open>
  native/rocksdb/src/main.rs: the process that owns the writable database and serves put and get
  commands, one per line of its standard input, with base64 arguments. The database, base64 and the
  outcome of opening the database are not under src/: the record \<open>database\<close>, on states \<open>'d\<close>.
\<close>

record 'd database =
  db_put :: "bytes \<Rightarrow> bytes \<Rightarrow> 'd \<Rightarrow> 'd option"
  db_get :: "bytes \<Rightarrow> 'd \<Rightarrow> string + bytes option"
  b64_encode :: "bytes \<Rightarrow> string"
  b64_decode :: "string \<Rightarrow> bytes option"

text \<open>\<open>str::split(" ")\<close>: never empty, one more piece than there are spaces.\<close>

fun split_spaces :: "string \<Rightarrow> string list" where
  "split_spaces [] = [[]]"
| "split_spaces (c # s) =
     (if c = CHR '' '' then [] # split_spaces s
      else case split_spaces s of
             [] \<Rightarrow> [[c]]
           | w # ws \<Rightarrow> (c # w) # ws)"

text \<open>What one command prints, and the database after it.\<close>

definition put :: "'d database \<Rightarrow> bytes \<Rightarrow> bytes \<Rightarrow> 'd \<Rightarrow> (string \<times> 'd) may_panic" where
  "put D key v db =
     (case db_put D key v db of
        None \<Rightarrow> Inl unwrap_err_msg
      | Some db' \<Rightarrow> Inr (''ok'', db'))"

definition get_value :: "'d database \<Rightarrow> bytes \<Rightarrow> 'd \<Rightarrow> (string \<times> 'd) may_panic" where
  "get_value D key db =
     (case db_get D key db of
        Inl e \<Rightarrow> Inl unwrap_err_msg
      | Inr (Some v) \<Rightarrow> Inr (b64_encode D v, db)
      | Inr None \<Rightarrow> Inr (b64_encode D [123], db))"

definition command :: "'d database \<Rightarrow> string \<Rightarrow> 'd \<Rightarrow> (string \<times> 'd) may_panic" where
  "command D line db =
     (case split_spaces line of
        [w, key, v] \<Rightarrow>
          if w = ''put'' then
            (case b64_decode D key of
               None \<Rightarrow> Inl unwrap_err_msg
             | Some k \<Rightarrow> (case b64_decode D v of
                            None \<Rightarrow> Inl unwrap_err_msg
                          | Some bs \<Rightarrow> put D k bs db))
          else Inl ''invalid command''
      | [w, key] \<Rightarrow>
          if w = ''get'' then
            (case b64_decode D key of
               None \<Rightarrow> Inl unwrap_err_msg
             | Some k \<Rightarrow> get_value D k db)
          else Inl ''invalid command''
      | _ \<Rightarrow> Inl ''invalid command'')"

text \<open>The server: the lines printed, the panic that ended it if one did, and the database.\<close>

fun serve :: "'d database \<Rightarrow> string list \<Rightarrow> 'd \<Rightarrow> string list \<times> string option \<times> 'd" where
  "serve D [] db = ([], None, db)"
| "serve D (line # lines) db =
     (case command D line db of
        Inl p \<Rightarrow> ([], Some p, db)
      | Inr (out, db') \<Rightarrow>
          (case serve D lines db' of (outs, r, db'') \<Rightarrow> (out # outs, r, db'')))"

text \<open>Opening is retried until it succeeds; \<open>tries n\<close> is the outcome of the \<open>n\<close>-th try.\<close>

fun open_rocksdb :: "(nat \<Rightarrow> 'd option) \<Rightarrow> nat \<Rightarrow> nat \<Rightarrow> 'd option" where
  "open_rocksdb tries 0 n = None"
| "open_rocksdb tries (Suc fuel) n =
     (case tries n of
        None \<Rightarrow> open_rocksdb tries fuel (Suc n)
      | Some db \<Rightarrow> Some db)"

section \<open>Splitting and joining\<close>

fun join_spaces :: "string list \<Rightarrow> string" where
  "join_spaces [] = []"
| "join_spaces [w] = w"
| "join_spaces (w # ws) = w @ CHR '' '' # join_spaces ws"

lemma split_spaces_word: "CHR '' '' \<notin> set w \<Longrightarrow> split_spaces w = [w]"
  by (induction w) auto

lemma split_spaces_append:
  "CHR '' '' \<notin> set w \<Longrightarrow> split_spaces (w @ CHR '' '' # s) = w # split_spaces s"
  by (induction w) auto

lemma split_join_spaces:
  "ws \<noteq> [] \<Longrightarrow> \<forall>w \<in> set ws. CHR '' '' \<notin> set w \<Longrightarrow> split_spaces (join_spaces ws) = ws"
  by (induction ws rule: join_spaces.induct) (simp_all add: split_spaces_word split_spaces_append)

section \<open>What the database and base64 promise\<close>

definition database_laws :: "'d database \<Rightarrow> bool" where
  "database_laws D \<longleftrightarrow>
     (\<forall>bs. b64_decode D (b64_encode D bs) = Some bs \<and> CHR '' '' \<notin> set (b64_encode D bs)) \<and>
     (\<forall>k v db db'. db_put D k v db = Some db' \<longrightarrow>
        db_get D k db' = Inr (Some v) \<and> (\<forall>k'. k' \<noteq> k \<longrightarrow> db_get D k' db' = db_get D k' db))"

definition put_line :: "'d database \<Rightarrow> bytes \<Rightarrow> bytes \<Rightarrow> string" where
  "put_line D k v = join_spaces [''put'', b64_encode D k, b64_encode D v]"

definition get_line :: "'d database \<Rightarrow> bytes \<Rightarrow> string" where
  "get_line D k = join_spaces [''get'', b64_encode D k]"

lemma command_put_line: "database_laws D \<Longrightarrow> command D (put_line D k v) db = put D k v db"
  unfolding put_line_def command_def by (subst split_join_spaces) (auto simp: database_laws_def)

lemma command_get_line: "database_laws D \<Longrightarrow> command D (get_line D k) db = get_value D k db"
  unfolding get_line_def command_def by (subst split_join_spaces) (auto simp: database_laws_def)

section \<open>Properties\<close>

text \<open>A database that is a map; a space is escaped, any other byte marked by an x.\<close>

definition demo_encode :: "bytes \<Rightarrow> string" where
  "demo_encode bs =
     concat (map (\<lambda>b. if b = 32 then ''sx'' else CHR ''x'' # of_bytes [b]) bs)"

fun demo_decode :: "string \<Rightarrow> bytes option" where
  "demo_decode (c # d # s) =
     map_option (append (if c = CHR ''s'' then [32] else as_bytes [d])) (demo_decode s)"
| "demo_decode [] = Some []"
| "demo_decode _ = None"

definition demo_database :: "(bytes \<rightharpoonup> bytes) database" where
  "demo_database = \<lparr>db_put = (\<lambda>k v db. Some (db(k \<mapsto> v))), db_get = (\<lambda>k db. Inr (db k)),
     b64_encode = demo_encode, b64_decode = demo_decode\<rparr>"

lemma of_bytes_single: "\<exists>d. of_bytes [b] = [d] \<and> as_bytes [d] = [b]"
  using as_bytes_of_bytes [of "[b]"] by (simp add: of_bytes_def del: as_bytes_of_bytes)

lemma demo_decode_encode: "demo_decode (demo_encode bs) = Some bs"
proof (induction bs)
  case (Cons b bs)
  obtain d where "of_bytes [b] = [d]" "as_bytes [d] = [b]" using of_bytes_single by blast
  with Cons show ?case by (simp add: demo_encode_def)
qed (simp add: demo_encode_def)

lemma demo_no_space: "CHR '' '' \<notin> set (demo_encode bs)"
proof (induction bs)
  case (Cons b bs)
  obtain d where d: "of_bytes [b] = [d]" "as_bytes [d] = [b]" using of_bytes_single by blast
  have "b = 32" if "d = CHR '' ''"
    using d(2) that by (simp add: as_bytes_def)
  with Cons d(1) show ?case by (auto simp: demo_encode_def)
qed (simp add: demo_encode_def)

lemma demo_database_laws: "database_laws demo_database"
  by (simp add: database_laws_def demo_database_def demo_decode_encode demo_no_space)

text \<open>
  The commands are independent of how the input is cut: serving the lines \<open>xs @ ys\<close> is serving
  \<open>xs\<close> and then, unless a command panicked, \<open>ys\<close> on the database that is left.
\<close>

lemma serve_append:
  "serve D (xs @ ys) db =
     (case serve D xs db of
        (outs, Some p, db') \<Rightarrow> (outs, Some p, db')
      | (outs, None, db') \<Rightarrow>
          (case serve D ys db' of (outs', r, db'') \<Rightarrow> (outs @ outs', r, db'')))"
  by (induction xs arbitrary: db) (auto split: sum.split prod.split option.split)

text \<open>The requests of a client, the lines it sends for them, and what a map would answer.\<close>

datatype request = PutRequest bytes bytes | GetRequest bytes

fun request_line :: "'d database \<Rightarrow> request \<Rightarrow> string" where
  "request_line D (PutRequest k v) = put_line D k v"
| "request_line D (GetRequest k) = get_line D k"

fun map_answers :: "(bytes \<Rightarrow> string) \<Rightarrow> request list \<Rightarrow> (bytes \<rightharpoonup> bytes) \<Rightarrow> string list" where
  "map_answers encode [] m = []"
| "map_answers encode (PutRequest k v # rs) m = ''ok'' # map_answers encode rs (m(k \<mapsto> v))"
| "map_answers encode (GetRequest k # rs) m =
     encode (case m k of Some v \<Rightarrow> v | None \<Rightarrow> [123]) # map_answers encode rs m"

fun map_after :: "request list \<Rightarrow> (bytes \<rightharpoonup> bytes) \<Rightarrow> (bytes \<rightharpoonup> bytes)" where
  "map_after [] m = m"
| "map_after (PutRequest k v # rs) m = map_after rs (m(k \<mapsto> v))"
| "map_after (GetRequest k # rs) m = map_after rs m"

definition holds_map :: "'d database \<Rightarrow> 'd \<Rightarrow> (bytes \<rightharpoonup> bytes) \<Rightarrow> bool" where
  "holds_map D db m \<longleftrightarrow> (\<forall>k. db_get D k db = Inr (m k))"

lemma serve_requests:
  assumes laws: "database_laws D" and ok: "\<And>k v db. db_put D k v db \<noteq> None"
    and "holds_map D db m"
  shows "\<exists>db'. serve D (map (request_line D) rs) db = (map_answers (b64_encode D) rs m, None, db') \<and>
    holds_map D db' (map_after rs m)"
  using assms(3)
proof (induction rs arbitrary: db m)
  case (Cons r rs)
  show ?case
  proof (cases r)
    case (PutRequest k v)
    obtain db1 where db1: "db_put D k v db = Some db1" using ok by blast
    with laws Cons.prems have "holds_map D db1 (m(k \<mapsto> v))"
      by (simp add: holds_map_def database_laws_def)
    then have "\<exists>db'. serve D (map (request_line D) rs) db1 =
        (map_answers (b64_encode D) rs (m(k \<mapsto> v)), None, db') \<and>
        holds_map D db' (map_after rs (m(k \<mapsto> v)))"
      by (rule Cons.IH)
    with db1 show ?thesis
      by (auto simp: PutRequest command_put_line [OF laws] put_def)
  next
    case (GetRequest k)
    from Cons.prems have "db_get D k db = Inr (m k)" by (simp add: holds_map_def)
    with Cons.IH [OF Cons.prems] show ?thesis
      by (auto simp: GetRequest command_get_line [OF laws] get_value_def split: option.split)
  qed
qed simp

text \<open>
  C26: the server refines a map. Whatever puts and gets a client sends, the lines printed are the
  answers of a map that starts as the database (a missing key is answered like the byte 123), and
  the database ends as the map does. A line that is no command ends the server with a panic: what
  came before it has been answered and stored, nothing after it is.
\<close>

theorem serve_refines_map:
  assumes laws: "database_laws D" and ok: "\<And>k v db. db_put D k v db \<noteq> None"
    and "holds_map D db m"
  shows "\<exists>db'. holds_map D db' (map_after rs m) \<and>
    serve D (map (request_line D) rs) db = (map_answers (b64_encode D) rs m, None, db') \<and>
    (\<forall>bad rest p. command D bad db' = Inl p \<longrightarrow>
       serve D (map (request_line D) rs @ bad # rest) db = (map_answers (b64_encode D) rs m, Some p, db'))"
proof -
  obtain db' where "serve D (map (request_line D) rs) db = (map_answers (b64_encode D) rs m, None, db')"
    "holds_map D db' (map_after rs m)"
    using serve_requests [OF assms] by blast
  then show ?thesis by (auto simp: serve_append)
qed

theorem serve_refines_map_witness:
  "\<exists>db'. serve demo_database [put_line demo_database [1] [7], get_line demo_database [2],
       get_line demo_database [1], ''drop x'', put_line demo_database [1] [8]] Map.empty =
     ([''ok'', demo_encode [123], demo_encode [7]], Some ''invalid command'', db') \<and>
     db' [1] = Some [7]"
proof -
  have "holds_map demo_database Map.empty Map.empty"
    by (simp add: holds_map_def demo_database_def)
  from serve_refines_map [OF demo_database_laws _ this,
      of "[PutRequest [1] [7], GetRequest [2], GetRequest [1]]"]
  obtain db' where "holds_map demo_database db' [[1] \<mapsto> [7]]"
    and *: "\<forall>bad rest p. command demo_database bad db' = Inl p \<longrightarrow>
      serve demo_database ([put_line demo_database [1] [7], get_line demo_database [2],
        get_line demo_database [1]] @ bad # rest) Map.empty =
      ([''ok'', demo_encode [123], demo_encode [7]], Some p, db')"
    by (auto simp: demo_database_def)
  moreover have "command demo_database ''drop x'' db' = Inl ''invalid command''"
    by (simp add: command_def)
  ultimately show ?thesis
    using *[rule_format, of "''drop x''"] by (auto simp: holds_map_def demo_database_def)
qed

text \<open>
  A client cannot tell a missing key from one that holds the byte 123: both print the same
  line.
\<close>

lemma get_missing_key:
  assumes "database_laws D" and "db_get D k db = Inr None" and "db_get D k' db = Inr (Some [123])"
  shows "command D (get_line D k) db = Inr (b64_encode D [123], db) \<and>
    command D (get_line D k') db = command D (get_line D k) db"
  using assms by (simp add: command_get_line get_value_def)

lemma get_missing_key_witness:
  "command demo_database (get_line demo_database [1]) [[2] \<mapsto> [123]] =
     command demo_database (get_line demo_database [2]) [[2] \<mapsto> [123]]"
  using get_missing_key [OF demo_database_laws, of "[1]" "[[2] \<mapsto> [123]]" "[2]"]
  by (simp add: demo_database_def)

end
