(* ===== verification/Rustler_Nif.thy ===== *)
theory Rustler_Nif
  imports Vm_Helpers
begin

text \<open>
  The ground of the Rustler bindings in priv/rustler: the C interface of the Erlang virtual machine
  (crate erlang\_nif\_sys, not under src/) as the record \<open>nif\<close> on terms \<open>'t\<close>, what its documentation
  promises (\<open>nif_laws\<close>), the error type of error.rs, the type test of dynamic.rs, and atoms
  (types/atom.rs, wrapper/atom.rs). Return codes are options already, as the wrappers make
  them (Rustler\_Wrapper). All terms live in one environment; environments are the subject of
  Rustler\_Env.
\<close>

section \<open>The C interface\<close>

record 't nif =
  enif_make_atom_len :: "bytes \<Rightarrow> 't"
  enif_get_atom_latin1 :: "'t \<Rightarrow> bytes option"
  enif_is_atom :: "'t \<Rightarrow> bool"
  enif_is_binary :: "'t \<Rightarrow> bool"
  enif_is_empty_list :: "'t \<Rightarrow> bool"
  enif_is_exception :: "'t \<Rightarrow> bool"
  enif_is_fun :: "'t \<Rightarrow> bool"
  enif_is_list :: "'t \<Rightarrow> bool"
  enif_is_map :: "'t \<Rightarrow> bool"
  enif_is_number :: "'t \<Rightarrow> bool"
  enif_is_pid :: "'t \<Rightarrow> bool"
  enif_is_port :: "'t \<Rightarrow> bool"
  enif_is_ref :: "'t \<Rightarrow> bool"
  enif_is_tuple :: "'t \<Rightarrow> bool"
  enif_make_int :: "i32 \<Rightarrow> 't"
  enif_get_int :: "'t \<Rightarrow> i32 option"
  enif_make_uint :: "u32 \<Rightarrow> 't"
  enif_get_uint :: "'t \<Rightarrow> u32 option"
  enif_make_int64 :: "i64 \<Rightarrow> 't"
  enif_get_int64 :: "'t \<Rightarrow> i64 option"
  enif_make_uint64 :: "u64 \<Rightarrow> 't"
  enif_get_uint64 :: "'t \<Rightarrow> u64 option"
  enif_alloc_binary :: "nat \<Rightarrow> bytes option"
  enif_realloc_binary :: "bytes \<Rightarrow> nat \<Rightarrow> bytes option"
  enif_make_binary :: "bytes \<Rightarrow> 't"
  enif_inspect_binary :: "'t \<Rightarrow> bytes option"
  enif_make_sub_binary :: "'t \<Rightarrow> nat \<Rightarrow> nat \<Rightarrow> 't"
  enif_get_list_cell :: "'t \<Rightarrow> ('t \<times> 't) option"
  enif_get_list_length :: "'t \<Rightarrow> u32 option"
  enif_make_list_from_array :: "'t list \<Rightarrow> 't"
  enif_make_list_cell :: "'t \<Rightarrow> 't \<Rightarrow> 't"
  enif_make_reverse_list :: "'t \<Rightarrow> 't option"
  enif_get_tuple :: "'t \<Rightarrow> 't list option"
  enif_make_tuple_from_array :: "'t list \<Rightarrow> 't"
  enif_make_new_map :: "'t"
  enif_get_map_value :: "'t \<Rightarrow> 't \<Rightarrow> 't option"
  enif_get_map_size :: "'t \<Rightarrow> nat option"
  enif_make_map_put :: "'t \<Rightarrow> 't \<Rightarrow> 't \<Rightarrow> 't option"
  enif_make_map_remove :: "'t \<Rightarrow> 't \<Rightarrow> 't option"
  enif_make_map_update :: "'t \<Rightarrow> 't \<Rightarrow> 't \<Rightarrow> 't option"
  enif_map_pairs :: "'t \<Rightarrow> ('t \<times> 't) list option"
  enif_make_badarg :: "'t"
  enif_raise_exception :: "'t \<Rightarrow> 't"

text \<open>
  The documented behaviour of the constructors and their inverses. An atom has at most 255 Latin-1
  characters, a tuple fewer than \<open>2 ^ 24\<close> elements; terms of different types are different.
\<close>

definition atom_laws :: "'t nif \<Rightarrow> bool" where
  "atom_laws N \<longleftrightarrow>
     (\<forall>bs. length bs \<le> 255 \<longrightarrow> enif_is_atom N (enif_make_atom_len N bs) \<and>
        enif_get_atom_latin1 N (enif_make_atom_len N bs) = Some bs \<and>
        enif_get_int N (enif_make_atom_len N bs) = None \<and>
        enif_get_uint N (enif_make_atom_len N bs) = None \<and>
        enif_get_int64 N (enif_make_atom_len N bs) = None \<and>
        enif_get_uint64 N (enif_make_atom_len N bs) = None \<and>
        enif_inspect_binary N (enif_make_atom_len N bs) = None \<and>
        enif_get_tuple N (enif_make_atom_len N bs) = None \<and>
        \<not> enif_is_list N (enif_make_atom_len N bs) \<and>
        \<not> enif_is_empty_list N (enif_make_atom_len N bs))"

definition value_laws :: "'t nif \<Rightarrow> bool" where
  "value_laws N \<longleftrightarrow>
     (\<forall>n. enif_get_int N (enif_make_int N n) = Some n) \<and>
     (\<forall>n. enif_get_uint N (enif_make_uint N n) = Some n) \<and>
     (\<forall>n. enif_get_int64 N (enif_make_int64 N n) = Some n) \<and>
     (\<forall>n. enif_get_uint64 N (enif_make_uint64 N n) = Some n) \<and>
     (\<forall>bs. enif_inspect_binary N (enif_make_binary N bs) = Some bs) \<and>
     (\<forall>bs. enif_get_uint64 N (enif_make_binary N bs) = None) \<and>
     (\<forall>t bs off n. enif_inspect_binary N t = Some bs \<and> off + n \<le> length bs \<longrightarrow>
        enif_inspect_binary N (enif_make_sub_binary N t off n) = Some (take n (drop off bs)))"

text \<open>
  The binary allocator: fresh memory has arbitrary content, a reallocation keeps what fits and may
  fail, in which case the old memory stays as it was.
\<close>

definition allocator_laws :: "'t nif \<Rightarrow> bool" where
  "allocator_laws N \<longleftrightarrow>
     (\<forall>n bs. enif_alloc_binary N n = Some bs \<longrightarrow> length bs = n) \<and>
     (\<forall>old n bs. enif_realloc_binary N old n = Some bs \<longrightarrow>
        length bs = n \<and> take (min (length old) n) bs = take (min (length old) n) old)"

definition container_laws :: "'t nif \<Rightarrow> bool" where
  "container_laws N \<longleftrightarrow>
     (\<forall>ts. enif_is_list N (enif_make_list_from_array N ts)) \<and>
     (\<forall>ts. enif_is_empty_list N (enif_make_list_from_array N ts) \<longleftrightarrow> ts = []) \<and>
     enif_get_list_cell N (enif_make_list_from_array N []) = None \<and>
     (\<forall>t ts. enif_get_list_cell N (enif_make_list_from_array N (t # ts)) =
        Some (t, enif_make_list_from_array N ts)) \<and>
     (\<forall>ts. length ts < 2 ^ 24 \<longrightarrow>
        enif_get_tuple N (enif_make_tuple_from_array N ts) = Some ts)"

definition map_laws :: "'t nif \<Rightarrow> bool" where
  "map_laws N \<longleftrightarrow>
     enif_is_map N (enif_make_new_map N) \<and>
     (\<forall>m k v. enif_is_map N m \<longrightarrow>
        (\<exists>m'. enif_make_map_put N m k v = Some m' \<and> enif_is_map N m' \<and>
           enif_get_map_value N m' k = Some v \<and>
           (\<forall>k'. k' \<noteq> k \<longrightarrow> enif_get_map_value N m' k' = enif_get_map_value N m k')))"

definition nif_laws :: "'t nif \<Rightarrow> bool" where
  "nif_laws N \<longleftrightarrow>
     atom_laws N \<and> value_laws N \<and> container_laws N \<and> map_laws N \<and> allocator_laws N"

lemma nif_lawsD:
  assumes "nif_laws N"
  shows "atom_laws N" "value_laws N" "container_laws N" "map_laws N" "allocator_laws N"
  using assms by (simp_all add: nif_laws_def)

section \<open>Results\<close>

text \<open>The boxed encoder of \<open>RaiseTerm\<close> is its effect: a term or a panic.\<close>

datatype 't nif_error = BadArg | AtomError string | RaiseAtom string | RaiseTerm "'t may_panic"

type_synonym ('t, 'a) nif_result = "('t nif_error, 'a) outcome"

text \<open>The question mark operator, and \<open>ok_or(Error::BadArg)\<close>.\<close>

fun result_bind :: "('e, 'a) outcome \<Rightarrow> ('a \<Rightarrow> ('e, 'b) outcome) \<Rightarrow> ('e, 'b) outcome" where
  "result_bind (Ok a) f = f a"
| "result_bind (Err e) f = Err e"
| "result_bind (Panic p) f = Panic p"
| "result_bind Timeout f = Timeout"

definition ok_or_badarg :: "'a option \<Rightarrow> ('t, 'a) nif_result" where
  "ok_or_badarg x = (case x of None \<Rightarrow> Err BadArg | Some a \<Rightarrow> Ok a)"

lemma ok_or_badarg_simps [simp]: "ok_or_badarg None = Err BadArg" "ok_or_badarg (Some a) = Ok a"
  by (simp_all add: ok_or_badarg_def)

lemma result_bind_eq_Ok_iff: "result_bind r f = Ok b \<longleftrightarrow> (\<exists>a. r = Ok a \<and> f a = Ok b)"
  by (cases r) auto

section \<open>Atoms\<close>

text \<open>
  \<open>Atom::from_str\<close> converts from UTF-8 to Latin-1; the code points below 256 are the one-byte
  sequences and the two-byte sequences that start with C2 or C3. \<open>get_atom\<close> converts back.
\<close>

fun latin1_of_utf8 :: "bytes \<Rightarrow> bytes option" where
  "latin1_of_utf8 [] = Some []"
| "latin1_of_utf8 (a # r) =
     (if a < 0x80 then map_option (Cons a) (latin1_of_utf8 r)
      else case r of
             [] \<Rightarrow> None
           | b # r2 \<Rightarrow>
               if a = 0xC2 then map_option (Cons b) (latin1_of_utf8 r2)
               else if a = 0xC3 then map_option (Cons (b + 0x40)) (latin1_of_utf8 r2)
               else None)"

fun utf8_of_latin1 :: "bytes \<Rightarrow> bytes" where
  "utf8_of_latin1 [] = []"
| "utf8_of_latin1 (b # bs) =
     (if b < 0x80 then b # utf8_of_latin1 bs
      else if b < 0xC0 then 0xC2 # b # utf8_of_latin1 bs
      else 0xC3 # (b - 0x40) # utf8_of_latin1 bs)"

definition atom_from_bytes :: "'t nif \<Rightarrow> bytes \<Rightarrow> ('t, 't) nif_result" where
  "atom_from_bytes N bs = (if 255 < length bs then Err BadArg else Ok (enif_make_atom_len N bs))"

definition atom_from_str :: "'t nif \<Rightarrow> string \<Rightarrow> ('t, 't) nif_result" where
  "atom_from_str N s =
     (if \<forall>b \<in> set (as_bytes s). b < 0x80 then atom_from_bytes N (as_bytes s)
      else case latin1_of_utf8 (as_bytes s) of
             None \<Rightarrow> Err BadArg
           | Some bs \<Rightarrow> atom_from_bytes N bs)"

definition atom_from_term :: "'t nif \<Rightarrow> 't \<Rightarrow> ('t, 't) nif_result" where
  "atom_from_term N t = (if enif_is_atom N t then Ok t else Err BadArg)"

definition atom_to_string :: "'t nif \<Rightarrow> 't \<Rightarrow> ('t, string) nif_result" where
  "atom_to_string N t =
     (case enif_get_atom_latin1 N t of
        None \<Rightarrow> Err BadArg
      | Some bs \<Rightarrow>
          if length (filter (\<lambda>b. 128 \<le> b) bs) = 0 then Ok (of_bytes bs)
          else Ok (of_bytes (utf8_of_latin1 bs)))"

text \<open>
  \<open>rustler_atoms!\<close> makes each atom from its name and panics where that fails; the names in the
  sources are ASCII and short.
\<close>

definition rustler_atom :: "'t nif \<Rightarrow> string \<Rightarrow> 't may_panic" where
  "rustler_atom N name =
     (case atom_from_str N name of
        Ok t \<Rightarrow> Inr t
      | _ \<Rightarrow> Inl ''rustler_atoms: bad atom string'')"

definition plain_name :: "string \<Rightarrow> bool" where
  "plain_name s \<longleftrightarrow> length s \<le> 255 \<and> (\<forall>b \<in> set (as_bytes s). b < 0x80)"

definition atom_named :: "'t nif \<Rightarrow> string \<Rightarrow> 't" where
  "atom_named N s = enif_make_atom_len N (as_bytes s)"

lemma rustler_atom_plain: "plain_name s \<Longrightarrow> rustler_atom N s = Inr (atom_named N s)"
  by (simp add: rustler_atom_def atom_from_str_def atom_from_bytes_def plain_name_def atom_named_def)

lemma atom_named_inject:
  assumes "nif_laws N" and "plain_name s" and "plain_name s'"
  shows "atom_named N s = atom_named N s' \<longleftrightarrow> s = s'"
  using assms unfolding nif_laws_def atom_laws_def plain_name_def atom_named_def
  by (metis as_bytes_inject length_as_bytes option.inject)

lemma atom_named_facts:
  assumes "nif_laws N" and "plain_name s"
  shows "enif_is_atom N (atom_named N s)" "enif_get_int N (atom_named N s) = None"
    "enif_get_uint N (atom_named N s) = None" "enif_get_int64 N (atom_named N s) = None"
    "enif_get_uint64 N (atom_named N s) = None" "enif_inspect_binary N (atom_named N s) = None"
    "enif_get_tuple N (atom_named N s) = None" "\<not> enif_is_list N (atom_named N s)"
    "\<not> enif_is_empty_list N (atom_named N s)"
  using assms unfolding nif_laws_def atom_laws_def plain_name_def atom_named_def by simp_all

text \<open>The predefined atoms.\<close>

abbreviation (input) nil_atom :: "'t nif \<Rightarrow> 't" where "nil_atom N \<equiv> atom_named N ''nil''"

lemma plain_names [simp]:
  "plain_name ''nil''" "plain_name ''ok''" "plain_name ''error''" "plain_name ''badarg''"
  "plain_name ''false''" "plain_name ''true''" "plain_name ''__struct__''"
  by (simp_all add: plain_name_def as_bytes_def)

definition is_truthy :: "'t nif \<Rightarrow> 't \<Rightarrow> bool" where
  "is_truthy N t \<longleftrightarrow> \<not> (t = atom_named N ''false'' \<or> t = atom_named N ''nil'')"

section \<open>The type of a term\<close>

datatype term_type = AtomType | BinaryType | EmptyListType | ExceptionType | FunType | ListType
  | MapType | NumberType | PidType | PortType | RefType | TupleType | UnknownType

definition get_type :: "'t nif \<Rightarrow> 't \<Rightarrow> term_type" where
  "get_type N t =
     (if enif_is_atom N t then AtomType
      else if enif_is_binary N t then BinaryType
      else if enif_is_empty_list N t then EmptyListType
      else if enif_is_exception N t then ExceptionType
      else if enif_is_fun N t then FunType
      else if enif_is_list N t then ListType
      else if enif_is_map N t then MapType
      else if enif_is_number N t then NumberType
      else if enif_is_pid N t then PidType
      else if enif_is_port N t then PortType
      else if enif_is_ref N t then RefType
      else if enif_is_tuple N t then TupleType
      else UnknownType)"

section \<open>Conversion between UTF-8 and Latin-1\<close>

lemma latin1_of_utf8_of_latin1: "latin1_of_utf8 (utf8_of_latin1 bs) = Some bs"
  by (induction bs) simp_all

lemma utf8_of_latin1_ascii: "\<forall>b \<in> set bs. b < 0x80 \<Longrightarrow> utf8_of_latin1 bs = bs"
  by (induction bs) simp_all

end
