(* ===== verification/Rustler_Types.thy ===== *)
theory Rustler_Types
  imports Rustler_Nif
begin

text \<open>
  The transcoders of priv/rustler/rustler/src/types: numbers, booleans, atoms, binaries and strings,
  lists, maps, tuples, \<open>Option\<close> and \<open>Result\<close>, and the access to Elixir structs. An encoder yields a
  term or panics; a decoder yields a value, an error, or a panic. A decoder that iterates over a
  list takes fuel, because a list term of the C interface is not known to be finite.
\<close>

type_synonym ('t, 'a) encoder = "'a \<Rightarrow> 't may_panic"
type_synonym ('t, 'a) decoder = "'t \<Rightarrow> ('t, 'a) nif_result"

section \<open>Numbers and booleans\<close>

text \<open>
  The macro of primitive.rs: encoding casts to the type of the C function, decoding casts back,
  without a range check. \<open>usize\<close> and \<open>isize\<close> are 64 bits wide. Signed and unsigned words differ in
  the extension only: \<open>scast\<close> for the signed, \<open>ucast\<close> for the unsigned types.
\<close>

definition encode_number :: "('w \<Rightarrow> 't) \<Rightarrow> ('a \<Rightarrow> 'w) \<Rightarrow> ('t, 'a) encoder" where
  "encode_number encode_fun as_nif n = Inr (encode_fun (as_nif n))"

definition decode_number :: "('t \<Rightarrow> 'w option) \<Rightarrow> ('w \<Rightarrow> 'a) \<Rightarrow> ('t, 'a) decoder" where
  "decode_number decode_fun as_dec t =
     (case decode_fun t of
        None \<Rightarrow> Err BadArg
      | Some res \<Rightarrow> Ok (as_dec res))"

definition encode_i32 :: "'t nif \<Rightarrow> ('t, i32) encoder" where
  "encode_i32 N = encode_number (enif_make_int N) id"
definition decode_i32 :: "'t nif \<Rightarrow> ('t, i32) decoder" where
  "decode_i32 N = decode_number (enif_get_int N) id"
definition encode_u32 :: "'t nif \<Rightarrow> ('t, u32) encoder" where
  "encode_u32 N = encode_number (enif_make_uint N) id"
definition decode_u32 :: "'t nif \<Rightarrow> ('t, u32) decoder" where
  "decode_u32 N = decode_number (enif_get_uint N) id"
definition encode_i64 :: "'t nif \<Rightarrow> ('t, i64) encoder" where
  "encode_i64 N = encode_number (enif_make_int64 N) id"
definition decode_i64 :: "'t nif \<Rightarrow> ('t, i64) decoder" where
  "decode_i64 N = decode_number (enif_get_int64 N) id"
definition encode_u64 :: "'t nif \<Rightarrow> ('t, u64) encoder" where
  "encode_u64 N = encode_number (enif_make_uint64 N) id"
definition decode_u64 :: "'t nif \<Rightarrow> ('t, u64) decoder" where
  "decode_u64 N = decode_number (enif_get_uint64 N) id"
definition encode_i8 :: "'t nif \<Rightarrow> ('t, 8 word) encoder" where
  "encode_i8 N = encode_number (enif_make_int N) scast"
definition decode_i8 :: "'t nif \<Rightarrow> ('t, 8 word) decoder" where
  "decode_i8 N = decode_number (enif_get_int N) ucast"
definition encode_u8 :: "'t nif \<Rightarrow> ('t, u8) encoder" where
  "encode_u8 N = encode_number (enif_make_uint N) ucast"
definition decode_u8 :: "'t nif \<Rightarrow> ('t, u8) decoder" where
  "decode_u8 N = decode_number (enif_get_uint N) ucast"
definition encode_i16 :: "'t nif \<Rightarrow> ('t, 16 word) encoder" where
  "encode_i16 N = encode_number (enif_make_int N) scast"
definition decode_i16 :: "'t nif \<Rightarrow> ('t, 16 word) decoder" where
  "decode_i16 N = decode_number (enif_get_int N) ucast"
definition encode_u16 :: "'t nif \<Rightarrow> ('t, u16) encoder" where
  "encode_u16 N = encode_number (enif_make_uint N) ucast"
definition decode_u16 :: "'t nif \<Rightarrow> ('t, u16) decoder" where
  "decode_u16 N = decode_number (enif_get_uint N) ucast"
definition encode_usize :: "'t nif \<Rightarrow> ('t, u64) encoder" where
  "encode_usize N = encode_number (enif_make_uint64 N) id"
definition decode_usize :: "'t nif \<Rightarrow> ('t, u64) decoder" where
  "decode_usize N = decode_number (enif_get_uint64 N) id"
definition encode_isize :: "'t nif \<Rightarrow> ('t, i64) encoder" where
  "encode_isize N = encode_number (enif_make_int64 N) id"
definition decode_isize :: "'t nif \<Rightarrow> ('t, i64) decoder" where
  "decode_isize N = decode_number (enif_get_int64 N) id"

lemmas number_defs = encode_number_def decode_number_def
  encode_i32_def decode_i32_def encode_u32_def decode_u32_def
  encode_i64_def decode_i64_def encode_u64_def decode_u64_def
  encode_i8_def decode_i8_def encode_u8_def decode_u8_def
  encode_i16_def decode_i16_def encode_u16_def decode_u16_def
  encode_usize_def decode_usize_def encode_isize_def decode_isize_def

text \<open>
  The floating point numbers are opaque: \<open>'d\<close> is \<open>f64\<close>, the type of the C functions, and \<open>'f\<close> is \<open>f32\<close> with
  its two casts. \<open>enif_make_double\<close> and \<open>enif_get_double\<close> are arguments.
\<close>

definition encode_f64 :: "('d \<Rightarrow> 't) \<Rightarrow> ('t, 'd) encoder" where
  "encode_f64 enif_make_double = encode_number enif_make_double id"
definition decode_f64 :: "('t \<Rightarrow> 'd option) \<Rightarrow> ('t, 'd) decoder" where
  "decode_f64 enif_get_double = decode_number enif_get_double id"
definition encode_f32 :: "('d \<Rightarrow> 't) \<Rightarrow> ('f \<Rightarrow> 'd) \<Rightarrow> ('t, 'f) encoder" where
  "encode_f32 enif_make_double as_f64 = encode_number enif_make_double as_f64"
definition decode_f32 :: "('t \<Rightarrow> 'd option) \<Rightarrow> ('d \<Rightarrow> 'f) \<Rightarrow> ('t, 'f) decoder" where
  "decode_f32 enif_get_double as_f32 = decode_number enif_get_double as_f32"

definition encode_bool :: "'t nif \<Rightarrow> ('t, bool) encoder" where
  "encode_bool N b = (if b then rustler_atom N ''true'' else rustler_atom N ''false'')"

definition decode_bool :: "'t nif \<Rightarrow> ('t, bool) decoder" where
  "decode_bool N t = Ok (is_truthy N t)"

section \<open>Atoms and raw terms\<close>

definition encode_term :: "('t, 't) encoder" where
  "encode_term t = Inr t"

definition decode_term :: "('t, 't) decoder" where
  "decode_term t = Ok t"

definition encode_atom :: "('t, 't) encoder" where
  "encode_atom a = Inr a"

definition decode_atom :: "'t nif \<Rightarrow> ('t, 't) decoder" where
  "decode_atom N t = atom_from_term N t"

section \<open>Binaries\<close>

text \<open>
  An \<open>OwnedBinary\<close> is its buffer; a \<open>Binary\<close> is a view of a binary term, with the term. Writing into a
  slice copies what fits and returns the number of bytes copied (\<open>std::io::Write for &mut [u8]\<close>).
\<close>

definition slice_write :: "bytes \<Rightarrow> bytes \<Rightarrow> bytes \<times> nat" where
  "slice_write dst data =
     (let n = min (length data) (length dst) in (take n data @ drop n dst, n))"

definition owned_new :: "'t nif \<Rightarrow> nat \<Rightarrow> bytes option" where
  "owned_new N sz = enif_alloc_binary N sz"

record 't binary =
  bin_data :: bytes
  bin_term :: 't

definition binary_from_term :: "'t nif \<Rightarrow> ('t, 't binary) decoder" where
  "binary_from_term N t =
     (case enif_inspect_binary N t of
        None \<Rightarrow> Err BadArg
      | Some data \<Rightarrow> Ok \<lparr>bin_data = data, bin_term = t\<rparr>)"

definition binary_from_owned :: "'t nif \<Rightarrow> bytes \<Rightarrow> 't binary" where
  "binary_from_owned N bin = \<lparr>bin_data = bin, bin_term = enif_make_binary N bin\<rparr>"

definition from_unowned :: "'t nif \<Rightarrow> 't binary \<Rightarrow> bytes option may_panic" where
  "from_unowned N from_bin =
     (case owned_new N (length (bin_data from_bin)) of
        None \<Rightarrow> Inr None
      | Some bin \<Rightarrow>
          (case slice_write bin (bin_data from_bin) of (bin', write_len) \<Rightarrow>
             if write_len \<noteq> length (bin_data from_bin) then Inl ''Could not copy binary''
             else Inr (Some bin')))"

definition realloc_or_copy :: "'t nif \<Rightarrow> bytes \<Rightarrow> nat \<Rightarrow> bytes may_panic" where
  "realloc_or_copy N bin sz =
     (case enif_realloc_binary N bin sz of
        Some bin' \<Rightarrow> Inr bin'
      | None \<Rightarrow>
          (case owned_new N sz of
             None \<Rightarrow> Inl unwrap_none_msg
           | Some new \<Rightarrow>
               (case slice_write new bin of (new', num_written) \<Rightarrow>
                  if \<not> (num_written = length bin \<or> num_written = length new)
                  then Inl ''Could not copy binary''
                  else Inr new')))"

text \<open>\<open>usize::checked_add\<close>.\<close>

definition checked_add :: "nat \<Rightarrow> nat \<Rightarrow> nat option" where
  "checked_add a b = (if a + b < 2 ^ 64 then Some (a + b) else None)"

definition make_subbinary :: "'t nif \<Rightarrow> 't binary \<Rightarrow> nat \<Rightarrow> nat \<Rightarrow> ('t, 't binary) nif_result" where
  "make_subbinary N bin offset len =
     result_bind (ok_or_badarg (checked_add len offset)) (\<lambda>min_len.
     if length (bin_data bin) < min_len then Err BadArg
     else case binary_from_term N (enif_make_sub_binary N (bin_term bin) offset len) of
            Ok b \<Rightarrow> Ok b
          | _ \<Rightarrow> Panic unwrap_none_msg)"

definition encode_binary :: "('t, 't binary) encoder" where
  "encode_binary bin = Inr (bin_term bin)"

section \<open>Strings\<close>

definition encode_str :: "'t nif \<Rightarrow> ('t, string) encoder" where
  "encode_str N s =
     (case owned_new N (length s) of
        None \<Rightarrow> Inl ''binary term allocation fail''
      | Some bin \<Rightarrow>
          Inr (bin_term (binary_from_owned N (fst (slice_write bin (as_bytes s))))))"

definition decode_str :: "'t nif \<Rightarrow> ('t, string) decoder" where
  "decode_str N t =
     result_bind (binary_from_term N t) (\<lambda>binary. ok_or_badarg (from_utf8 (bin_data binary)))"

section \<open>Lists\<close>

text \<open>The iterator is the rest of the list; \<open>next\<close> panics at the end of an improper list.\<close>

definition list_iterator_new :: "'t nif \<Rightarrow> 't \<Rightarrow> 't option" where
  "list_iterator_new N t = (if enif_is_list N t \<or> enif_is_empty_list N t then Some t else None)"

definition list_iterator_next :: "'t nif \<Rightarrow> 't \<Rightarrow> ('t \<times> 't) option may_panic" where
  "list_iterator_next N t =
     (case enif_get_list_cell N t of
        Some (head, tail) \<Rightarrow> Inr (Some (head, tail))
      | None \<Rightarrow>
          if enif_is_empty_list N t then Inr None else Inl ''list iterator found improper list'')"

definition decode_list_iterator :: "'t nif \<Rightarrow> ('t, 't) decoder" where
  "decode_list_iterator N t =
     (case list_iterator_new N t of Some iter \<Rightarrow> Ok iter | None \<Rightarrow> Err BadArg)"

text \<open>\<open>iter.map(decode).collect()\<close> into a result: it stops at the first error.\<close>

fun collect :: "'t nif \<Rightarrow> ('t, 'a) decoder \<Rightarrow> nat \<Rightarrow> ('t, 'a list) decoder" where
  "collect N dec 0 t = Timeout"
| "collect N dec (Suc fuel) t =
     (case list_iterator_next N t of
        Inl p \<Rightarrow> Panic p
      | Inr None \<Rightarrow> Ok []
      | Inr (Some (head, tail)) \<Rightarrow>
          result_bind (dec head) (\<lambda>x.
          result_bind (collect N dec fuel tail) (\<lambda>xs. Ok (x # xs))))"

definition decode_vec :: "'t nif \<Rightarrow> (nat \<Rightarrow> ('t, 'a) decoder) \<Rightarrow> nat \<Rightarrow> ('t, 'a list) decoder" where
  "decode_vec N dec fuel t =
     result_bind (decode_list_iterator N t) (\<lambda>iter. collect N (dec fuel) fuel iter)"

fun encode_all :: "('t, 'a) encoder \<Rightarrow> 'a list \<Rightarrow> 't list may_panic" where
  "encode_all enc [] = Inr []"
| "encode_all enc (x # xs) =
     panic_bind (enc x) (\<lambda>t. panic_bind (encode_all enc xs) (\<lambda>ts. Inr (t # ts)))"

text \<open>The length is passed as \<open>arr.len() as u32\<close>.\<close>

definition make_list :: "'t nif \<Rightarrow> 't list \<Rightarrow> 't" where
  "make_list N arr = enif_make_list_from_array N (take (length arr mod 2 ^ 32) arr)"

definition encode_vec :: "'t nif \<Rightarrow> ('t, 'a) encoder \<Rightarrow> ('t, 'a list) encoder" where
  "encode_vec N enc xs = panic_bind (encode_all enc xs) (\<lambda>ts. Inr (make_list N ts))"

definition list_new_empty :: "'t nif \<Rightarrow> 't may_panic" where
  "list_new_empty N = encode_vec N (encode_u8 N) []"

definition into_list_iterator :: "'t nif \<Rightarrow> ('t, 't) decoder" where
  "into_list_iterator N t = ok_or_badarg (list_iterator_new N t)"

definition list_length :: "'t nif \<Rightarrow> ('t, nat) decoder" where
  "list_length N t = ok_or_badarg (map_option unat (enif_get_list_length N t))"

definition list_get_cell :: "'t nif \<Rightarrow> ('t, 't \<times> 't) decoder" where
  "list_get_cell N t = ok_or_badarg (enif_get_list_cell N t)"

definition list_reverse :: "'t nif \<Rightarrow> ('t, 't) decoder" where
  "list_reverse N t = ok_or_badarg (enif_make_reverse_list N t)"

definition list_prepend :: "'t nif \<Rightarrow> 't \<Rightarrow> 't \<Rightarrow> 't" where
  "list_prepend N t head = enif_make_list_cell N head t"

section \<open>Maps\<close>

definition map_new :: "'t nif \<Rightarrow> 't" where
  "map_new N = enif_make_new_map N"

definition map_get :: "'t nif \<Rightarrow> 't \<Rightarrow> ('t, 't) decoder" where
  "map_get N m key = (case enif_get_map_value N m key of Some v \<Rightarrow> Ok v | None \<Rightarrow> Err BadArg)"

definition map_size :: "'t nif \<Rightarrow> ('t, nat) decoder" where
  "map_size N m = ok_or_badarg (enif_get_map_size N m)"

definition map_put :: "'t nif \<Rightarrow> 't \<Rightarrow> 't \<Rightarrow> 't \<Rightarrow> ('t, 't) nif_result" where
  "map_put N m key v = (case enif_make_map_put N m key v of Some r \<Rightarrow> Ok r | None \<Rightarrow> Err BadArg)"

definition map_remove :: "'t nif \<Rightarrow> 't \<Rightarrow> 't \<Rightarrow> ('t, 't) nif_result" where
  "map_remove N m key = (case enif_make_map_remove N m key of Some r \<Rightarrow> Ok r | None \<Rightarrow> Err BadArg)"

definition map_update :: "'t nif \<Rightarrow> 't \<Rightarrow> 't \<Rightarrow> 't \<Rightarrow> ('t, 't) nif_result" where
  "map_update N m key v =
     (case enif_make_map_update N m key v of Some r \<Rightarrow> Ok r | None \<Rightarrow> Err BadArg)"

text \<open>A map iterator is the pairs it has not reached.\<close>

definition map_iterator_new :: "'t nif \<Rightarrow> 't \<Rightarrow> ('t \<times> 't) list option" where
  "map_iterator_new N m = enif_map_pairs N m"

fun map_iterator_next :: "('t \<times> 't) list \<Rightarrow> ('t \<times> 't) option \<times> ('t \<times> 't) list" where
  "map_iterator_next [] = (None, [])"
| "map_iterator_next ((k, v) # rest) = (Some (k, v), rest)"

definition decode_map_iterator :: "'t nif \<Rightarrow> ('t, ('t \<times> 't) list) decoder" where
  "decode_map_iterator N t =
     (case map_iterator_new N t of Some iter \<Rightarrow> Ok iter | None \<Rightarrow> Err BadArg)"

section \<open>Tuples\<close>

definition get_tuple :: "'t nif \<Rightarrow> ('t, 't list) decoder" where
  "get_tuple N t = (case enif_get_tuple N t of Some ts \<Rightarrow> Ok ts | None \<Rightarrow> Err BadArg)"

definition make_tuple :: "'t nif \<Rightarrow> 't list \<Rightarrow> 't" where
  "make_tuple N ts = enif_make_tuple_from_array N (take (length ts mod 2 ^ 32) ts)"

text \<open>The macro generates the transcoders of all arities up to seven; here are those that other code uses.\<close>

definition tuple_elements :: "'t nif \<Rightarrow> nat \<Rightarrow> ('t, 't list) decoder" where
  "tuple_elements N arity t =
     (case enif_get_tuple N t of
        Some elements \<Rightarrow> if length elements = arity then Ok elements else Err BadArg
      | None \<Rightarrow> Err BadArg)"

definition encode_unit :: "'t nif \<Rightarrow> ('t, unit) encoder" where
  "encode_unit N u = Inr (make_tuple N [])"

definition decode_unit :: "'t nif \<Rightarrow> ('t, unit) decoder" where
  "decode_unit N t = result_bind (tuple_elements N 0 t) (\<lambda>_. Ok ())"

definition encode_pair :: "'t nif \<Rightarrow> ('t, 'a) encoder \<Rightarrow> ('t, 'b) encoder \<Rightarrow> ('t, 'a \<times> 'b) encoder"
  where
  "encode_pair N enc_a enc_b p =
     panic_bind (enc_a (fst p)) (\<lambda>a. panic_bind (enc_b (snd p)) (\<lambda>b. Inr (make_tuple N [a, b])))"

definition decode_pair :: "'t nif \<Rightarrow> ('t, 'a) decoder \<Rightarrow> ('t, 'b) decoder \<Rightarrow> ('t, 'a \<times> 'b) decoder"
  where
  "decode_pair N dec_a dec_b t =
     result_bind (tuple_elements N 2 t) (\<lambda>elements.
     result_bind (dec_a (elements ! 0)) (\<lambda>a.
     result_bind (dec_b (elements ! 1)) (\<lambda>b. Ok (a, b))))"

definition encode_triple :: "'t nif \<Rightarrow> ('t, 'a) encoder \<Rightarrow> ('t, 'b) encoder \<Rightarrow> ('t, 'c) encoder
    \<Rightarrow> ('t, 'a \<times> 'b \<times> 'c) encoder" where
  "encode_triple N enc_a enc_b enc_c p =
     panic_bind (enc_a (fst p)) (\<lambda>a.
     panic_bind (enc_b (fst (snd p))) (\<lambda>b.
     panic_bind (enc_c (snd (snd p))) (\<lambda>c. Inr (make_tuple N [a, b, c]))))"

definition decode_triple :: "'t nif \<Rightarrow> ('t, 'a) decoder \<Rightarrow> ('t, 'b) decoder \<Rightarrow> ('t, 'c) decoder
    \<Rightarrow> ('t, 'a \<times> 'b \<times> 'c) decoder" where
  "decode_triple N dec_a dec_b dec_c t =
     result_bind (tuple_elements N 3 t) (\<lambda>elements.
     result_bind (dec_a (elements ! 0)) (\<lambda>a.
     result_bind (dec_b (elements ! 1)) (\<lambda>b.
     result_bind (dec_c (elements ! 2)) (\<lambda>c. Ok (a, b, c)))))"

section \<open>Option and Result\<close>

definition encode_option :: "'t nif \<Rightarrow> ('t, 'a) encoder \<Rightarrow> ('t, 'a option) encoder" where
  "encode_option N enc x =
     (case x of Some v \<Rightarrow> enc v | None \<Rightarrow> panic_bind (rustler_atom N ''nil'') encode_atom)"

definition decode_option :: "'t nif \<Rightarrow> ('t, 'a) decoder \<Rightarrow> ('t, 'a option) decoder" where
  "decode_option N dec t =
     (case dec t of
        Ok v \<Rightarrow> Ok (Some v)
      | Panic p \<Rightarrow> Panic p
      | Timeout \<Rightarrow> Timeout
      | Err e \<Rightarrow>
          result_bind (decode_atom N t) (\<lambda>decoded_atom.
          case rustler_atom N ''nil'' of
            Inl p \<Rightarrow> Panic p
          | Inr nil \<Rightarrow> if decoded_atom = nil then Ok None else Err BadArg))"

text \<open>Rust's \<open>Result<T, E>\<close> is the sum with the error on the left.\<close>

definition encode_result ::
  "'t nif \<Rightarrow> ('t, 'a) encoder \<Rightarrow> ('t, 'e) encoder \<Rightarrow> ('t, 'e + 'a) encoder" where
  "encode_result N enc enc_err r =
     (case r of
        Inr v \<Rightarrow> panic_bind (rustler_atom N ''ok'') (\<lambda>ok. encode_pair N encode_atom enc (ok, v))
      | Inl e \<Rightarrow>
          panic_bind (rustler_atom N ''error'') (\<lambda>er. encode_pair N encode_atom enc_err (er, e)))"

definition decode_result ::
  "'t nif \<Rightarrow> ('t, 'a) decoder \<Rightarrow> ('t, 'e) decoder \<Rightarrow> ('t, 'e + 'a) decoder" where
  "decode_result N dec dec_err t =
     result_bind (decode_pair N (decode_atom N) decode_term t) (\<lambda>(decoded_atom, inner_term).
     case rustler_atom N ''ok'' of
       Inl p \<Rightarrow> Panic p
     | Inr ok \<Rightarrow>
         if decoded_atom = ok then result_bind (dec inner_term) (\<lambda>v. Ok (Inr v))
         else (case rustler_atom N ''error'' of
                 Inl p \<Rightarrow> Panic p
               | Inr er \<Rightarrow>
                   if decoded_atom = er then result_bind (dec_err inner_term) (\<lambda>e. Ok (Inl e))
                   else Err BadArg))"

section \<open>Elixir structs\<close>

definition lift_atom :: "'t may_panic \<Rightarrow> ('t, 't) nif_result" where
  "lift_atom r = (case r of Inl p \<Rightarrow> Panic p | Inr t \<Rightarrow> Ok t)"

definition get_ex_struct_name :: "'t nif \<Rightarrow> ('t, 't) decoder" where
  "get_ex_struct_name N m =
     result_bind (lift_atom (rustler_atom N ''__struct__'')) (\<lambda>key.
     result_bind (map_get N m key) (atom_from_term N))"

definition make_ex_struct :: "'t nif \<Rightarrow> string \<Rightarrow> ('t, 't) nif_result" where
  "make_ex_struct N struct_module =
     result_bind (lift_atom (rustler_atom N ''__struct__'')) (\<lambda>struct_atom.
     result_bind (atom_from_str N struct_module) (\<lambda>module_atom.
     map_put N (map_new N) struct_atom module_atom))"

end
