(* ===== verification/Rustler_Codec.thy ===== *)
theory Rustler_Codec
  imports Rustler_Types
begin

text \<open>
  The contract of a transcoder and its lemmas. A \<open>transcoder\<close> decodes what it encoded, for the
  values that fit; a \<open>strict_transcoder\<close> also refuses the atom nil, which is what \<open>Option\<close> needs to
  tell a missing value from a present one. Each composed codec is shown to be a transcoder from
  those of its parts, and the transcoders of the basic types are interpretations.
\<close>

section \<open>Enough fuel\<close>

text \<open>A computation with fuel settles on a value if it returns it from some amount of fuel on.\<close>

definition settles :: "(nat \<Rightarrow> ('e, 'a) outcome) \<Rightarrow> 'a \<Rightarrow> bool" where
  "settles f v \<longleftrightarrow> (\<exists>need. \<forall>fuel \<ge> need. f fuel = Ok v)"

lemma settlesI: "(\<And>fuel. need \<le> fuel \<Longrightarrow> f fuel = Ok v) \<Longrightarrow> settles f v"
  unfolding settles_def by blast

lemma settles_const [simp]: "settles (\<lambda>_. r) v \<longleftrightarrow> r = Ok v"
  by (auto simp: settles_def)

lemma settles_map:
  assumes "settles f v" and "\<And>fuel. f fuel = Ok v \<Longrightarrow> g fuel = Ok w"
  shows "settles g w"
  using assms by (auto simp: settles_def)

lemma settles_both:
  assumes "settles f v" and "settles g w"
    and "\<And>fuel. f fuel = Ok v \<Longrightarrow> g fuel = Ok w \<Longrightarrow> h fuel = Ok u"
  shows "settles h u"
proof -
  obtain m n where "\<forall>fuel \<ge> m. f fuel = Ok v" "\<forall>fuel \<ge> n. g fuel = Ok w"
    using assms(1,2) by (auto simp: settles_def)
  then have "h fuel = Ok u" if "max m n \<le> fuel" for fuel using that by (auto intro: assms(3))
  then show ?thesis by (rule settlesI)
qed

lemma settles_unique: "settles f v \<Longrightarrow> settles f w \<Longrightarrow> v = w"
  unfolding settles_def by (metis nat_le_linear outcome.inject(1))

section \<open>The contract\<close>

locale transcoder =
  fixes N :: "'t nif" and enc :: "('t, 'a) encoder" and dec :: "nat \<Rightarrow> ('t, 'a) decoder"
    and fits :: "'a \<Rightarrow> bool"
  assumes round_trip:
    "nif_laws N \<Longrightarrow> fits x \<Longrightarrow> \<exists>t. enc x = Inr t \<and> settles (\<lambda>fuel. dec fuel t) x"
begin

lemma encodes:
  assumes "nif_laws N" and "fits x"
  obtains t where "enc x = Inr t" and "settles (\<lambda>fuel. dec fuel t) x"
  using round_trip [OF assms] by blast

text \<open>Encoding is injective: different values have different terms.\<close>

lemma enc_inject:
  assumes "nif_laws N" and "fits x" and "fits y" and "enc x = enc y"
  shows "x = y"
  using round_trip [OF assms(1,2)] round_trip [OF assms(1,3)] assms(4)
  by (auto intro: settles_unique)

text \<open>All elements of a list are encoded, and one amount of fuel decodes them all.\<close>

lemma encode_all_fits:
  assumes laws: "nif_laws N" and "\<forall>x \<in> set xs. fits x"
  shows "\<exists>ts need. encode_all enc xs = Inr ts \<and>
    (\<forall>fuel \<ge> need. list_all2 (\<lambda>t x. dec fuel t = Ok x) ts xs)"
  using assms(2)
proof (induction xs)
  case (Cons x xs)
  from Cons.prems have "fits x" by simp
  then obtain t m where x: "enc x = Inr t" "\<forall>fuel \<ge> m. dec fuel t = Ok x"
    using round_trip [OF laws, of x] unfolding settles_def by blast
  obtain ts n where xs: "encode_all enc xs = Inr ts"
    "\<forall>fuel \<ge> n. list_all2 (\<lambda>t x. dec fuel t = Ok x) ts xs"
    using Cons by auto
  have "\<forall>fuel \<ge> max m n. list_all2 (\<lambda>t x. dec fuel t = Ok x) (t # ts) (x # xs)"
    using x(2) xs(2) by simp
  moreover have "encode_all enc (x # xs) = Inr (t # ts)" using x(1) xs(1) by simp
  ultimately show ?case by blast
qed simp

end

text \<open>Collecting the cells of a proper list.\<close>

lemma list_cells:
  assumes "nif_laws N"
  shows "list_iterator_next N (enif_make_list_from_array N []) = Inr None"
    "list_iterator_next N (enif_make_list_from_array N (t # ts)) =
      Inr (Some (t, enif_make_list_from_array N ts))"
    "list_iterator_new N (enif_make_list_from_array N us) = Some (enif_make_list_from_array N us)"
  using nif_lawsD(3) [OF assms]
  by (auto simp: container_laws_def list_iterator_next_def list_iterator_new_def)

lemma collect_list:
  assumes "nif_laws N"
  shows "list_all2 (\<lambda>t x. dec t = Ok x) ts xs \<Longrightarrow> length ts < fuel \<Longrightarrow>
    collect N dec fuel (enif_make_list_from_array N ts) = Ok xs"
proof (induction ts arbitrary: xs fuel)
  case Nil
  then show ?case by (cases fuel) (simp_all add: list_cells [OF assms])
next
  case (Cons t ts)
  from Cons.prems(1) obtain x xs' where
    "xs = x # xs'" "dec t = Ok x" "list_all2 (\<lambda>t x. dec t = Ok x) ts xs'"
    by (auto simp: list_all2_Cons1)
  with Cons show ?case by (cases fuel) (simp_all add: list_cells [OF assms])
qed

lemma make_list_short: "length ts < 2 ^ 32 \<Longrightarrow> make_list N ts = enif_make_list_from_array N ts"
  by (simp add: make_list_def)

lemma length_encode_all: "encode_all enc xs = Inr ts \<Longrightarrow> length ts = length xs"
  by (induction xs arbitrary: ts) (auto simp: panic_bind_eq_Inr_iff)

context transcoder
begin

text \<open>\<open>Vec<T>\<close>: lists of fewer than \<open>2 ^ 32\<close> elements that fit.\<close>

lemma vec_transcoder:
  "transcoder N (encode_vec N enc) (decode_vec N dec)
     (\<lambda>xs. (\<forall>x \<in> set xs. fits x) \<and> length xs < 2 ^ 32)"
proof
  fix xs assume laws: "nif_laws N" and xs: "(\<forall>x \<in> set xs. fits x) \<and> length xs < 2 ^ 32"
  obtain ts need where ts: "encode_all enc xs = Inr ts"
    "\<forall>fuel \<ge> need. list_all2 (\<lambda>t x. dec fuel t = Ok x) ts xs"
    using encode_all_fits [OF laws] xs by blast
  have len: "length ts = length xs" using ts(1) by (rule length_encode_all)
  have "decode_vec N dec fuel (enif_make_list_from_array N ts) = Ok xs"
    if "max need (Suc (length ts)) \<le> fuel" for fuel
    using that ts(2) by (simp add: decode_vec_def decode_list_iterator_def list_cells [OF laws]
        collect_list [OF laws])
  then have "settles (\<lambda>fuel. decode_vec N dec fuel (enif_make_list_from_array N ts)) xs"
    by (rule settlesI)
  moreover have "encode_vec N enc xs = Inr (enif_make_list_from_array N ts)"
    using ts(1) len xs by (simp add: encode_vec_def make_list_short)
  ultimately show "\<exists>t. encode_vec N enc xs = Inr t \<and> settles (\<lambda>fuel. decode_vec N dec fuel t) xs"
    by blast
qed

end

section \<open>Tuples\<close>

lemma tuple_terms:
  assumes "nif_laws N" and "length ts < 2 ^ 24"
  shows "enif_get_tuple N (make_tuple N ts) = Some ts"
proof -
  have "length ts mod 2 ^ 32 = length ts" using assms(2) by simp
  with assms nif_lawsD(3) [OF assms(1)] show ?thesis
    by (simp add: make_tuple_def container_laws_def)
qed

lemma decode_pair_terms:
  assumes "nif_laws N"
  shows "decode_pair N dec_a dec_b (make_tuple N [a, b]) =
    result_bind (dec_a a) (\<lambda>x. result_bind (dec_b b) (\<lambda>y. Ok (x, y)))"
  using tuple_terms [OF assms, of "[a, b]"] by (simp add: decode_pair_def tuple_elements_def)

lemma decode_triple_terms:
  assumes "nif_laws N"
  shows "decode_triple N dec_a dec_b dec_c (make_tuple N [a, b, c]) =
    result_bind (dec_a a) (\<lambda>x. result_bind (dec_b b) (\<lambda>y. result_bind (dec_c c) (\<lambda>z. Ok (x, y, z))))"
  using tuple_terms [OF assms, of "[a, b, c]"]
  by (simp add: decode_triple_def tuple_elements_def)

text \<open>Two transcoders on the same terms give those of pairs and of results.\<close>

locale two_transcoders =
  a: transcoder N enc_a dec_a fits_a + b: transcoder N enc_b dec_b fits_b
  for N :: "'t nif" and enc_a :: "('t, 'a) encoder" and dec_a fits_a
    and enc_b :: "('t, 'b) encoder" and dec_b fits_b
begin

lemma pair_transcoder:
  "transcoder N (encode_pair N enc_a enc_b) (\<lambda>fuel. decode_pair N (dec_a fuel) (dec_b fuel))
     (\<lambda>p. fits_a (fst p) \<and> fits_b (snd p))"
proof
  fix p assume laws: "nif_laws N" and "fits_a (fst p) \<and> fits_b (snd p)"
  then have fits: "fits_a (fst p)" "fits_b (snd p)" by auto
  obtain s where s: "enc_a (fst p) = Inr s" "settles (\<lambda>fuel. dec_a fuel s) (fst p)"
    using laws fits(1) by (rule a.encodes)
  obtain t where t: "enc_b (snd p) = Inr t" "settles (\<lambda>fuel. dec_b fuel t) (snd p)"
    using laws fits(2) by (rule b.encodes)
  have "settles (\<lambda>fuel. decode_pair N (dec_a fuel) (dec_b fuel) (make_tuple N [s, t])) p"
    using s(2) t(2) by (rule settles_both) (simp add: decode_pair_terms [OF laws])
  with s(1) t(1) show "\<exists>u. encode_pair N enc_a enc_b p = Inr u \<and>
      settles (\<lambda>fuel. decode_pair N (dec_a fuel) (dec_b fuel) u) p"
    by (simp add: encode_pair_def)
qed

lemma result_transcoder:
  "transcoder N (encode_result N enc_a enc_b) (\<lambda>fuel. decode_result N (dec_a fuel) (dec_b fuel))
     (\<lambda>r. case r of Inr x \<Rightarrow> fits_a x | Inl e \<Rightarrow> fits_b e)"
proof
  fix r assume laws: "nif_laws N" and fits: "case r of Inr x \<Rightarrow> fits_a x | Inl e \<Rightarrow> fits_b e"
  have tags: "atom_named N ''ok'' \<noteq> atom_named N ''error''"
    "atom_named N ''error'' \<noteq> atom_named N ''ok''"
    by (simp_all add: atom_named_inject [OF laws])
  note defs = encode_result_def decode_result_def encode_pair_def decode_pair_terms [OF laws]
    encode_atom_def decode_atom_def decode_term_def atom_from_term_def rustler_atom_plain
    atom_named_facts [OF laws] tags
  show "\<exists>u. encode_result N enc_a enc_b r = Inr u \<and>
      settles (\<lambda>fuel. decode_result N (dec_a fuel) (dec_b fuel) u) r"
  proof (cases r)
    case (Inl e)
    with fits obtain t where "enc_b e = Inr t" "settles (\<lambda>fuel. dec_b fuel t) e"
      using b.encodes [OF laws, of e] by auto
    with Inl show ?thesis by (auto simp: defs elim!: settles_map)
  next
    case (Inr x)
    with fits obtain t where "enc_a x = Inr t" "settles (\<lambda>fuel. dec_a fuel t) x"
      using a.encodes [OF laws, of x] by auto
    with Inr show ?thesis by (auto simp: defs elim!: settles_map)
  qed
qed

end

section \<open>Options\<close>

locale strict_transcoder = transcoder +
  assumes rejects_nil: "nif_laws N \<Longrightarrow> \<exists>e. dec fuel (atom_named N ''nil'') = Err e"
begin

lemma option_transcoder:
  "transcoder N (encode_option N enc) (\<lambda>fuel. decode_option N (dec fuel))
     (\<lambda>x. case x of None \<Rightarrow> True | Some v \<Rightarrow> fits v)"
proof
  fix x assume laws: "nif_laws N" and fits: "case x of None \<Rightarrow> True | Some v \<Rightarrow> fits v"
  show "\<exists>t. encode_option N enc x = Inr t \<and>
      settles (\<lambda>fuel. decode_option N (dec fuel) t) x"
  proof (cases x)
    case None
    have "decode_option N (dec fuel) (atom_named N ''nil'') = Ok None" for fuel
      using rejects_nil [OF laws, of fuel] atom_named_facts(1) [OF laws]
      by (auto simp: decode_option_def decode_atom_def atom_from_term_def rustler_atom_plain)
    with None show ?thesis by (simp add: encode_option_def rustler_atom_plain encode_atom_def)
  next
    case (Some v)
    with fits obtain t where "enc v = Inr t" "settles (\<lambda>fuel. dec fuel t) v"
      using encodes [OF laws, of v] by auto
    with Some show ?thesis
      by (auto simp: encode_option_def decode_option_def elim!: settles_map)
  qed
qed

text \<open>A vector is never nil, whatever its elements are.\<close>

lemma vec_strict: "nif_laws N \<Longrightarrow> \<exists>e. decode_vec N dec fuel (atom_named N ''nil'') = Err e"
  using atom_named_facts(8,9) [of N "''nil''"]
  by (simp add: decode_vec_def decode_list_iterator_def list_iterator_new_def)

end

section \<open>The basic transcoders\<close>

lemma number_transcoder:
  assumes "nif_laws N \<Longrightarrow> decode_fun (encode_fun (as_nif x)) = Some (as_nif x)"
    and "as_dec (as_nif x) = x"
  shows "nif_laws N \<Longrightarrow> encode_number encode_fun as_nif x = Inr (encode_fun (as_nif x)) \<and>
    settles (\<lambda>fuel. decode_number decode_fun as_dec (encode_fun (as_nif x))) x"
  using assms by (simp add: encode_number_def decode_number_def)

text \<open>The narrow types come back from the wider C integer unchanged.\<close>

lemma narrow_casts [simp]:
  "ucast (scast (a :: 8 word) :: 32 word) = a" "ucast (ucast (a :: 8 word) :: 32 word) = a"
  "ucast (scast (b :: 16 word) :: 32 word) = b" "ucast (ucast (b :: 16 word) :: 32 word) = b"
     apply (rule bit_word_eqI, auto simp: bit_simps)[1]
    apply (rule bit_word_eqI, auto simp: bit_simps)[1]
   apply (rule bit_word_eqI, auto simp: bit_simps)[1]
  apply (rule bit_word_eqI, auto simp: bit_simps)[1]
  done

lemma number_round_trips:
  assumes "nif_laws N"
  shows "enif_get_int N (enif_make_int N n) = Some n" "enif_get_uint N (enif_make_uint N n) = Some n"
    "enif_get_int64 N (enif_make_int64 N m) = Some m"
    "enif_get_uint64 N (enif_make_uint64 N m) = Some m"
    "enif_inspect_binary N (enif_make_binary N bs) = Some bs"
  using nif_lawsD(2) [OF assms] by (simp_all add: value_laws_def)

interpretation i32: strict_transcoder N "encode_i32 N" "\<lambda>_. decode_i32 N" "\<lambda>_. True" for N
  by unfold_locales (auto simp: number_defs number_round_trips atom_named_facts)

interpretation u32: strict_transcoder N "encode_u32 N" "\<lambda>_. decode_u32 N" "\<lambda>_. True" for N
  by unfold_locales (auto simp: number_defs number_round_trips atom_named_facts)

interpretation i64: strict_transcoder N "encode_i64 N" "\<lambda>_. decode_i64 N" "\<lambda>_. True" for N
  by unfold_locales (auto simp: number_defs number_round_trips atom_named_facts)

interpretation u64: strict_transcoder N "encode_u64 N" "\<lambda>_. decode_u64 N" "\<lambda>_. True" for N
  by unfold_locales (auto simp: number_defs number_round_trips atom_named_facts)

interpretation i8: strict_transcoder N "encode_i8 N" "\<lambda>_. decode_i8 N" "\<lambda>_. True" for N
  by unfold_locales (auto simp: number_defs number_round_trips atom_named_facts)

interpretation u8: strict_transcoder N "encode_u8 N" "\<lambda>_. decode_u8 N" "\<lambda>_. True" for N
  by unfold_locales (auto simp: number_defs number_round_trips atom_named_facts)

interpretation i16: strict_transcoder N "encode_i16 N" "\<lambda>_. decode_i16 N" "\<lambda>_. True" for N
  by unfold_locales (auto simp: number_defs number_round_trips atom_named_facts)

interpretation u16: strict_transcoder N "encode_u16 N" "\<lambda>_. decode_u16 N" "\<lambda>_. True" for N
  by unfold_locales (auto simp: number_defs number_round_trips atom_named_facts)

interpretation usize: strict_transcoder N "encode_usize N" "\<lambda>_. decode_usize N" "\<lambda>_. True" for N
  by unfold_locales (auto simp: number_defs number_round_trips atom_named_facts)

interpretation isize: strict_transcoder N "encode_isize N" "\<lambda>_. decode_isize N" "\<lambda>_. True" for N
  by unfold_locales (auto simp: number_defs number_round_trips atom_named_facts)

text \<open>Floating point numbers, where the C interface and the casts keep them (the finite ones).\<close>

interpretation f64: transcoder N "encode_f64 make" "\<lambda>_. decode_f64 get" "\<lambda>d. get (make d) = Some d"
  for N make get
  by unfold_locales (simp add: encode_f64_def decode_f64_def encode_number_def decode_number_def)

interpretation f32: transcoder N "encode_f32 make promote" "\<lambda>_. decode_f32 get demote"
  "\<lambda>x. get (make (promote x)) = Some (promote x) \<and> demote (promote x) = x" for N make get promote demote
  by unfold_locales (simp add: encode_f32_def decode_f32_def encode_number_def decode_number_def)

interpretation bool: transcoder N "encode_bool N" "\<lambda>_. decode_bool N" "\<lambda>_. True" for N
proof
  fix b :: bool assume laws: "nif_laws N"
  show "\<exists>t. encode_bool N b = Inr t \<and> settles (\<lambda>fuel. decode_bool N t) b"
    by (cases b) (simp_all add: encode_bool_def decode_bool_def is_truthy_def rustler_atom_plain
        atom_named_inject [OF laws])
qed

text \<open>An atom of the C interface that \<open>Atom\<close> accepts.\<close>

interpretation atom: transcoder N encode_atom "\<lambda>_. decode_atom N" "\<lambda>a. enif_is_atom N a" for N
  by unfold_locales (simp add: encode_atom_def decode_atom_def atom_from_term_def)

lemma slice_write_full:
  "length dst = length data \<Longrightarrow> slice_write dst data = (data, length data)"
  by (simp add: slice_write_def)

lemma owned_new_length: "nif_laws N \<Longrightarrow> owned_new N n = Some bin \<Longrightarrow> length bin = n"
  using nif_lawsD(5) by (auto simp: owned_new_def allocator_laws_def)

text \<open>A Rust string is well-formed UTF-8; it is encoded if the allocator has room for it.\<close>

interpretation str: strict_transcoder N "encode_str N" "\<lambda>_. decode_str N"
  "\<lambda>s. utf8_valid (as_bytes s) \<and> owned_new N (length s) \<noteq> None" for N
proof
  fix s assume laws: "nif_laws N" and s: "utf8_valid (as_bytes s) \<and> owned_new N (length s) \<noteq> None"
  then obtain bin where "owned_new N (length s) = Some bin" by auto
  moreover from this have "length bin = length (as_bytes s)" using laws by (simp add: owned_new_length)
  ultimately show "\<exists>t. encode_str N s = Inr t \<and> settles (\<lambda>fuel. decode_str N t) s"
    using s by (simp add: encode_str_def slice_write_full binary_from_owned_def decode_str_def
        binary_from_term_def number_round_trips [OF laws] from_utf8_def)
qed (auto simp: decode_str_def binary_from_term_def atom_named_facts)

text \<open>A transcoder of lists of strings is composed from that of strings.\<close>

interpretation strings: transcoder N "encode_vec N (encode_str N)" "decode_vec N (\<lambda>_. decode_str N)"
  "\<lambda>xs. (\<forall>s \<in> set xs. utf8_valid (as_bytes s) \<and> owned_new N (length s) \<noteq> None) \<and>
     length xs < 2 ^ 32" for N
  by (rule str.vec_transcoder)

interpretation u64_option: transcoder N "encode_option N (encode_u64 N)"
  "\<lambda>_. decode_option N (decode_u64 N)" "\<lambda>x. case x of None \<Rightarrow> True | Some v \<Rightarrow> True" for N
  by (rule u64.option_transcoder)

interpretation strings_or_code: two_transcoders N "encode_vec N (encode_str N)"
  "decode_vec N (\<lambda>_. decode_str N)"
  "\<lambda>xs. (\<forall>s \<in> set xs. utf8_valid (as_bytes s) \<and> owned_new N (length s) \<noteq> None) \<and>
     length xs < 2 ^ 32"
  "encode_option N (encode_u64 N)" "\<lambda>_. decode_option N (decode_u64 N)"
  "\<lambda>x. case x of None \<Rightarrow> True | Some v \<Rightarrow> True" for N ..

end
