(* ===== verification/Rustler_Codegen.thy ===== *)
theory Rustler_Codegen
  imports Rustler_Codec
begin

text \<open>
  priv/rustler/rustler\_codegen: the derive macros. A macro takes the syntax tree of a struct or an
  enum (the parser \<open>syn\<close> is not under src/; the records below are the part of its tree that the
  macros look at) and yields the two functions it generates, an encoder and a decoder. The value
  of a struct is the list of the values of its fields, of one type \<open>'v\<close>; a field carries the
  transcoder of its type. The value of an enum is the index of the variant and its content.
\<close>

section \<open>The input of a macro\<close>

record ('t, 'v) field =
  field_ident :: "string option"
  field_enc :: "('t, 'v) encoder"
  field_dec :: "nat \<Rightarrow> ('t, 'v) decoder"

datatype ('t, 'v) variant_data =
  StructData "('t, 'v) field list" | TupleData "('t, 'v) field list" | UnitData

datatype ('t, 'v) body =
  StructBody "('t, 'v) variant_data" | EnumBody "(string \<times> ('t, 'v) variant_data) list"

text \<open>An attribute is its name with the string of a \<open>name = "string"\<close> attribute, if it is one.\<close>

record ('t, 'v) derive_input =
  attrs :: "(string \<times> string option) list"
  lifetimes :: nat
  input_body :: "('t, 'v) body"

fun data_fields :: "('t, 'v) variant_data \<Rightarrow> ('t, 'v) field list" where
  "data_fields (StructData fs) = fs"
| "data_fields (TupleData fs) = fs"
| "data_fields UnitData = []"

text \<open>What a macro generates.\<close>

record ('t, 'v) generated =
  gen_encode :: "('t, 'v) encoder"
  gen_decode :: "nat \<Rightarrow> ('t, 'v) decoder"

section \<open>The parts of the generated code\<close>

text \<open>\<open>rustler_atoms!\<close> makes all atoms of the struct when the first one is asked for.\<close>

definition rustler_atoms :: "'t nif \<Rightarrow> string list \<Rightarrow> 't list may_panic" where
  "rustler_atoms N names = encode_all (rustler_atom N) names"

text \<open>The atoms that Rustler itself uses: the names of the functions and the names of the atoms.\<close>

definition predefined_atoms :: "(string \<times> string) list" where
  "predefined_atoms =
     [(''nil'', ''nil''), (''ok'', ''ok''), (''error'', ''error''), (''badarg'', ''badarg''),
      (''false_'', ''false''), (''true_'', ''true''), (''__struct__'', ''__struct__'')]"

lemma predefined_atoms_made:
  "rustler_atoms N (map snd predefined_atoms) = Inr (map (atom_named N \<circ> snd) predefined_atoms)"
  by (simp add: rustler_atoms_def predefined_atoms_def rustler_atom_plain)

text \<open>Fields as entries of a map, fields as elements of a tuple.\<close>

fun put_fields :: "'t nif \<Rightarrow> 't \<Rightarrow> (('t \<times> ('t, 'v) field) \<times> 'v) list \<Rightarrow> 't may_panic" where
  "put_fields N m [] = Inr m"
| "put_fields N m (((key, f), v) # rest) =
     panic_bind (field_enc f v) (\<lambda>x.
     case map_put N m key x of
       Ok m' \<Rightarrow> put_fields N m' rest
     | _ \<Rightarrow> Inl unwrap_none_msg)"

fun get_fields :: "'t nif \<Rightarrow> nat \<Rightarrow> 't \<Rightarrow> ('t \<times> ('t, 'v) field) list \<Rightarrow> ('t, 'v list) nif_result" where
  "get_fields N fuel m [] = Ok []"
| "get_fields N fuel m ((key, f) # rest) =
     result_bind (map_get N m key) (\<lambda>x.
     result_bind (field_dec f fuel x) (\<lambda>v.
     result_bind (get_fields N fuel m rest) (\<lambda>vs. Ok (v # vs))))"

fun encode_fields :: "('t, 'v) field list \<Rightarrow> 'v list \<Rightarrow> 't list may_panic" where
  "encode_fields (f # fs) (v # vs) =
     panic_bind (field_enc f v) (\<lambda>t. panic_bind (encode_fields fs vs) (\<lambda>ts. Inr (t # ts)))"
| "encode_fields _ _ = Inr []"

fun decode_fields :: "nat \<Rightarrow> ('t, 'v) field list \<Rightarrow> 't list \<Rightarrow> ('t, 'v list) nif_result" where
  "decode_fields fuel (f # fs) (t # ts) =
     result_bind (field_dec f fuel t) (\<lambda>v.
     result_bind (decode_fields fuel fs ts) (\<lambda>vs. Ok (v # vs)))"
| "decode_fields fuel _ _ = Ok []"

section \<open>NifStruct\<close>

definition ex_struct_encoder ::
  "'t nif \<Rightarrow> string \<Rightarrow> (string \<times> ('t, 'v) field) list \<Rightarrow> ('t, 'v list) encoder" where
  "ex_struct_encoder N elixir_module fds vs =
     panic_bind (rustler_atoms N (''__struct__'' # elixir_module # map fst fds)) (\<lambda>atoms.
     case map_put N (map_new N) (atoms ! 0) (atoms ! 1) of
       Ok m \<Rightarrow> put_fields N m (zip (zip (drop 2 atoms) (map snd fds)) vs)
     | _ \<Rightarrow> Inl unwrap_none_msg)"

definition ex_struct_decoder ::
  "'t nif \<Rightarrow> string \<Rightarrow> (string \<times> ('t, 'v) field) list \<Rightarrow> nat \<Rightarrow> ('t, 'v list) decoder" where
  "ex_struct_decoder N elixir_module fds fuel t =
     (case rustler_atoms N (''__struct__'' # elixir_module # map fst fds) of
        Inl p \<Rightarrow> Panic p
      | Inr atoms \<Rightarrow>
          result_bind (map_get N t (atoms ! 0)) (\<lambda>x.
          result_bind (decode_atom N x) (\<lambda>struct_module.
          if struct_module \<noteq> atoms ! 1 then Err (AtomError ''invalid_struct'')
          else get_fields N fuel t (zip (drop 2 atoms) (map snd fds)))))"

section \<open>NifMap\<close>

definition map_encoder ::
  "'t nif \<Rightarrow> (string \<times> ('t, 'v) field) list \<Rightarrow> ('t, 'v list) encoder" where
  "map_encoder N fds vs =
     panic_bind (rustler_atoms N (map fst fds)) (\<lambda>atoms.
     put_fields N (map_new N) (zip (zip atoms (map snd fds)) vs))"

definition map_decoder ::
  "'t nif \<Rightarrow> (string \<times> ('t, 'v) field) list \<Rightarrow> nat \<Rightarrow> ('t, 'v list) decoder" where
  "map_decoder N fds fuel t =
     (case rustler_atoms N (map fst fds) of
        Inl p \<Rightarrow> Panic p
      | Inr atoms \<Rightarrow> get_fields N fuel t (zip atoms (map snd fds)))"

section \<open>NifTuple\<close>

definition tuple_encoder :: "'t nif \<Rightarrow> ('t, 'v) field list \<Rightarrow> ('t, 'v list) encoder" where
  "tuple_encoder N fds vs = panic_bind (encode_fields fds vs) (\<lambda>arr. Inr (make_tuple N arr))"

definition tuple_decoder ::
  "'t nif \<Rightarrow> ('t, 'v) field list \<Rightarrow> nat \<Rightarrow> ('t, 'v list) decoder" where
  "tuple_decoder N fds fuel t =
     result_bind (get_tuple N t) (\<lambda>terms.
     if length terms \<noteq> length fds then Err BadArg else decode_fields fuel fds terms)"

section \<open>NifRecord\<close>

definition record_encoder ::
  "'t nif \<Rightarrow> string \<Rightarrow> ('t, 'v) field list \<Rightarrow> ('t, 'v list) encoder" where
  "record_encoder N record_tag fds vs =
     panic_bind (rustler_atom N record_tag) (\<lambda>tag.
     panic_bind (encode_fields fds vs) (\<lambda>arr. Inr (make_tuple N (tag # arr))))"

definition record_decoder ::
  "'t nif \<Rightarrow> string \<Rightarrow> ('t, 'v) field list \<Rightarrow> nat \<Rightarrow> ('t, 'v list) decoder" where
  "record_decoder N record_tag fds fuel t =
     result_bind (get_tuple N t) (\<lambda>terms.
     if length terms \<noteq> length fds + 1 then Err (AtomError ''invalid_record'')
     else
       result_bind (decode_atom N (terms ! 0)) (\<lambda>tag.
       case rustler_atom N record_tag of
         Inl p \<Rightarrow> Panic p
       | Inr atom_tag \<Rightarrow>
           if tag \<noteq> atom_tag then Err (AtomError ''invalid_record'')
           else decode_fields fuel fds (drop 1 terms)))"

section \<open>NifUnitEnum\<close>

text \<open>The names are those of the variants in snake case (crate heck, not under src/).\<close>

definition unit_enum_encoder :: "'t nif \<Rightarrow> string list \<Rightarrow> ('t, nat) encoder" where
  "unit_enum_encoder N names i = panic_bind (rustler_atoms N names) (\<lambda>atoms. Inr (atoms ! i))"

fun find_variant :: "'t \<Rightarrow> nat \<Rightarrow> 't list \<Rightarrow> nat option" where
  "find_variant v i [] = None"
| "find_variant v i (a # as) = (if v = a then Some i else find_variant v (Suc i) as)"

definition unit_enum_decoder :: "'t nif \<Rightarrow> string list \<Rightarrow> ('t, nat) decoder" where
  "unit_enum_decoder N names t =
     result_bind (atom_from_term N t) (\<lambda>v.
     case rustler_atoms N names of
       Inl p \<Rightarrow> Panic p
     | Inr atoms \<Rightarrow>
         (case find_variant v 0 atoms of
            Some i \<Rightarrow> Ok i
          | None \<Rightarrow> Err (AtomError ''invalid_variant'')))"

section \<open>NifUntaggedEnum\<close>

definition untagged_enum_encoder :: "('t, 'v) field list \<Rightarrow> ('t, nat \<times> 'v) encoder" where
  "untagged_enum_encoder fds iv = field_enc (fds ! fst iv) (snd iv)"

text \<open>The variants are tried in their order; the first whose type accepts the term is taken.\<close>

fun untagged_enum_decoder ::
  "('t, 'v) field list \<Rightarrow> nat \<Rightarrow> nat \<Rightarrow> ('t, nat \<times> 'v) decoder" where
  "untagged_enum_decoder [] i fuel t = Err (AtomError ''invalid_variant'')"
| "untagged_enum_decoder (f # fs) i fuel t =
     (case field_dec f fuel t of
        Ok v \<Rightarrow> Ok (i, v)
      | Err e \<Rightarrow> untagged_enum_decoder fs (Suc i) fuel t
      | Panic p \<Rightarrow> Panic p
      | Timeout \<Rightarrow> Timeout)"

section \<open>The macros\<close>

text \<open>
  A macro panics on an input it is not meant for, or returns the error that the entry point then
  unwraps; both end the compilation.
\<close>

type_synonym 'g derived = "(string, 'g) outcome"

fun named_fields :: "('t, 'v) field list \<Rightarrow> (string \<times> ('t, 'v) field) list derived" where
  "named_fields [] = Ok []"
| "named_fields (f # fs) =
     (case field_ident f of
        None \<Rightarrow> Panic unwrap_none_msg
      | Some ident \<Rightarrow> result_bind (named_fields fs) (\<lambda>rest. Ok ((ident, f) # rest)))"

definition find_attr :: "string \<Rightarrow> (string \<times> string option) list \<Rightarrow> string option option" where
  "find_attr name as = map_option snd (find (\<lambda>a. fst a = name) as)"

definition derive_ex_struct ::
  "'t nif \<Rightarrow> ('t, 'v) derive_input \<Rightarrow> ('t, 'v list) generated derived" where
  "derive_ex_struct N ast =
     (case find_attr ''module'' (attrs ast) of
        Some (Some v) \<Rightarrow>
          (case input_body ast of
             EnumBody vs \<Rightarrow> Panic ''NifStruct can only be used with structs''
           | StructBody data \<Rightarrow>
               if 1 < lifetimes ast then Panic ''Struct can only have one lifetime argument''
               else
                 result_bind (named_fields (data_fields data)) (\<lambda>fds.
                 Ok \<lparr>gen_encode = ex_struct_encoder N (''Elixir.'' @ v) fds,
                     gen_decode = ex_struct_decoder N (''Elixir.'' @ v) fds\<rparr>))
      | _ \<Rightarrow> Panic ''NifStruct requires a 'module' attribute'')"

definition struct_data :: "('t, 'v) body \<Rightarrow> ('t, 'v) field list derived" where
  "struct_data b =
     (case b of StructBody (StructData fs) \<Rightarrow> Ok fs | _ \<Rightarrow> Err ''Must decorate a struct'')"

definition one_lifetime :: "nat \<Rightarrow> unit derived" where
  "one_lifetime n =
     (if 1 < n then Err ''Struct can only have one lifetime argument'' else Ok ())"

definition derive_map ::
  "'t nif \<Rightarrow> ('t, 'v) derive_input \<Rightarrow> ('t, 'v list) generated derived" where
  "derive_map N ast =
     result_bind (struct_data (input_body ast)) (\<lambda>fs.
     result_bind (one_lifetime (lifetimes ast)) (\<lambda>_.
     result_bind (named_fields fs) (\<lambda>fds.
     Ok \<lparr>gen_encode = map_encoder N fds, gen_decode = map_decoder N fds\<rparr>)))"

definition derive_tuple ::
  "'t nif \<Rightarrow> ('t, 'v) derive_input \<Rightarrow> ('t, 'v list) generated derived" where
  "derive_tuple N ast =
     result_bind (struct_data (input_body ast)) (\<lambda>fs.
     result_bind (one_lifetime (lifetimes ast)) (\<lambda>_.
     result_bind (named_fields fs) (\<lambda>fds.
     Ok \<lparr>gen_encode = tuple_encoder N fs, gen_decode = tuple_decoder N fs\<rparr>)))"

definition derive_record ::
  "'t nif \<Rightarrow> ('t, 'v) derive_input \<Rightarrow> ('t, 'v list) generated derived" where
  "derive_record N ast =
     (case find_attr ''tag'' (attrs ast) of
        Some (Some record_tag) \<Rightarrow>
          result_bind (struct_data (input_body ast)) (\<lambda>fs.
          result_bind (one_lifetime (lifetimes ast)) (\<lambda>_.
          result_bind (named_fields fs) (\<lambda>fds.
          Ok \<lparr>gen_encode = record_encoder N record_tag fs,
              gen_decode = record_decoder N record_tag fs\<rparr>)))
      | _ \<Rightarrow> Panic ''NifRecord requires a 'tag' attribute'')"

definition derive_unit_enum ::
  "'t nif \<Rightarrow> (string \<Rightarrow> string) \<Rightarrow> ('t, 'v) derive_input \<Rightarrow> ('t, nat) generated derived" where
  "derive_unit_enum N to_snake_case ast =
     (case input_body ast of
        StructBody d \<Rightarrow> Panic ''NifUnitEnum can only be used with enums''
      | EnumBody variants \<Rightarrow>
          if 1 < lifetimes ast then Panic ''Enum can only have one lifetime argument''
          else if \<exists>v \<in> set variants. snd v \<noteq> UnitData
          then Panic ''NifUnitEnum can only be used with enums that contain all unit variants.''
          else let names = map (\<lambda>v. to_snake_case (fst v)) variants
               in Ok \<lparr>gen_encode = unit_enum_encoder N names,
                      gen_decode = (\<lambda>_. unit_enum_decoder N names)\<rparr>)"

fun newtype_field :: "('t, 'v) variant_data \<Rightarrow> ('t, 'v) field option" where
  "newtype_field (TupleData [f]) = Some f"
| "newtype_field _ = None"

definition derive_untagged_enum ::
  "('t, 'v) derive_input \<Rightarrow> ('t, nat \<times> 'v) generated derived" where
  "derive_untagged_enum ast =
     (case input_body ast of
        StructBody d \<Rightarrow> Panic ''NifUntaggedEnum can only be used with enums''
      | EnumBody variants \<Rightarrow>
          if 1 < lifetimes ast then Panic ''Enum can only have one lifetime argument''
          else (case those (map (\<lambda>v. newtype_field (snd v)) variants) of
                  None \<Rightarrow>
                    Panic ''NifUntaggedEnum can only be used with enums that contain all NewType variants.''
                | Some fs \<Rightarrow>
                    Ok \<lparr>gen_encode = untagged_enum_encoder fs,
                        gen_decode = untagged_enum_decoder fs 0\<rparr>))"

text \<open>The entry points unwrap the result.\<close>

definition unwrap_derived :: "'g derived \<Rightarrow> 'g may_panic" where
  "unwrap_derived r =
     (case r of Ok g \<Rightarrow> Inr g | Panic p \<Rightarrow> Inl p | _ \<Rightarrow> Inl unwrap_err_msg)"

definition nif_struct :: "'t nif \<Rightarrow> ('t, 'v) derive_input \<Rightarrow> ('t, 'v list) generated may_panic" where
  "nif_struct N ast = unwrap_derived (derive_ex_struct N ast)"

definition nif_map :: "'t nif \<Rightarrow> ('t, 'v) derive_input \<Rightarrow> ('t, 'v list) generated may_panic" where
  "nif_map N ast = unwrap_derived (derive_map N ast)"

definition nif_tuple :: "'t nif \<Rightarrow> ('t, 'v) derive_input \<Rightarrow> ('t, 'v list) generated may_panic" where
  "nif_tuple N ast = unwrap_derived (derive_tuple N ast)"

definition nif_record :: "'t nif \<Rightarrow> ('t, 'v) derive_input \<Rightarrow> ('t, 'v list) generated may_panic" where
  "nif_record N ast = unwrap_derived (derive_record N ast)"

definition nif_unit_enum ::
  "'t nif \<Rightarrow> (string \<Rightarrow> string) \<Rightarrow> ('t, 'v) derive_input \<Rightarrow> ('t, nat) generated may_panic" where
  "nif_unit_enum N to_snake_case ast = unwrap_derived (derive_unit_enum N to_snake_case ast)"

definition nif_untagged_enum :: "('t, 'v) derive_input \<Rightarrow> ('t, nat \<times> 'v) generated may_panic" where
  "nif_untagged_enum ast = unwrap_derived (derive_untagged_enum ast)"

section \<open>Round trips of the parts\<close>

text \<open>A field carries a value if its transcoder brings the value back.\<close>

definition carries :: "('t, 'v) field \<Rightarrow> 'v \<Rightarrow> bool" where
  "carries f v \<longleftrightarrow> (\<exists>t. field_enc f v = Inr t \<and> settles (\<lambda>fuel. field_dec f fuel t) v)"

context transcoder
begin

lemma carries_field:
  "nif_laws N \<Longrightarrow> fits v \<Longrightarrow> carries \<lparr>field_ident = ident, field_enc = enc, field_dec = dec\<rparr> v"
  using round_trip by (simp add: carries_def)

end

lemma rustler_atoms_plain:
  "\<forall>s \<in> set names. plain_name s \<Longrightarrow> rustler_atoms N names = Inr (map (atom_named N) names)"
  by (induction names) (simp_all add: rustler_atoms_def rustler_atom_plain)

lemma map_put_new:
  assumes "nif_laws N" and "enif_is_map N m"
  obtains m' where "map_put N m k v = Ok m'" "enif_is_map N m'" "map_get N m' k = Ok v"
    "\<forall>k'. k' \<noteq> k \<longrightarrow> map_get N m' k' = map_get N m k'"
proof -
  from nif_lawsD(4) [OF assms(1)] assms(2) obtain m' where
    "enif_make_map_put N m k v = Some m'" "enif_is_map N m'" "enif_get_map_value N m' k = Some v"
    "\<forall>k'. k' \<noteq> k \<longrightarrow> enif_get_map_value N m' k' = enif_get_map_value N m k'"
    unfolding map_laws_def by blast
  then show thesis by (intro that [of m']) (simp_all add: map_put_def map_get_def)
qed

text \<open>Putting fields under different keys and getting them back.\<close>

lemma put_get_fields:
  assumes laws: "nif_laws N"
  shows "enif_is_map N m \<Longrightarrow> distinct (map (\<lambda>x. fst (fst x)) kfvs) \<Longrightarrow>
    \<forall>x \<in> set kfvs. carries (snd (fst x)) (snd x) \<Longrightarrow>
    \<exists>m'. put_fields N m kfvs = Inr m' \<and> enif_is_map N m' \<and>
      (\<forall>k. k \<notin> (\<lambda>x. fst (fst x)) ` set kfvs \<longrightarrow> map_get N m' k = map_get N m k) \<and>
      settles (\<lambda>fuel. get_fields N fuel m' (map fst kfvs)) (map snd kfvs)"
proof (induction kfvs arbitrary: m)
  case (Cons x rest)
  obtain k f v where x: "x = ((k, f), v)" by (cases x) auto
  from Cons.prems(3) x obtain t where t: "field_enc f v = Inr t" "settles (\<lambda>fuel. field_dec f fuel t) v"
    by (auto simp: carries_def)
  obtain m1 where m1: "map_put N m k t = Ok m1" "enif_is_map N m1" "map_get N m1 k = Ok t"
    "\<forall>k'. k' \<noteq> k \<longrightarrow> map_get N m1 k' = map_get N m k'"
    using laws Cons.prems(1) by (rule map_put_new)
  from Cons.IH [OF m1(2)] Cons.prems(2,3) obtain m' where m':
    "put_fields N m1 rest = Inr m'" "enif_is_map N m'"
    "\<forall>k. k \<notin> (\<lambda>x. fst (fst x)) ` set rest \<longrightarrow> map_get N m' k = map_get N m1 k"
    "settles (\<lambda>fuel. get_fields N fuel m' (map fst rest)) (map snd rest)"
    by auto
  have "map_get N m' k = Ok t" using m'(3) m1(3) Cons.prems(2) x by auto
  then have "settles (\<lambda>fuel. get_fields N fuel m' (map fst (x # rest))) (map snd (x # rest))"
    using x by (intro settles_both [OF t(2) m'(4)]) simp
  with x t(1) m1 m'(1-3) show ?case by (intro exI [of _ m']) auto
qed simp

lemma fields_elements:
  assumes "length vs = length fs" and "\<forall>x \<in> set (zip fs vs). carries (fst x) (snd x)"
  shows "\<exists>ts. encode_fields fs vs = Inr ts \<and> length ts = length fs \<and>
    settles (\<lambda>fuel. decode_fields fuel fs ts) vs"
  using assms
proof (induction fs vs rule: list_induct2')
  case (4 f fs v vs)
  from "4.prems" obtain t where t: "field_enc f v = Inr t" "settles (\<lambda>fuel. field_dec f fuel t) v"
    by (auto simp: carries_def)
  from 4 obtain ts where ts: "encode_fields fs vs = Inr ts" "length ts = length fs"
    "settles (\<lambda>fuel. decode_fields fuel fs ts) vs"
    by auto
  have "settles (\<lambda>fuel. decode_fields fuel (f # fs) (t # ts)) (v # vs)"
    by (rule settles_both [OF t(2) ts(3)]) simp
  with t(1) ts(1,2) show ?case by auto
qed auto

lemma named_fields_Ok:
  "\<forall>(name, f) \<in> set fds. field_ident f = Some name \<Longrightarrow> named_fields (map snd fds) = Ok fds"
  by (induction fds) auto

section \<open>Round trips of the generated code\<close>

definition brings_back :: "('t, 'a) generated \<Rightarrow> 'a \<Rightarrow> bool" where
  "brings_back g v \<longleftrightarrow>
     (\<exists>t. gen_encode g v = Inr t \<and> settles (\<lambda>fuel. gen_decode g fuel t) v)"

lemma put_get_named:
  assumes laws: "nif_laws N" and m: "enif_is_map N m"
    and plain: "\<forall>s \<in> set (map fst fds). plain_name s" and dist: "distinct (map fst fds)"
    and len: "length vs = length fds"
    and carries: "\<forall>x \<in> set (zip (map snd fds) vs). carries (fst x) (snd x)"
  defines "keyed \<equiv> zip (map (atom_named N) (map fst fds)) (map snd fds)"
  shows "\<exists>m'. put_fields N m (zip keyed vs) = Inr m' \<and>
    (\<forall>k. k \<notin> atom_named N ` set (map fst fds) \<longrightarrow> map_get N m' k = map_get N m k) \<and>
    settles (\<lambda>fuel. get_fields N fuel m' keyed) vs"
proof -
  have keys: "map fst keyed = map (atom_named N) (map fst fds)" "map snd keyed = map snd fds"
    by (simp_all add: keyed_def map_fst_zip map_snd_zip)
  have parts: "map fst (zip keyed vs) = keyed" "map snd (zip keyed vs) = vs"
    using len by (simp_all add: keyed_def)
  have names: "map (\<lambda>x. fst (fst x)) (zip keyed vs) = map (atom_named N) (map fst fds)"
    using parts(1) keys(1) by (metis (no_types, lifting) comp_apply map_map map_eq_conv)
  have "inj_on (atom_named N) (set (map fst fds))"
    using plain by (auto simp: inj_on_def atom_named_inject [OF laws])
  with dist have "distinct (map (\<lambda>x. fst (fst x)) (zip keyed vs))"
    by (simp only: names distinct_map)
  moreover have "\<forall>x \<in> set (zip keyed vs). carries (snd (fst x)) (snd x)"
  proof
    fix x assume "x \<in> set (zip keyed vs)"
    then obtain i where i: "i < length vs" "i < length keyed" "x = (keyed ! i, vs ! i)"
      by (auto simp: set_zip)
    have "snd (keyed ! i) = map snd fds ! i" using keys(2) i(2) by (metis nth_map)
    moreover have "(map snd fds ! i, vs ! i) \<in> set (zip (map snd fds) vs)"
      using i(1) len unfolding set_zip by (intro CollectI exI [of _ i]) simp
    ultimately show "carries (snd (fst x)) (snd x)" using carries i(3) by auto
  qed
  moreover have "(\<lambda>x. fst (fst x)) ` set (zip keyed vs) = atom_named N ` set (map fst fds)"
    using names by (metis (no_types, lifting) image_set)
  ultimately show ?thesis
    using put_get_fields [OF laws m, of "zip keyed vs"] unfolding parts by auto
qed

lemma new_map_is_map: "nif_laws N \<Longrightarrow> enif_is_map N (map_new N)"
  using nif_lawsD(4) [of N] by (simp add: map_laws_def map_new_def)

lemma map_brings_back:
  assumes laws: "nif_laws N" and plain: "\<forall>s \<in> set (map fst fds). plain_name s"
    and dist: "distinct (map fst fds)" and len: "length vs = length fds"
    and carries: "\<forall>x \<in> set (zip (map snd fds) vs). carries (fst x) (snd x)"
  shows "brings_back \<lparr>gen_encode = map_encoder N fds, gen_decode = map_decoder N fds\<rparr> vs"
  using put_get_named [OF laws new_map_is_map [OF laws] plain dist len carries]
  by (auto simp: brings_back_def map_encoder_def map_decoder_def rustler_atoms_plain [OF plain])

lemma ex_struct_brings_back:
  assumes laws: "nif_laws N" and m: "plain_name m"
    and plain: "\<forall>s \<in> set (map fst fds). plain_name s"
    and dist: "distinct (''__struct__'' # map fst fds)" and len: "length vs = length fds"
    and carries: "\<forall>x \<in> set (zip (map snd fds) vs). carries (fst x) (snd x)"
  shows "brings_back \<lparr>gen_encode = ex_struct_encoder N m fds, gen_decode = ex_struct_decoder N m fds\<rparr> vs"
proof -
  have atoms: "rustler_atoms N (''__struct__'' # m # map fst fds) =
      Inr (map (atom_named N) (''__struct__'' # m # map fst fds))"
    using plain m by (intro rustler_atoms_plain) auto
  obtain m1 where m1: "map_put N (map_new N) (atom_named N ''__struct__'') (atom_named N m) = Ok m1"
    "enif_is_map N m1" "map_get N m1 (atom_named N ''__struct__'') = Ok (atom_named N m)"
    using map_put_new [OF laws new_map_is_map [OF laws]] by blast
  have fresh: "atom_named N ''__struct__'' \<notin> atom_named N ` set (map fst fds)"
  proof
    assume "atom_named N ''__struct__'' \<in> atom_named N ` set (map fst fds)"
    then obtain s where s: "s \<in> set (map fst fds)" "atom_named N ''__struct__'' = atom_named N s"
      by blast
    from s(1) plain have "plain_name s" by (rule bspec [rotated])
    with s(2) have "''__struct__'' = s" using atom_named_inject [OF laws plain_names(7), of s] by simp
    with s(1) dist show False by simp
  qed
  have "distinct (map fst fds)" using dist by simp
  from put_get_named [OF laws m1(2) plain this len carries] fresh m1(3) obtain m2 where
    m2: "put_fields N m1 (zip (zip (map (atom_named N) (map fst fds)) (map snd fds)) vs) = Inr m2"
      "map_get N m2 (atom_named N ''__struct__'') = Ok (atom_named N m)"
      "settles (\<lambda>fuel. get_fields N fuel m2 (zip (map (atom_named N) (map fst fds)) (map snd fds))) vs"
    by auto
  then show ?thesis
    using m1(1) atom_named_facts(1) [OF laws m]
    by (auto simp: brings_back_def ex_struct_encoder_def ex_struct_decoder_def atoms decode_atom_def
        atom_from_term_def)
qed

lemma tuple_brings_back:
  assumes laws: "nif_laws N" and len: "length vs = length fs" "length fs < 2 ^ 24"
    and carries: "\<forall>x \<in> set (zip fs vs). carries (fst x) (snd x)"
  shows "brings_back \<lparr>gen_encode = tuple_encoder N fs, gen_decode = tuple_decoder N fs\<rparr> vs"
proof -
  obtain ts where "encode_fields fs vs = Inr ts" "length ts = length fs"
    "settles (\<lambda>fuel. decode_fields fuel fs ts) vs"
    using fields_elements [OF len(1) carries] by blast
  with len(2) show ?thesis
    by (simp add: brings_back_def tuple_encoder_def tuple_decoder_def get_tuple_def
        tuple_terms [OF laws])
qed

lemma record_brings_back:
  assumes laws: "nif_laws N" and tag: "plain_name tag"
    and len: "length vs = length fs" "length fs + 1 < 2 ^ 24"
    and carries: "\<forall>x \<in> set (zip fs vs). carries (fst x) (snd x)"
  shows "brings_back \<lparr>gen_encode = record_encoder N tag fs, gen_decode = record_decoder N tag fs\<rparr> vs"
proof -
  obtain ts where "encode_fields fs vs = Inr ts" "length ts = length fs"
    "settles (\<lambda>fuel. decode_fields fuel fs ts) vs"
    using fields_elements [OF len(1) carries] by blast
  with len(2) show ?thesis
    by (simp add: brings_back_def record_encoder_def record_decoder_def get_tuple_def
        tuple_terms [OF laws] rustler_atom_plain [OF tag] decode_atom_def atom_from_term_def
        atom_named_facts(1) [OF laws tag])
qed

end
