(* ===== verification/Rustler_Env.thy ===== *)
theory Rustler_Env
  imports Rustler_Types
begin

text \<open>
  Environments (env.rs, term.rs): a term belongs to an environment and is copied into another one
  before it is used there. An \<open>OwnedEnv\<close> is a process-independent environment; a \<open>SavedTerm\<close> keeps a
  term of it and a weak reference to the \<open>Arc\<close> the \<open>OwnedEnv\<close> holds, which is replaced whenever the
  environment is cleared, so that an outdated \<open>SavedTerm\<close> is recognised.

  The heap of the model is what the Erlang virtual machine knows: the environments that are
  allocated, each with the terms that live in it, and the \<open>Arc\<close>s that are still owned. Pointers of
  freed environments may be handed out again; an \<open>Arc\<close> allocation is not, as long as a weak reference
  to it exists, so the model never reuses one.
\<close>

section \<open>Terms in environments\<close>

record 't env_term =
  raw_term :: 't
  term_env :: nat

text \<open>\<open>Term::in_env\<close>; \<open>copy_term\<close> is \<open>enif_make_copy\<close> into the environment.\<close>

definition in_env :: "(nat \<Rightarrow> 't \<Rightarrow> 't) \<Rightarrow> 't env_term \<Rightarrow> nat \<Rightarrow> 't env_term" where
  "in_env copy_term t env =
     (if term_env t = env then \<lparr>raw_term = raw_term t, term_env = env\<rparr>
      else \<lparr>raw_term = copy_term env (raw_term t), term_env = env\<rparr>)"

datatype ordering = Less | Equal | Greater

definition term_cmp :: "('t \<Rightarrow> 't \<Rightarrow> int) \<Rightarrow> 't env_term \<Rightarrow> 't env_term \<Rightarrow> ordering" where
  "term_cmp enif_compare lhs rhs =
     (let n = enif_compare (raw_term lhs) (raw_term rhs)
      in if n = 0 then Equal else if n < 0 then Less else Greater)"

definition term_partial_cmp ::
  "('t \<Rightarrow> 't \<Rightarrow> int) \<Rightarrow> 't env_term \<Rightarrow> 't env_term \<Rightarrow> ordering option" where
  "term_partial_cmp enif_compare lhs rhs = Some (term_cmp enif_compare lhs rhs)"

definition term_eq :: "('t \<Rightarrow> 't \<Rightarrow> int) \<Rightarrow> 't env_term \<Rightarrow> 't env_term \<Rightarrow> bool" where
  "term_eq enif_is_identical lhs rhs \<longleftrightarrow> enif_is_identical (raw_term lhs) (raw_term rhs) = 1"

text \<open>
  The order of terms is total, as \<open>enif_compare\<close> is documented to be the Erlang term order.
\<close>

definition compare_laws :: "('t \<Rightarrow> 't \<Rightarrow> int) \<Rightarrow> bool" where
  "compare_laws compare \<longleftrightarrow> (\<forall>s t. sgn (compare s t) = - sgn (compare t s)) \<and>
     (\<forall>s t u. compare s t \<le> 0 \<longrightarrow> compare t u \<le> 0 \<longrightarrow> compare s u \<le> 0)"

lemma term_cmp_total_preorder:
  assumes "compare_laws compare"
  shows "term_cmp compare t t = Equal"
    and "term_cmp compare s t = Less \<longleftrightarrow> term_cmp compare t s = Greater"
    and "term_cmp compare s t \<noteq> Greater \<Longrightarrow> term_cmp compare t u \<noteq> Greater \<Longrightarrow>
      term_cmp compare s u \<noteq> Greater"
proof -
  have anti: "sgn (compare s t) = - sgn (compare t s)" for s t
    using assms unfolding compare_laws_def by blast
  have flip: "compare s t < 0 \<longleftrightarrow> 0 < compare t s" for s t
    using anti [of s t] by (auto simp: sgn_if split: if_splits)
  have "compare (raw_term t) (raw_term t) = 0" using flip [of "raw_term t" "raw_term t"] by linarith
  then show "term_cmp compare t t = Equal" by (simp add: term_cmp_def)
  show "term_cmp compare s t = Less \<longleftrightarrow> term_cmp compare t s = Greater"
    using flip [of "raw_term s" "raw_term t"] by (auto simp: term_cmp_def Let_def)
  have le: "term_cmp compare s t \<noteq> Greater \<longleftrightarrow> compare (raw_term s) (raw_term t) \<le> 0" for s t
    by (simp add: term_cmp_def Let_def)
  show "term_cmp compare s t \<noteq> Greater \<Longrightarrow> term_cmp compare t u \<noteq> Greater \<Longrightarrow>
      term_cmp compare s u \<noteq> Greater"
    unfolding le using assms unfolding compare_laws_def by blast
qed

text \<open>
  It is not consistent with equality, which \<open>Ord\<close> requires: \<open>enif_compare\<close> is the order of \<open>==\<close>, under
  which the integer 1 and the float 1.0 are the same, and \<open>enif_is_identical\<close> is \<open>=:=\<close>, under which they
  are not.
\<close>

lemma term_order_coarser:
  assumes "compare (raw_term s) (raw_term t) = 0" and "identical (raw_term s) (raw_term t) = 0"
  shows "term_cmp compare s t = Equal \<and> \<not> term_eq identical s t"
  using assms by (simp add: term_cmp_def term_eq_def)

text \<open>The map operations check that key and value are in the environment of the map.\<close>

definition in_map_env :: "nat \<Rightarrow> ('t, 't) nif_result \<Rightarrow> ('t, 't env_term) nif_result" where
  "in_map_env map_env r =
     result_bind r (\<lambda>inner. Ok \<lparr>raw_term = inner, term_env = map_env\<rparr>)"

definition env_map_put ::
  "'t nif \<Rightarrow> 't env_term \<Rightarrow> 't env_term \<Rightarrow> 't env_term \<Rightarrow> ('t, 't env_term) nif_result" where
  "env_map_put N m key v =
     (if term_env m \<noteq> term_env key then Panic ''key is from different environment as map''
      else if term_env m \<noteq> term_env v then Panic ''value is from different environment as map''
      else in_map_env (term_env m) (map_put N (raw_term m) (raw_term key) (raw_term v)))"

definition env_map_remove ::
  "'t nif \<Rightarrow> 't env_term \<Rightarrow> 't env_term \<Rightarrow> ('t, 't env_term) nif_result" where
  "env_map_remove N m key =
     (if term_env m \<noteq> term_env key then Panic ''key is from different environment as map''
      else in_map_env (term_env m) (map_remove N (raw_term m) (raw_term key)))"

definition env_map_update ::
  "'t nif \<Rightarrow> 't env_term \<Rightarrow> 't env_term \<Rightarrow> 't env_term \<Rightarrow> ('t, 't env_term) nif_result" where
  "env_map_update N m key new_value =
     (if term_env m \<noteq> term_env key then Panic ''key is from different environment as map''
      else if term_env m \<noteq> term_env new_value
      then Panic ''value is from different environment as map''
      else in_map_env (term_env m) (map_update N (raw_term m) (raw_term key) (raw_term new_value)))"

section \<open>Binary terms and messages\<close>

text \<open>
  \<open>enif_binary_to_term\<close> takes its options as a number, of which \<open>bin2term_safe\<close> is the one used here,
  and returns the number of bytes read, zero for an error; \<open>enif_term_to_binary\<close> may
  fail, and \<open>to_binary\<close> unwraps it.
\<close>

definition wrapper_binary_to_term ::
  "nat \<Rightarrow> (bytes \<Rightarrow> nat \<Rightarrow> 't \<times> nat) \<Rightarrow> bytes \<Rightarrow> bool \<Rightarrow> ('t \<times> nat) option" where
  "wrapper_binary_to_term bin2term_safe enif_binary_to_term data safe =
     (let opts = if safe then bin2term_safe else 0 in
      case enif_binary_to_term data opts of (result, read_count) \<Rightarrow>
        if read_count = 0 then None else Some (result, read_count))"

definition binary_to_term ::
  "nat \<Rightarrow> (bytes \<Rightarrow> nat \<Rightarrow> 't \<times> nat) \<Rightarrow> nat \<Rightarrow> bytes \<Rightarrow> ('t env_term \<times> nat) option" where
  "binary_to_term bin2term_safe enif_binary_to_term env data =
     map_option (\<lambda>(term, n). (\<lparr>raw_term = term, term_env = env\<rparr>, n))
       (wrapper_binary_to_term bin2term_safe enif_binary_to_term data True)"

definition binary_to_term_trusted ::
  "nat \<Rightarrow> (bytes \<Rightarrow> nat \<Rightarrow> 't \<times> nat) \<Rightarrow> nat \<Rightarrow> bytes \<Rightarrow> ('t env_term \<times> nat) option" where
  "binary_to_term_trusted bin2term_safe enif_binary_to_term env data =
     map_option (\<lambda>(term, n). (\<lparr>raw_term = term, term_env = env\<rparr>, n))
       (wrapper_binary_to_term bin2term_safe enif_binary_to_term data False)"

text \<open>What is decoded is a term of the environment, and at least one byte was read.\<close>

lemma binary_to_term_env:
  assumes "binary_to_term opts f env data = Some (t, n)"
  shows "term_env t = env \<and> 0 < n \<and> f data opts = (raw_term t, n)"
  using assms by (auto simp: binary_to_term_def wrapper_binary_to_term_def split: prod.splits if_splits)

definition term_to_binary :: "('t \<Rightarrow> bytes option) \<Rightarrow> 't \<Rightarrow> bytes may_panic" where
  "term_to_binary enif_term_to_binary t =
     (case enif_term_to_binary t of None \<Rightarrow> Inl unwrap_none_msg | Some bin \<Rightarrow> Inr bin)"

datatype thread_type =
  UndefinedThread | NormalScheduler | DirtyCpuScheduler | DirtyIoScheduler | OtherThread

text \<open>\<open>enif_self\<close> knows the process of an environment, if it has one.\<close>

definition env_pid :: "(nat \<Rightarrow> 'p option) \<Rightarrow> nat \<Rightarrow> 'p may_panic" where
  "env_pid enif_self env =
     (case enif_self env of
        None \<Rightarrow> Inl ''environment is process-independent''
      | Some pid \<Rightarrow> Inr pid)"

text \<open>The environment that \<open>Env::send\<close> passes to \<open>enif_send\<close>: none outside the scheduler's threads.\<close>

definition send_env :: "(nat \<Rightarrow> 'p option) \<Rightarrow> thread_type \<Rightarrow> nat \<Rightarrow> nat option may_panic" where
  "send_env enif_self thread env =
     (if thread = UndefinedThread then Inr None
      else if thread = NormalScheduler \<or> thread = DirtyCpuScheduler \<or> thread = DirtyIoScheduler
      then panic_bind (env_pid enif_self env) (\<lambda>_. Inr (Some env))
      else Inl ''Env::send(): unrecognized calling thread type'')"

section \<open>Owned environments and saved terms\<close>

record arc =
  arc_id :: nat
  arc_value :: nat

record owned_env =
  env_arc :: arc

record 't saved_term =
  env_generation :: arc
  saved :: 't

record 't heap =
  env_terms :: "nat \<rightharpoonup> 't set"
  live_arcs :: "nat set"

text \<open>\<open>Weak::upgrade\<close>.\<close>

definition upgrade :: "arc \<Rightarrow> 't heap \<Rightarrow> arc option" where
  "upgrade weak h = (if arc_id weak \<in> live_arcs h then Some weak else None)"

text \<open>Replacing the \<open>Arc\<close> of an environment drops the old one.\<close>

definition replace_arc :: "owned_env \<Rightarrow> nat \<Rightarrow> 't heap \<Rightarrow> owned_env \<times> 't heap" where
  "replace_arc env new_arc h =
     (\<lparr>env_arc = \<lparr>arc_id = new_arc, arc_value = arc_value (env_arc env)\<rparr>\<rparr>,
      h\<lparr>live_arcs := insert new_arc (live_arcs h - {arc_id (env_arc env)})\<rparr>)"

definition owned_env_new :: "nat \<Rightarrow> nat \<Rightarrow> 't heap \<Rightarrow> owned_env \<times> 't heap" where
  "owned_env_new c_env new_arc h =
     (\<lparr>env_arc = \<lparr>arc_id = new_arc, arc_value = c_env\<rparr>\<rparr>,
      h\<lparr>env_terms := (env_terms h)(c_env \<mapsto> {}), live_arcs := insert new_arc (live_arcs h)\<rparr>)"

text \<open>\<open>run\<close> hands the raw environment to the closure.\<close>

definition owned_env_run :: "owned_env \<Rightarrow> (nat \<Rightarrow> 'r) \<Rightarrow> 'r" where
  "owned_env_run env closure = closure (arc_value (env_arc env))"

text \<open>A term that the closure makes, or the copy that \<open>save\<close> makes, lives in the environment.\<close>

definition add_term :: "nat \<Rightarrow> 't \<Rightarrow> 't heap \<Rightarrow> 't heap" where
  "add_term env t h = h\<lparr>env_terms := (env_terms h)(env := map_option (insert t) (env_terms h env))\<rparr>"

definition owned_env_save ::
  "(nat \<Rightarrow> 't \<Rightarrow> 't) \<Rightarrow> owned_env \<Rightarrow> 't env_term \<Rightarrow> 't heap \<Rightarrow> 't saved_term \<times> 't heap" where
  "owned_env_save copy_term env t h =
     (let s = owned_env_run env (\<lambda>e. raw_term (in_env copy_term t e))
      in (\<lparr>env_generation = env_arc env, saved = s\<rparr>,
          if term_env t = arc_value (env_arc env) then h
          else add_term (arc_value (env_arc env)) s h))"

text \<open>\<open>enif_clear_env\<close> empties the environment, \<open>enif_free_env\<close> gives it back.\<close>

definition owned_env_clear :: "owned_env \<Rightarrow> nat \<Rightarrow> 't heap \<Rightarrow> owned_env \<times> 't heap" where
  "owned_env_clear env new_arc h =
     (case replace_arc env new_arc h of (env', h') \<Rightarrow>
        (env', h'\<lparr>env_terms := (env_terms h')(arc_value (env_arc env) \<mapsto> {})\<rparr>))"

text \<open>
  \<open>send_and_clear\<close>: the message is built in the environment and sent with it; \<open>enif_send\<close> takes the
  terms of the environment when it delivers (\<open>delivered\<close>) and leaves them when it does not.
\<close>

definition send_and_clear ::
  "thread_type \<Rightarrow> bool \<Rightarrow> owned_env \<Rightarrow> (nat \<Rightarrow> 't may_panic) \<Rightarrow> nat \<Rightarrow> 't heap
     \<Rightarrow> (owned_env \<times> 't \<times> 't heap) may_panic" where
  "send_and_clear thread delivered env closure new_arc h =
     (if thread \<noteq> UndefinedThread then Inl ''send_and_clear: current thread is managed''
      else
        panic_bind (owned_env_run env closure) (\<lambda>message.
        case replace_arc env new_arc (add_term (arc_value (env_arc env)) message h) of (env', h') \<Rightarrow>
          Inr (env', message,
            if delivered then h'\<lparr>env_terms := (env_terms h')(arc_value (env_arc env) \<mapsto> {})\<rparr>
            else h')))"

definition owned_env_drop :: "owned_env \<Rightarrow> 't heap \<Rightarrow> 't heap" where
  "owned_env_drop env h =
     h\<lparr>env_terms := (env_terms h)(arc_value (env_arc env) := None),
       live_arcs := live_arcs h - {arc_id (env_arc env)}\<rparr>"

definition saved_term_load :: "'t saved_term \<Rightarrow> nat \<Rightarrow> 't heap \<Rightarrow> 't env_term may_panic" where
  "saved_term_load s env h =
     (case upgrade (env_generation s) h of
        None \<Rightarrow> Inl ''term is from a cleared or dropped OwnedEnv''
      | Some a \<Rightarrow>
          if arc_value a = env then Inr \<lparr>raw_term = saved s, term_env = env\<rparr>
          else Inl ''can't load SavedTerm into a different environment'')"

section \<open>Histories of owned environments\<close>

text \<open>
  What a program can do with owned environments, in any order: create one, make terms in one, save
  a term of any environment in one, clear it, send from it, drop it. \<open>used_arcs\<close> are all \<open>Arc\<close>s ever
  allocated.
\<close>

record 't world =
  heap_of :: "'t heap"
  owned :: "owned_env set"
  saved_terms :: "'t saved_term set"
  used_arcs :: "nat set"

definition empty_world :: "'t world" where
  "empty_world =
     \<lparr>heap_of = \<lparr>env_terms = Map.empty, live_arcs = {}\<rparr>, owned = {}, saved_terms = {}, used_arcs = {}\<rparr>"

text \<open>One environment is replaced by its successor in the world.\<close>

definition update_env :: "owned_env \<Rightarrow> owned_env \<Rightarrow> nat \<Rightarrow> 't heap \<Rightarrow> 't world \<Rightarrow> 't world" where
  "update_env env env' new_arc h w =
     w\<lparr>heap_of := h, owned := insert env' (owned w - {env}), used_arcs := insert new_arc (used_arcs w)\<rparr>"

inductive env_step :: "'t world \<Rightarrow> 't world \<Rightarrow> bool" where
  step_new: "env_terms (heap_of w) c_env = None \<Longrightarrow> a \<notin> used_arcs w \<Longrightarrow>
     owned_env_new c_env a (heap_of w) = (env, h) \<Longrightarrow>
     env_step w (w\<lparr>heap_of := h, owned := insert env (owned w), used_arcs := insert a (used_arcs w)\<rparr>)"
| step_make: "env \<in> owned w \<Longrightarrow>
     env_step w (w\<lparr>heap_of := owned_env_run env (\<lambda>e. add_term e t (heap_of w))\<rparr>)"
| step_save: "env \<in> owned w \<Longrightarrow>
     term_env t = arc_value (env_arc env) \<longrightarrow>
       (\<exists>ts. env_terms (heap_of w) (term_env t) = Some ts \<and> raw_term t \<in> ts) \<Longrightarrow>
     owned_env_save copy_term env t (heap_of w) = (s, h) \<Longrightarrow>
     env_step w (w\<lparr>heap_of := h, saved_terms := insert s (saved_terms w)\<rparr>)"
| step_clear: "env \<in> owned w \<Longrightarrow> a \<notin> used_arcs w \<Longrightarrow>
     owned_env_clear env a (heap_of w) = (env', h) \<Longrightarrow> env_step w (update_env env env' a h w)"
| step_send: "env \<in> owned w \<Longrightarrow> a \<notin> used_arcs w \<Longrightarrow>
     send_and_clear thread delivered env closure a (heap_of w) = Inr (env', message, h) \<Longrightarrow>
     env_step w (update_env env env' a h w)"
| step_drop: "env \<in> owned w \<Longrightarrow>
     env_step w (w\<lparr>heap_of := owned_env_drop env (heap_of w), owned := owned w - {env}\<rparr>)"

inductive env_reachable :: "'t world \<Rightarrow> bool" where
  reach_init: "env_reachable empty_world"
| reach_step: "env_reachable w \<Longrightarrow> env_step w w' \<Longrightarrow> env_reachable w'"

section \<open>The invariant\<close>

text \<open>
  The owned environments are allocated, no two share an environment or an \<open>Arc\<close>, exactly their \<open>Arc\<close>s
  are live, and a saved term whose \<open>Arc\<close> is live is a term of the environment that holds this \<open>Arc\<close>.
\<close>

definition envs_ok :: "owned_env set \<Rightarrow> 't heap \<Rightarrow> bool" where
  "envs_ok envs h \<longleftrightarrow>
     (\<forall>env \<in> envs. env_terms h (arc_value (env_arc env)) \<noteq> None) \<and>
     inj_on (\<lambda>env. arc_value (env_arc env)) envs \<and>
     inj_on (\<lambda>env. arc_id (env_arc env)) envs \<and>
     live_arcs h = (\<lambda>env. arc_id (env_arc env)) ` envs"

definition holds_saved :: "owned_env set \<Rightarrow> 't heap \<Rightarrow> 't saved_term \<Rightarrow> bool" where
  "holds_saved envs h s \<longleftrightarrow>
     (\<exists>env \<in> envs. env_arc env = env_generation s \<and>
        (\<exists>ts. env_terms h (arc_value (env_arc env)) = Some ts \<and> saved s \<in> ts))"

definition env_invariant :: "'t world \<Rightarrow> bool" where
  "env_invariant w \<longleftrightarrow>
     envs_ok (owned w) (heap_of w) \<and>
     live_arcs (heap_of w) \<subseteq> used_arcs w \<and>
     (\<forall>s \<in> saved_terms w. arc_id (env_generation s) \<in> used_arcs w \<and>
        (arc_id (env_generation s) \<in> live_arcs (heap_of w) \<longrightarrow> holds_saved (owned w) (heap_of w) s))"

lemma env_invariantD:
  assumes "env_invariant w"
  shows "envs_ok (owned w) (heap_of w)"
    "live_arcs (heap_of w) \<subseteq> used_arcs w"
    "s \<in> saved_terms w \<Longrightarrow> arc_id (env_generation s) \<in> used_arcs w"
    "s \<in> saved_terms w \<Longrightarrow> arc_id (env_generation s) \<in> live_arcs (heap_of w) \<Longrightarrow>
       holds_saved (owned w) (heap_of w) s"
  using assms by (simp_all add: env_invariant_def)

lemma envs_okD:
  assumes "envs_ok envs h" and "x \<in> envs"
  shows "arc_id (env_arc x) \<in> live_arcs h" "env_terms h (arc_value (env_arc x)) \<noteq> None"
    "y \<in> envs \<Longrightarrow> x \<noteq> y \<Longrightarrow> arc_id (env_arc x) \<noteq> arc_id (env_arc y) \<and>
       arc_value (env_arc x) \<noteq> arc_value (env_arc y)"
  using assms by (auto simp: envs_ok_def inj_on_def)

lemma envs_okI:
  assumes "\<And>x. x \<in> envs \<Longrightarrow> env_terms h (arc_value (env_arc x)) \<noteq> None"
    and "\<And>x y. x \<in> envs \<Longrightarrow> y \<in> envs \<Longrightarrow> x \<noteq> y \<Longrightarrow>
      arc_id (env_arc x) \<noteq> arc_id (env_arc y) \<and> arc_value (env_arc x) \<noteq> arc_value (env_arc y)"
    and "live_arcs h = (\<lambda>x. arc_id (env_arc x)) ` envs"
  shows "envs_ok envs h"
  using assms(1,3) unfolding envs_ok_def inj_on_def by (blast dest: assms(2))

lemma envs_ok_live: "envs_ok envs h \<Longrightarrow> live_arcs h = (\<lambda>x. arc_id (env_arc x)) ` envs"
  by (simp add: envs_ok_def)

text \<open>A saved term stays held when its own environment stays and keeps its terms.\<close>

lemma holds_saved_mono:
  assumes "holds_saved envs h s"
    and "\<And>x. x \<in> envs \<Longrightarrow> arc_id (env_arc x) = arc_id (env_generation s) \<Longrightarrow> x \<in> envs'"
    and "\<And>x ts. x \<in> envs \<Longrightarrow> arc_id (env_arc x) = arc_id (env_generation s) \<Longrightarrow>
      env_terms h (arc_value (env_arc x)) = Some ts \<Longrightarrow>
      \<exists>ts'. env_terms h' (arc_value (env_arc x)) = Some ts' \<and> ts \<subseteq> ts'"
  shows "holds_saved envs' h' s"
proof -
  from assms(1) obtain x ts where x: "x \<in> envs" "env_arc x = env_generation s"
    and ts: "env_terms h (arc_value (env_arc x)) = Some ts" "saved s \<in> ts"
    unfolding holds_saved_def by blast
  have id: "arc_id (env_arc x) = arc_id (env_generation s)" using x(2) by simp
  obtain ts' where "env_terms h' (arc_value (env_arc x)) = Some ts'" "ts \<subseteq> ts'"
    using assms(3) [OF x(1) id ts(1)] by blast
  with assms(2) [OF x(1) id] x(2) ts(2) show ?thesis unfolding holds_saved_def by blast
qed

lemma invariant_new:
  assumes inv: "env_invariant w" and fresh: "env_terms (heap_of w) e = None" "a \<notin> used_arcs w"
    and new: "owned_env_new e a (heap_of w) = (env, h)"
  shows "env_invariant
    (w\<lparr>heap_of := h, owned := insert env (owned w), used_arcs := insert a (used_arcs w)\<rparr>)"
proof -
  have env: "env = \<lparr>env_arc = \<lparr>arc_id = a, arc_value = e\<rparr>\<rparr>"
    and h: "h = (heap_of w)\<lparr>env_terms := (env_terms (heap_of w))(e \<mapsto> {}),
      live_arcs := insert a (live_arcs (heap_of w))\<rparr>"
    using new by (auto simp: owned_env_new_def)
  note inv = env_invariantD [OF inv]
  have ne: "arc_value (env_arc x) \<noteq> e" "arc_id (env_arc x) \<noteq> a" if "x \<in> owned w" for x
    using envs_okD(1,2) [OF inv(1) that] fresh inv(2) by auto
  then have "envs_ok (insert env (owned w)) h"
    using inv(1) unfolding env h envs_ok_def by (auto simp: inj_on_def)
  moreover have "holds_saved (insert env (owned w)) h s"
    if "s \<in> saved_terms w" "arc_id (env_generation s) \<in> live_arcs h" for s
  proof -
    have "arc_id (env_generation s) \<in> live_arcs (heap_of w)"
      using that inv(3) fresh(2) by (auto simp: h)
    with that(1) have "holds_saved (owned w) (heap_of w) s" by (rule inv(4))
    then show ?thesis by (rule holds_saved_mono) (use ne(1) in \<open>simp_all add: h\<close>)
  qed
  moreover have "live_arcs h \<subseteq> insert a (used_arcs w)" using inv(2) by (auto simp: h)
  ultimately show ?thesis using inv(3) by (simp add: env_invariant_def)
qed

text \<open>Clearing and sending replace the \<open>Arc\<close> and touch the terms of no other environment.\<close>

lemma invariant_update_env:
  assumes inv: "env_invariant w" and env: "env \<in> owned w" and fresh: "a \<notin> used_arcs w"
    and env': "env' = \<lparr>env_arc = \<lparr>arc_id = a, arc_value = arc_value (env_arc env)\<rparr>\<rparr>"
    and live: "live_arcs h = insert a (live_arcs (heap_of w) - {arc_id (env_arc env)})"
    and own: "env_terms h (arc_value (env_arc env)) \<noteq> None"
    and other: "\<And>e. e \<noteq> arc_value (env_arc env) \<Longrightarrow> env_terms h e = env_terms (heap_of w) e"
  shows "env_invariant (update_env env env' a h w)"
proof -
  note inv = env_invariantD [OF inv]
  have ne: "arc_id (env_arc x) \<noteq> a" "arc_id (env_arc x) \<noteq> arc_id (env_arc env)"
    "arc_value (env_arc x) \<noteq> arc_value (env_arc env)" if "x \<in> owned w" "x \<noteq> env" for x
    using envs_okD(1) [OF inv(1) that(1)] envs_okD(3) [OF inv(1) that(1) env that(2)] fresh inv(2)
    by auto
  have keep: "env_terms h (arc_value (env_arc x)) = env_terms (heap_of w) (arc_value (env_arc x))"
    if "x \<in> owned w" "x \<noteq> env" for x
    using ne(3) [OF that] by (rule other)
  have "envs_ok (insert env' (owned w - {env})) h"
  proof (rule envs_okI)
    fix x assume "x \<in> insert env' (owned w - {env})"
    then show "env_terms h (arc_value (env_arc x)) \<noteq> None"
      using own keep envs_okD(2) [OF inv(1), of x] by (auto simp: env')
  next
    fix x y assume "x \<in> insert env' (owned w - {env})" "y \<in> insert env' (owned w - {env})" "x \<noteq> y"
    then consider "x = env'" "y \<in> owned w" "y \<noteq> env" | "y = env'" "x \<in> owned w" "x \<noteq> env"
      | "x \<in> owned w" "y \<in> owned w" by blast
    then show "arc_id (env_arc x) \<noteq> arc_id (env_arc y) \<and> arc_value (env_arc x) \<noteq> arc_value (env_arc y)"
    proof cases
      case 1
      then show ?thesis using ne(1,3) [OF 1(2,3)] by (simp add: env')
    next
      case 2
      then show ?thesis using ne(1,3) [OF 2(2,3)] by (simp add: env')
    next
      case 3
      then show ?thesis using envs_okD(3) [OF inv(1) 3] \<open>x \<noteq> y\<close> by simp
    qed
  next
    show "live_arcs h = (\<lambda>x. arc_id (env_arc x)) ` insert env' (owned w - {env})"
      using ne(2) unfolding live envs_ok_live [OF inv(1)] env' by auto
  qed
  moreover have "holds_saved (insert env' (owned w - {env})) h s"
    if s: "s \<in> saved_terms w" "arc_id (env_generation s) \<in> live_arcs h" for s
  proof -
    have "arc_id (env_generation s) \<in> live_arcs (heap_of w)"
      and gen: "arc_id (env_generation s) \<noteq> arc_id (env_arc env)"
      using s inv(3) fresh unfolding live by auto
    with s(1) have "holds_saved (owned w) (heap_of w) s" by (intro inv(4))
    then show ?thesis
    proof (rule holds_saved_mono)
      fix x assume x: "x \<in> owned w" "arc_id (env_arc x) = arc_id (env_generation s)"
      with gen have "x \<noteq> env" by auto
      with x(1) show "x \<in> insert env' (owned w - {env})" by simp
      show "\<exists>ts'. env_terms h (arc_value (env_arc x)) = Some ts' \<and> ts \<subseteq> ts'"
        if "env_terms (heap_of w) (arc_value (env_arc x)) = Some ts" for ts
        using that keep [OF x(1) \<open>x \<noteq> env\<close>] by simp
    qed
  qed
  moreover have "live_arcs h \<subseteq> insert a (used_arcs w)" using inv(2) by (auto simp: live)
  ultimately show ?thesis using inv(3) by (simp add: env_invariant_def update_env_def)
qed

lemma replace_arc_eq:
  "replace_arc env a h = (\<lparr>env_arc = \<lparr>arc_id = a, arc_value = arc_value (env_arc env)\<rparr>\<rparr>,
     h\<lparr>live_arcs := insert a (live_arcs h - {arc_id (env_arc env)})\<rparr>)"
  by (simp add: replace_arc_def)

text \<open>More terms in an environment, and more saved terms, are harmless.\<close>

lemma add_term_grows:
  "env_terms h v = Some ts \<Longrightarrow> \<exists>ts'. env_terms (add_term e t h) v = Some ts' \<and> ts \<subseteq> ts'"
  by (auto simp: add_term_def)

lemma add_term_simps [simp]:
  "live_arcs (add_term e t h) = live_arcs h"
  "env_terms (add_term e t h) v = None \<longleftrightarrow> env_terms h v = None"
  by (auto simp: add_term_def)

lemma invariant_add_term:
  assumes "env_invariant w"
  shows "env_invariant (w\<lparr>heap_of := add_term e t (heap_of w)\<rparr>)"
proof -
  note inv = env_invariantD [OF assms]
  have "envs_ok (owned w) (add_term e t (heap_of w))" using inv(1) by (simp add: envs_ok_def)
  moreover have "holds_saved (owned w) (add_term e t (heap_of w)) s"
    if "s \<in> saved_terms w" "arc_id (env_generation s) \<in> live_arcs (heap_of w)" for s
    using inv(4) [OF that] by (rule holds_saved_mono) (assumption, rule add_term_grows)
  ultimately show ?thesis using inv(2,3) by (simp add: env_invariant_def)
qed

lemma invariant_save:
  assumes inv: "env_invariant w" and env: "env \<in> owned w" and s: "env_generation s = env_arc env"
    and t: "env_terms (heap_of w) (arc_value (env_arc env)) = Some ts" "saved s \<in> ts"
  shows "env_invariant (w\<lparr>saved_terms := insert s (saved_terms w)\<rparr>)"
proof -
  note inv = env_invariantD [OF inv]
  have "holds_saved (owned w) (heap_of w) s" using env s t by (auto simp: holds_saved_def)
  moreover have "arc_id (env_generation s) \<in> used_arcs w"
    using envs_okD(1) [OF inv(1) env] inv(2) s by auto
  ultimately show ?thesis using inv by (simp add: env_invariant_def)
qed

lemma invariant_drop:
  assumes "env_invariant w" and env: "env \<in> owned w"
  shows "env_invariant
    (w\<lparr>heap_of := owned_env_drop env (heap_of w), owned := owned w - {env}\<rparr>)"
proof -
  note inv = env_invariantD [OF assms(1)]
  define h where "h = owned_env_drop env (heap_of w)"
  have live: "live_arcs h = live_arcs (heap_of w) - {arc_id (env_arc env)}"
    and other: "\<And>e. e \<noteq> arc_value (env_arc env) \<Longrightarrow> env_terms h e = env_terms (heap_of w) e"
    by (simp_all add: h_def owned_env_drop_def)
  have ne: "arc_id (env_arc x) \<noteq> arc_id (env_arc env)"
    "arc_value (env_arc x) \<noteq> arc_value (env_arc env)" if "x \<in> owned w" "x \<noteq> env" for x
    using envs_okD(3) [OF inv(1) that(1) env that(2)] by auto
  have keep: "env_terms h (arc_value (env_arc x)) = env_terms (heap_of w) (arc_value (env_arc x))"
    if "x \<in> owned w" "x \<noteq> env" for x
    using ne(2) [OF that] by (rule other)
  have "envs_ok (owned w - {env}) h"
  proof (rule envs_okI)
    fix x assume "x \<in> owned w - {env}"
    then show "env_terms h (arc_value (env_arc x)) \<noteq> None"
      using keep envs_okD(2) [OF inv(1), of x] by auto
  next
    fix x y assume "x \<in> owned w - {env}" "y \<in> owned w - {env}" "x \<noteq> y"
    then show "arc_id (env_arc x) \<noteq> arc_id (env_arc y) \<and> arc_value (env_arc x) \<noteq> arc_value (env_arc y)"
      using envs_okD(3) [OF inv(1), of x y] by auto
  next
    show "live_arcs h = (\<lambda>x. arc_id (env_arc x)) ` (owned w - {env})"
      using ne(1) unfolding live envs_ok_live [OF inv(1)] by auto
  qed
  moreover have "holds_saved (owned w - {env}) h s"
    if s: "s \<in> saved_terms w" "arc_id (env_generation s) \<in> live_arcs h" for s
  proof -
    from s have "holds_saved (owned w) (heap_of w) s" by (intro inv(4)) (simp_all add: live)
    then show ?thesis
    proof (rule holds_saved_mono)
      fix x assume x: "x \<in> owned w" "arc_id (env_arc x) = arc_id (env_generation s)"
      with s(2) have "x \<noteq> env" by (auto simp: live)
      with x(1) show "x \<in> owned w - {env}" by simp
      show "\<exists>ts'. env_terms h (arc_value (env_arc x)) = Some ts' \<and> ts \<subseteq> ts'"
        if "env_terms (heap_of w) (arc_value (env_arc x)) = Some ts" for ts
        using that keep [OF x(1) \<open>x \<noteq> env\<close>] by simp
    qed
  qed
  moreover have "live_arcs h \<subseteq> used_arcs w" using inv(2) by (auto simp: live)
  ultimately show ?thesis using inv(3) by (simp add: env_invariant_def h_def)
qed

lemma owned_allocated:
  "env_invariant w \<Longrightarrow> env \<in> owned w \<Longrightarrow>
    \<exists>ts. env_terms (heap_of w) (arc_value (env_arc env)) = Some ts"
  using env_invariantD(1) envs_okD(2) by blast

lemma env_step_invariant: "env_step w w' \<Longrightarrow> env_invariant w \<Longrightarrow> env_invariant w'"
proof (induction rule: env_step.induct)
  case (step_new w c_env a env h)
  then show ?case by (intro invariant_new)
next
  case (step_make env w t)
  then show ?case by (simp add: owned_env_run_def invariant_add_term)
next
  case (step_save env w t copy_term s h)
  obtain ts where ts: "env_terms (heap_of w) (arc_value (env_arc env)) = Some ts"
    using owned_allocated step_save by blast
  show ?case
  proof (cases "term_env t = arc_value (env_arc env)")
    case True
    with step_save ts have "h = heap_of w" "env_generation s = env_arc env" "saved s \<in> ts"
      by (auto simp: owned_env_save_def owned_env_run_def in_env_def Let_def)
    with step_save ts show ?thesis
      using invariant_save [of w env s ts] by simp
  next
    case False
    with step_save have h: "h = add_term (arc_value (env_arc env)) (saved s) (heap_of w)"
      "env_generation s = env_arc env"
      by (auto simp: owned_env_save_def Let_def)
    have "env_invariant (w\<lparr>heap_of := h\<rparr>)"
      unfolding h(1) using step_save(4) by (rule invariant_add_term)
    from invariant_save [OF this, of env s "insert (saved s) ts"] step_save(1) ts h
    show ?thesis by (simp add: add_term_def)
  qed
next
  case (step_clear env w a env' h)
  then show ?case
    by (intro invariant_update_env) (auto simp: owned_env_clear_def replace_arc_eq)
next
  case (step_send env w a thread delivered closure env' message h)
  have "env_terms (heap_of w) (arc_value (env_arc env)) \<noteq> None"
    using owned_allocated step_send by blast
  with step_send show ?case
    by (intro invariant_update_env)
      (auto simp: send_and_clear_def replace_arc_eq add_term_def panic_bind_eq_Inr_iff split: if_splits)
next
  case (step_drop env w)
  then show ?case by (intro invariant_drop)
qed

lemma env_reachable_invariant: "env_reachable w \<Longrightarrow> env_invariant w"
proof (induction rule: env_reachable.induct)
  case reach_init
  show ?case by (simp add: env_invariant_def envs_ok_def empty_world_def)
next
  case (reach_step w w')
  then show ?case by (blast intro: env_step_invariant)
qed

text \<open>What \<open>load\<close> returns.\<close>

lemma saved_term_load_eq_Inr:
  "saved_term_load s e h = Inr t \<longleftrightarrow> arc_id (env_generation s) \<in> live_arcs h \<and>
     arc_value (env_generation s) = e \<and> t = \<lparr>raw_term = saved s, term_env = e\<rparr>"
  by (auto simp: saved_term_load_def upgrade_def)

end
