(* ===== verification/Rustler_Call.thy ===== *)
theory Rustler_Call
  imports Rustler_Codec Rustler_Env
begin

text \<open>
  The boundary to the virtual machine: error.rs (how an error becomes the value of a NIF),
  codegen\_runtime.rs (the wrapper around every NIF, which no panic may leave) and thread.rs (jobs on
  other threads, which report to the calling process by a message).
\<close>

section \<open>Errors\<close>

definition error_encode :: "'t nif \<Rightarrow> 't nif_error \<Rightarrow> 't may_panic" where
  "error_encode N e =
     (case e of
        BadArg \<Rightarrow> Inr (enif_make_badarg N)
      | AtomError atom_str \<Rightarrow>
          (case atom_from_str N atom_str of Ok a \<Rightarrow> Inr a | _ \<Rightarrow> Inl ''Error::Atom: bad atom'')
      | RaiseAtom atom_str \<Rightarrow>
          (case atom_from_str N atom_str of
             Ok a \<Rightarrow> Inr (enif_raise_exception N a)
           | _ \<Rightarrow> Inl ''Error::RaiseAtom: bad argument'')
      | RaiseTerm term_unencoded \<Rightarrow>
          panic_bind term_unencoded (\<lambda>t. Inr (enif_raise_exception N t)))"

section \<open>Calls of NIFs\<close>

type_synonym 't nif_function = "'t list \<Rightarrow> ('t, 't) nif_result"

text \<open>
  The closure that \<open>catch_unwind\<close> runs, and the wrapper. A panic of the wrapper itself would unwind
  into C code.
\<close>

definition nif_body :: "'t nif \<Rightarrow> 't nif_function \<Rightarrow> 't list \<Rightarrow> ('t nif_error, 't) outcome" where
  "nif_body N function terms =
     (case function terms of
        Ok r \<Rightarrow> Ok r
      | Err err \<Rightarrow> (case error_encode N err of Inl p \<Rightarrow> Panic p | Inr t \<Rightarrow> Ok t)
      | Panic p \<Rightarrow> Panic p
      | Timeout \<Rightarrow> Timeout)"

definition handle_nif_call :: "'t nif \<Rightarrow> 't nif_function \<Rightarrow> 't list \<Rightarrow> ('t nif_error, 't) outcome" where
  "handle_nif_call N function terms =
     (case nif_body N function terms of
        Ok res \<Rightarrow> Ok res
      | Timeout \<Rightarrow> Timeout
      | _ \<Rightarrow>
          (case atom_from_bytes N (as_bytes ''nif_panic'') of
             Ok a \<Rightarrow> Ok (enif_raise_exception N a)
           | _ \<Rightarrow> Panic unwrap_none_msg))"

text \<open>The load function is not guarded: its panic is the panic of the wrapper.\<close>

definition handle_nif_init_call ::
  "('t \<Rightarrow> bool may_panic) option \<Rightarrow> 't \<Rightarrow> int may_panic" where
  "handle_nif_init_call function load_info =
     (case function of
        Some inner \<Rightarrow> panic_bind (inner load_info) (\<lambda>ok. Inr (if ok then 0 else 1))
      | None \<Rightarrow> Inr 0)"

section \<open>Jobs on other threads\<close>

text \<open>What a panic carries, and how the closure of a job ends.\<close>

datatype panic_payload = StringPayload string | StrPayload string | OtherPayload

datatype 't job_result = Returned 't | Panicked panic_payload

definition error_tuple :: "'t nif \<Rightarrow> ('t, 'a) encoder \<Rightarrow> ('t, 'a) encoder" where
  "error_tuple N enc reason =
     panic_bind (rustler_atom N ''error'') (\<lambda>error.
     encode_pair N encode_term enc (error, reason))"

definition panic_reason :: "'t nif \<Rightarrow> panic_payload \<Rightarrow> 't may_panic" where
  "panic_reason N err =
     (case err of
        StringPayload string \<Rightarrow> encode_str N string
      | StrPayload s \<Rightarrow> encode_str N s
      | OtherPayload \<Rightarrow>
          (case atom_from_bytes N (as_bytes ''nif_panic'') of
             Ok a \<Rightarrow> Inr a
           | _ \<Rightarrow> Inl unwrap_none_msg))"

definition job_message :: "'t nif \<Rightarrow> 't job_result \<Rightarrow> 't may_panic" where
  "job_message N r =
     (case r of
        Returned t \<Rightarrow> Inr t
      | Panicked err \<Rightarrow> panic_bind (panic_reason N err) (error_tuple N encode_term))"

text \<open>
  The job: a new environment, in which the closure runs, is sent to the caller and dropped.
  \<open>thread\<close> is the kind of thread the spawner picked, \<open>c_env\<close>, \<open>a\<close> and \<open>a'\<close> are fresh.
\<close>

definition job ::
  "'t nif \<Rightarrow> thread_type \<Rightarrow> bool \<Rightarrow> nat \<Rightarrow> nat \<Rightarrow> nat \<Rightarrow> (nat \<Rightarrow> 't job_result) \<Rightarrow> 't heap
     \<Rightarrow> ('t \<times> 't heap) may_panic" where
  "job N thread delivered c_env a a' thread_fn h =
     (case owned_env_new c_env a h of (env, h1) \<Rightarrow>
        panic_bind (send_and_clear thread delivered env (\<lambda>e. job_message N (thread_fn e)) a' h1)
          (\<lambda>(env', message, h2). Inr (message, owned_env_drop env' h2)))"

definition spawn ::
  "(nat \<Rightarrow> 'p option) \<Rightarrow> nat \<Rightarrow> ('p \<Rightarrow> 'j) \<Rightarrow> 'j may_panic" where
  "spawn enif_self env start_job = panic_bind (env_pid enif_self env) (\<lambda>pid. Inr (start_job pid))"

section \<open>Lemmas\<close>

lemma error_atom_plain:
  assumes "plain_name s"
  shows "error_encode N (AtomError s) = Inr (atom_named N s)"
    "error_encode N (RaiseAtom s) = Inr (enif_raise_exception N (atom_named N s))"
  using assms
  by (simp_all add: error_encode_def atom_from_str_def atom_from_bytes_def plain_name_def
      atom_named_def)

lemma nif_panic_atom:
  "atom_from_bytes N (as_bytes ''nif_panic'') = Ok (atom_named N ''nif_panic'')"
  by (simp add: atom_from_bytes_def atom_named_def)

text \<open>An encoded panic is decoded by the caller as the error side of a result.\<close>

lemma job_message_panicked:
  assumes laws: "nif_laws N" and "utf8_valid (as_bytes s)" "owned_new N (length s) \<noteq> None"
    and err: "err = StringPayload s \<or> err = StrPayload s"
  shows "\<exists>t. job_message N (Panicked err) = Inr t \<and> decode_result N dec (decode_str N) t = Ok (Inl s)"
proof -
  obtain t where t: "encode_str N s = Inr t" "decode_str N t = Ok s"
    using str.round_trip [OF laws, of s] assms(2,3) by auto
  have ne: "atom_named N ''error'' \<noteq> atom_named N ''ok''"
    by (simp add: atom_named_inject [OF laws])
  have "job_message N (Panicked err) = Inr (make_tuple N [atom_named N ''error'', t])"
    using err t(1) by (auto simp: job_message_def panic_reason_def error_tuple_def encode_pair_def
        encode_term_def rustler_atom_plain)
  moreover have "decode_result N dec (decode_str N) (make_tuple N [atom_named N ''error'', t]) =
      Ok (Inl s)"
    using t(2) ne by (simp add: decode_result_def decode_pair_terms [OF laws] decode_atom_def
        atom_from_term_def atom_named_facts [OF laws] decode_term_def rustler_atom_plain)
  ultimately show ?thesis by blast
qed

text \<open>A job that has a message completes and leaves nothing behind.\<close>

lemma job_completes:
  assumes "env_terms h c_env = None" and "a \<notin> live_arcs h" and "a' \<notin> live_arcs h" and "a \<noteq> a'"
    and "job_message N (thread_fn c_env) = Inr message"
  shows "job N UndefinedThread delivered c_env a a' thread_fn h = Inr (message, h)"
  using assms
  by (auto simp: job_def owned_env_new_def send_and_clear_def replace_arc_def owned_env_run_def
      owned_env_drop_def add_term_def fun_eq_iff intro!: heap.equality)

end
