(* ===== verification/Rustler_Resource.thy ===== *)
theory Rustler_Resource
  imports Rustler_Nif
begin

text \<open>
  resource.rs: Rust values stored in memory of the Erlang virtual machine. A resource is allocated
  with room for the alignment of its value, and is freed, after its destructor has read the value
  out, when its reference count is zero. References are the \<open>ResourceArc\<close>s of the Rust code and the
  terms of the Erlang code.
\<close>

section \<open>Layout\<close>

text \<open>Addresses are natural numbers; \<open>size\<close> and \<open>align\<close> are those of the stored type.\<close>

definition get_alloc_size_struct :: "nat \<Rightarrow> nat \<Rightarrow> nat" where
  "get_alloc_size_struct type_size type_align = type_size + type_align"

definition align_alloced_mem_for_struct :: "nat \<Rightarrow> nat \<Rightarrow> nat" where
  "align_alloced_mem_for_struct type_align p =
     (let offset = type_align - p mod type_align in p + offset)"

section \<open>The resources of one type\<close>

text \<open>
  What the virtual machine knows of an allocation: its type, its size, its reference count, and the
  value stored in it, with the address it was written to.
\<close>

record 'v resource =
  res_type :: nat
  res_size :: nat
  res_refs :: nat
  res_content :: "nat \<rightharpoonup> 'v"

type_synonym 'v resources = "nat \<rightharpoonup> 'v resource"

text \<open>The Rust type behind \<open>T\<close>: its resource type, opened at load time, its size and its alignment.\<close>

record rust_type =
  type_res :: "nat option"
  type_size :: nat
  type_align :: nat

record resource_arc =
  arc_raw :: nat
  arc_inner :: nat

definition get_resource_type :: "rust_type \<Rightarrow> nat may_panic" where
  "get_resource_type T =
     (case type_res T of
        Some res \<Rightarrow> Inr res
      | None \<Rightarrow> Inl ''The resource type hasn't been inited. Did you remember to call the function where you used the `resource_struct_init!` macro?'')"

text \<open>\<open>ResourceArc::new\<close>; \<open>mem_raw\<close> is what \<open>enif_alloc_resource\<close> returns, with one reference.\<close>

definition resource_new ::
  "rust_type \<Rightarrow> nat \<Rightarrow> 'v \<Rightarrow> 'v resources \<Rightarrow> (resource_arc \<times> 'v resources) may_panic" where
  "resource_new T mem_raw data h =
     panic_bind (get_resource_type T) (\<lambda>res.
     let alloc_size = get_alloc_size_struct (type_size T) (type_align T);
         aligned_mem = align_alloced_mem_for_struct (type_align T) mem_raw
     in Inr (\<lparr>arc_raw = mem_raw, arc_inner = aligned_mem\<rparr>,
             h(mem_raw \<mapsto> \<lparr>res_type = res, res_size = alloc_size, res_refs = 1,
                          res_content = [aligned_mem \<mapsto> data]\<rparr>)))"

definition keep_resource :: "nat \<Rightarrow> 'v resources \<Rightarrow> 'v resources" where
  "keep_resource p h = h(p := map_option (\<lambda>r. r\<lparr>res_refs := res_refs r + 1\<rparr>) (h p))"

text \<open>\<open>enif_get_resource\<close> on the term of the resource at \<open>p\<close> (no term of a resource: \<open>None\<close>).\<close>

definition resource_from_term ::
  "rust_type \<Rightarrow> nat option \<Rightarrow> 'v resources \<Rightarrow> ((nat, resource_arc) nif_result \<times> 'v resources)" where
  "resource_from_term T t h =
     (case get_resource_type T of
        Inl p \<Rightarrow> (Panic p, h)
      | Inr res \<Rightarrow>
          (case t of
             None \<Rightarrow> (Err BadArg, h)
           | Some p \<Rightarrow>
               (case h p of
                  None \<Rightarrow> (Err BadArg, h)
                | Some r \<Rightarrow>
                    if res_type r \<noteq> res then (Err BadArg, h)
                    else (Ok \<lparr>arc_raw = p,
                              arc_inner = align_alloced_mem_for_struct (type_align T) p\<rparr>,
                          keep_resource p h))))"

text \<open>\<open>enif_make_resource\<close>: the new term is a reference.\<close>

definition resource_as_term :: "resource_arc \<Rightarrow> 'v resources \<Rightarrow> nat \<times> 'v resources" where
  "resource_as_term a h = (arc_raw a, keep_resource (arc_raw a) h)"

definition resource_clone :: "resource_arc \<Rightarrow> 'v resources \<Rightarrow> resource_arc \<times> 'v resources" where
  "resource_clone a h = (\<lparr>arc_raw = arc_raw a, arc_inner = arc_inner a\<rparr>, keep_resource (arc_raw a) h)"

definition resource_deref :: "resource_arc \<Rightarrow> 'v resources \<Rightarrow> 'v option" where
  "resource_deref a h = (case h (arc_raw a) of None \<Rightarrow> None | Some r \<Rightarrow> res_content r (arc_inner a))"

text \<open>\<open>resource_destructor\<close> reads the value out of the allocation, to drop it.\<close>

definition resource_destructor :: "rust_type \<Rightarrow> nat \<Rightarrow> 'v resource \<Rightarrow> 'v option" where
  "resource_destructor T handle r =
     res_content r (align_alloced_mem_for_struct (type_align T) handle)"

text \<open>
  \<open>enif_release_resource\<close>, called when an arc is dropped and when the virtual machine collects a
  term; the result is the value that was dropped, if the resource died.
\<close>

definition release_resource ::
  "rust_type \<Rightarrow> nat \<Rightarrow> 'v resources \<Rightarrow> 'v option \<times> 'v resources" where
  "release_resource T p h =
     (case h p of
        None \<Rightarrow> (None, h)
      | Some r \<Rightarrow>
          if res_refs r \<le> 1 then (resource_destructor T p r, h(p := None))
          else (None, h(p \<mapsto> r\<lparr>res_refs := res_refs r - 1\<rparr>)))"

definition resource_drop ::
  "rust_type \<Rightarrow> resource_arc \<Rightarrow> 'v resources \<Rightarrow> 'v option \<times> 'v resources" where
  "resource_drop T a h = release_resource T (arc_raw a) h"

text \<open>Arcs are encoded as their terms and decoded from them.\<close>

definition encode_resource :: "resource_arc \<Rightarrow> 'v resources \<Rightarrow> nat \<times> 'v resources" where
  "encode_resource a h = resource_as_term a h"

definition decode_resource ::
  "rust_type \<Rightarrow> nat option \<Rightarrow> 'v resources \<Rightarrow> ((nat, resource_arc) nif_result \<times> 'v resources)" where
  "decode_resource T t h = resource_from_term T t h"

section \<open>Histories\<close>

text \<open>
  Any sequence of the operations on one type \<open>T\<close>, with the arcs and terms that exist, as lists
  (a resource can have many of each).
\<close>

record 'v res_world =
  res_heap :: "'v resources"
  res_arcs :: "resource_arc list"
  res_terms :: "nat list"

inductive res_step :: "rust_type \<Rightarrow> 'v res_world \<Rightarrow> 'v res_world \<Rightarrow> bool" for T where
  res_step_new: "res_heap w p = None \<Longrightarrow> resource_new T p v (res_heap w) = Inr (a, h) \<Longrightarrow>
     res_step T w (w\<lparr>res_heap := h, res_arcs := a # res_arcs w\<rparr>)"
| res_step_from_term: "p \<in> set (res_terms w) \<Longrightarrow>
     resource_from_term T (Some p) (res_heap w) = (Ok a, h) \<Longrightarrow>
     res_step T w (w\<lparr>res_heap := h, res_arcs := a # res_arcs w\<rparr>)"
| res_step_as_term: "a \<in> set (res_arcs w) \<Longrightarrow> resource_as_term a (res_heap w) = (p, h) \<Longrightarrow>
     res_step T w (w\<lparr>res_heap := h, res_terms := p # res_terms w\<rparr>)"
| res_step_clone: "a \<in> set (res_arcs w) \<Longrightarrow> resource_clone a (res_heap w) = (b, h) \<Longrightarrow>
     res_step T w (w\<lparr>res_heap := h, res_arcs := b # res_arcs w\<rparr>)"
| res_step_drop: "a \<in> set (res_arcs w) \<Longrightarrow> resource_drop T a (res_heap w) = (d, h) \<Longrightarrow>
     res_step T w (w\<lparr>res_heap := h, res_arcs := remove1 a (res_arcs w)\<rparr>)"
| res_step_collect: "p \<in> set (res_terms w) \<Longrightarrow> release_resource T p (res_heap w) = (d, h) \<Longrightarrow>
     res_step T w (w\<lparr>res_heap := h, res_terms := remove1 p (res_terms w)\<rparr>)"

inductive res_reachable :: "rust_type \<Rightarrow> 'v res_world \<Rightarrow> bool" for T where
  res_reach_init: "res_reachable T \<lparr>res_heap = Map.empty, res_arcs = [], res_terms = []\<rparr>"
| res_reach_step: "res_reachable T w \<Longrightarrow> res_step T w w' \<Longrightarrow> res_reachable T w'"

text \<open>The references to an allocation.\<close>

definition references :: "'v res_world \<Rightarrow> nat \<Rightarrow> nat" where
  "references w p = count_list (map arc_raw (res_arcs w)) p + count_list (res_terms w) p"

text \<open>
  The count of an allocation is the number of its references, an allocation holds one value, at the
  aligned address, and every arc points there.
\<close>

definition alloc_ok :: "rust_type \<Rightarrow> nat \<Rightarrow> nat \<Rightarrow> 'v resource option \<Rightarrow> bool" where
  "alloc_ok T p n ro \<longleftrightarrow>
     (case ro of
        None \<Rightarrow> n = 0
      | Some r \<Rightarrow> res_refs r = n \<and> 0 < n \<and>
          res_size r = get_alloc_size_struct (type_size T) (type_align T) \<and>
          (\<exists>v. res_content r = [align_alloced_mem_for_struct (type_align T) p \<mapsto> v]))"

definition arc_ok :: "rust_type \<Rightarrow> resource_arc \<Rightarrow> bool" where
  "arc_ok T a \<longleftrightarrow> arc_inner a = align_alloced_mem_for_struct (type_align T) (arc_raw a)"

definition res_invariant :: "rust_type \<Rightarrow> 'v res_world \<Rightarrow> bool" where
  "res_invariant T w \<longleftrightarrow>
     (\<forall>p. alloc_ok T p (references w p) (res_heap w p)) \<and> (\<forall>a \<in> set (res_arcs w). arc_ok T a)"

lemma count_list_remove1:
  "x \<in> set xs \<Longrightarrow> count_list (remove1 x xs) y = count_list xs y - (if x = y then 1 else 0)"
  by (induction xs) auto

lemma count_list_pos: "x \<in> set xs \<Longrightarrow> 0 < count_list xs x"
  by (induction xs) auto

lemma count_list_map_remove1:
  "a \<in> set xs \<Longrightarrow> count_list (map f (remove1 a xs)) y =
     count_list (map f xs) y - (if f a = y then 1 else 0)"
proof (induction xs)
  case (Cons x xs)
  have "a \<in> set xs \<Longrightarrow> 0 < count_list (map f xs) (f a)"
    using count_list_pos [of "f a" "map f xs"] by simp
  with Cons show ?case by auto
qed simp

lemma references_arc: "a \<in> set (res_arcs w) \<Longrightarrow> 0 < references w (arc_raw a)"
  using count_list_pos [of "arc_raw a" "map arc_raw (res_arcs w)"] by (simp add: references_def)

lemma references_term: "p \<in> set (res_terms w) \<Longrightarrow> 0 < references w p"
  using count_list_pos [of p "res_terms w"] by (simp add: references_def)

lemma alloc_ok_pos:
  assumes "alloc_ok T p n ro" and "0 < n"
  obtains r v where "ro = Some r" "res_refs r = n"
    "res_size r = get_alloc_size_struct (type_size T) (type_align T)"
    "res_content r = [align_alloced_mem_for_struct (type_align T) p \<mapsto> v]"
  using assms by (auto simp: alloc_ok_def split: option.splits)

text \<open>A step changes one allocation and its references.\<close>

lemma res_invariant_frame:
  assumes "res_invariant T w"
    and "\<And>q. q \<noteq> p \<Longrightarrow> res_heap w' q = res_heap w q \<and> references w' q = references w q"
    and "alloc_ok T p (references w' p) (res_heap w' p)"
    and "\<forall>a \<in> set (res_arcs w'). arc_ok T a"
  shows "res_invariant T w'"
  unfolding res_invariant_def
proof (intro conjI allI)
  fix q show "alloc_ok T q (references w' q) (res_heap w' q)"
    using assms(1-3) by (cases "q = p") (auto simp: res_invariant_def)
qed (rule assms(4))

lemma alloc_ok_keep:
  "alloc_ok T p n (h p) \<Longrightarrow> 0 < n \<Longrightarrow> alloc_ok T p (n + 1) (keep_resource p h p)"
  by (auto simp: alloc_ok_def keep_resource_def split: option.splits)

lemma alloc_ok_release:
  "alloc_ok T p n (h p) \<Longrightarrow> 0 < n \<Longrightarrow> alloc_ok T p (n - 1) (snd (release_resource T p h) p)"
  by (auto simp: alloc_ok_def release_resource_def split: option.splits)

lemma heap_other:
  "q \<noteq> p \<Longrightarrow> keep_resource p h q = h q" "q \<noteq> p \<Longrightarrow> snd (release_resource T p h) q = h q"
  by (auto simp: keep_resource_def release_resource_def split: option.splits)

lemma res_invariant_keep:
  assumes "res_invariant T w" and "0 < references w p"
    and "res_heap w' = keep_resource p (res_heap w)"
    and "\<And>q. references w' q = references w q + (if q = p then 1 else 0)"
    and "\<forall>a \<in> set (res_arcs w'). arc_ok T a"
  shows "res_invariant T w'"
  using assms(1)
proof (rule res_invariant_frame [where p = p])
  have "alloc_ok T p (references w p) (res_heap w p)" using assms(1) by (simp add: res_invariant_def)
  then show "alloc_ok T p (references w' p) (res_heap w' p)"
    using assms(2) unfolding assms(3,4) by (simp add: alloc_ok_keep [simplified])
qed (simp_all add: assms(3-5) heap_other)

lemma res_invariant_release:
  assumes "res_invariant T w" and "0 < references w p"
    and "res_heap w' = snd (release_resource T p (res_heap w))"
    and "\<And>q. references w' q = references w q - (if q = p then 1 else 0)"
    and "\<forall>a \<in> set (res_arcs w'). arc_ok T a"
  shows "res_invariant T w'"
  using assms(1)
proof (rule res_invariant_frame [where p = p])
  have "alloc_ok T p (references w p) (res_heap w p)" using assms(1) by (simp add: res_invariant_def)
  then show "alloc_ok T p (references w' p) (res_heap w' p)"
    using assms(2) unfolding assms(3,4) by (simp add: alloc_ok_release [simplified])
qed (simp_all add: assms(3-5) heap_other)

lemma res_invariant_arcs: "res_invariant T w \<Longrightarrow> a \<in> set (res_arcs w) \<Longrightarrow> arc_ok T a"
  by (simp add: res_invariant_def)

lemma res_step_invariant: "res_step T w w' \<Longrightarrow> res_invariant T w \<Longrightarrow> res_invariant T w'"
proof (induction rule: res_step.induct)
  case (res_step_new w p v a h)
  define r where "r t = \<lparr>res_type = t, res_size = get_alloc_size_struct (type_size T) (type_align T),
    res_refs = 1, res_content = [align_alloced_mem_for_struct (type_align T) p \<mapsto> v]\<rparr>" for t
  from res_step_new(2) obtain t where h: "h = (res_heap w)(p \<mapsto> r t)" and a: "arc_raw a = p" "arc_ok T a"
    by (auto simp: resource_new_def panic_bind_eq_Inr_iff Let_def arc_ok_def r_def)
  have "alloc_ok T p (references w p) (res_heap w p)"
    using res_step_new(3) by (simp add: res_invariant_def)
  then have "references w p = 0" using res_step_new(1) by (simp add: alloc_ok_def)
  moreover have "alloc_ok T p 1 (Some (r t))" by (auto simp: alloc_ok_def r_def)
  ultimately have ok: "alloc_ok T p (references w p + 1) (Some (r t))" by simp
  have arcs: "\<forall>b \<in> set (res_arcs w). arc_ok T b" using res_step_new(3) by (simp add: res_invariant_def)
  from res_step_new(3) show ?case
  proof (rule res_invariant_frame [where p = p])
    show "alloc_ok T p (references (w\<lparr>res_heap := h, res_arcs := a # res_arcs w\<rparr>) p)
        (res_heap (w\<lparr>res_heap := h, res_arcs := a # res_arcs w\<rparr>) p)"
      using ok a(1) by (simp add: references_def h)
  qed (use a arcs in \<open>simp_all add: references_def h\<close>)
next
  case (res_step_from_term p w a h)
  then have h: "h = keep_resource p (res_heap w)" and a: "arc_raw a = p" "arc_ok T a"
    by (auto simp: resource_from_term_def arc_ok_def split: sum.splits option.splits if_splits)
  show ?case
    using res_step_from_term(3) references_term [OF res_step_from_term(1)]
    by (rule res_invariant_keep)
      (use a in \<open>simp_all add: h references_def res_invariant_arcs [OF res_step_from_term(3)]\<close>)
next
  case (res_step_as_term a w p h)
  then have p: "p = arc_raw a" and h: "h = keep_resource (arc_raw a) (res_heap w)"
    by (auto simp: resource_as_term_def)
  show ?case
    using res_step_as_term(3) references_arc [OF res_step_as_term(1)]
    by (rule res_invariant_keep)
      (simp_all add: h p references_def res_invariant_arcs [OF res_step_as_term(3)])
next
  case (res_step_clone a w b h)
  then have b: "b = a" and h: "h = keep_resource (arc_raw a) (res_heap w)"
    by (auto simp: resource_clone_def)
  show ?case
    using res_step_clone(3) references_arc [OF res_step_clone(1)]
    by (rule res_invariant_keep)
      (use res_step_clone(1) in \<open>simp_all add: h b references_def
         res_invariant_arcs [OF res_step_clone(3)]\<close>)
next
  case (res_step_drop a w d h)
  then have h: "h = snd (release_resource T (arc_raw a) (res_heap w))"
    by (simp add: resource_drop_def)
  have pos: "0 < count_list (map arc_raw (res_arcs w)) (arc_raw a)"
    using count_list_pos [of "arc_raw a" "map arc_raw (res_arcs w)"] res_step_drop(1) by simp
  show ?case
    using res_step_drop(3) references_arc [OF res_step_drop(1)]
  proof (rule res_invariant_release)
    show "references (w\<lparr>res_heap := h, res_arcs := remove1 a (res_arcs w)\<rparr>) q =
        references w q - (if q = arc_raw a then 1 else 0)" for q
      using pos res_step_drop(1) by (auto simp: references_def count_list_map_remove1)
    show "\<forall>b \<in> set (res_arcs (w\<lparr>res_heap := h, res_arcs := remove1 a (res_arcs w)\<rparr>)). arc_ok T b"
      using res_invariant_arcs [OF res_step_drop(3)] by (auto dest: notin_set_remove1)
  qed (simp add: h)
next
  case (res_step_collect p w d h)
  then have h: "h = snd (release_resource T p (res_heap w))" by simp
  have pos: "0 < count_list (res_terms w) p"
    using res_step_collect(1) by (rule count_list_pos)
  show ?case
    using res_step_collect(3) references_term [OF res_step_collect(1)]
  proof (rule res_invariant_release)
    show "references (w\<lparr>res_heap := h, res_terms := remove1 p (res_terms w)\<rparr>) q =
        references w q - (if q = p then 1 else 0)" for q
      using pos res_step_collect(1) by (auto simp: references_def count_list_remove1)
  qed (simp_all add: h res_invariant_arcs [OF res_step_collect(3)])
qed

lemma res_reachable_invariant: "res_reachable T w \<Longrightarrow> res_invariant T w"
proof (induction rule: res_reachable.induct)
  case res_reach_init
  show ?case by (simp add: res_invariant_def references_def alloc_ok_def)
next
  case (res_reach_step w w')
  then show ?case by (blast intro: res_step_invariant)
qed

text \<open>Every arc of a reachable state is valid.\<close>

lemma reachable_arc:
  assumes "res_reachable T w" and "a \<in> set (res_arcs w)"
  obtains r v where "res_heap w (arc_raw a) = Some r" "res_refs r = references w (arc_raw a)"
    "res_size r = get_alloc_size_struct (type_size T) (type_align T)"
    "res_content r = [arc_inner a \<mapsto> v]"
    "arc_inner a = align_alloced_mem_for_struct (type_align T) (arc_raw a)"
proof -
  from assms(1) have "res_invariant T w" by (rule res_reachable_invariant)
  then have "alloc_ok T (arc_raw a) (references w (arc_raw a)) (res_heap w (arc_raw a))"
    and a: "arc_inner a = align_alloced_mem_for_struct (type_align T) (arc_raw a)"
    using assms(2) by (auto simp: res_invariant_def arc_ok_def)
  with references_arc [OF assms(2)] show thesis
    by (elim alloc_ok_pos) (auto simp: a intro: that)
qed

end
