(* ===== verification/Rustler_Terms.thy ===== *)
theory Rustler_Terms
  imports Rustler_Codec
begin

text \<open>
  A concrete C interface on a datatype of terms, on which the hypotheses of the Rustler properties
  are shown to hold. It is no part of the program: it stands for the Erlang virtual machine.
\<close>

datatype eterm = EAtom bytes | EInt int | EBin bytes | ENil | ECons eterm eterm
  | ETuple "eterm list" | EMap "(eterm \<times> eterm) list" | EException eterm

fun is_EInt :: "eterm \<Rightarrow> bool" where
  "is_EInt (EInt n) = True"
| "is_EInt _ = False"

definition int_between :: "int \<Rightarrow> int \<Rightarrow> eterm \<Rightarrow> int option" where
  "int_between low high t =
     (case t of EInt n \<Rightarrow> if low \<le> n \<and> n < high then Some n else None | _ \<Rightarrow> None)"

fun list_of :: "eterm \<Rightarrow> eterm list option" where
  "list_of ENil = Some []"
| "list_of (ECons h t) = map_option (Cons h) (list_of t)"
| "list_of _ = None"

definition eterm_list :: "eterm list \<Rightarrow> eterm" where
  "eterm_list ts = foldr ECons ts ENil"

definition demo_nif :: "eterm nif" where
  "demo_nif =
     \<lparr>enif_make_atom_len = EAtom,
      enif_get_atom_latin1 = (\<lambda>t. case t of EAtom bs \<Rightarrow> Some bs | _ \<Rightarrow> None),
      enif_is_atom = (\<lambda>t. case t of EAtom bs \<Rightarrow> True | _ \<Rightarrow> False),
      enif_is_binary = (\<lambda>t. case t of EBin bs \<Rightarrow> True | _ \<Rightarrow> False),
      enif_is_empty_list = (\<lambda>t. t = ENil),
      enif_is_exception = (\<lambda>t. case t of EException e \<Rightarrow> True | _ \<Rightarrow> False),
      enif_is_fun = (\<lambda>t. False),
      enif_is_list = (\<lambda>t. case t of ENil \<Rightarrow> True | ECons h r \<Rightarrow> True | _ \<Rightarrow> False),
      enif_is_map = (\<lambda>t. case t of EMap m \<Rightarrow> True | _ \<Rightarrow> False),
      enif_is_number = is_EInt,
      enif_is_pid = (\<lambda>t. False), enif_is_port = (\<lambda>t. False), enif_is_ref = (\<lambda>t. False),
      enif_is_tuple = (\<lambda>t. case t of ETuple ts \<Rightarrow> True | _ \<Rightarrow> False),
      enif_make_int = (\<lambda>n. EInt (sint n)),
      enif_get_int = (\<lambda>t. map_option word_of_int (int_between (- (2 ^ 31)) (2 ^ 31) t)),
      enif_make_uint = (\<lambda>n. EInt (uint n)),
      enif_get_uint = (\<lambda>t. map_option word_of_int (int_between 0 (2 ^ 32) t)),
      enif_make_int64 = (\<lambda>n. EInt (sint n)),
      enif_get_int64 = (\<lambda>t. map_option word_of_int (int_between (- (2 ^ 63)) (2 ^ 63) t)),
      enif_make_uint64 = (\<lambda>n. EInt (uint n)),
      enif_get_uint64 = (\<lambda>t. map_option word_of_int (int_between 0 (2 ^ 64) t)),
      enif_alloc_binary = (\<lambda>n. Some (replicate n 0xFF)),
      enif_realloc_binary = (\<lambda>bs n. if n \<le> length bs then Some (take n bs) else None),
      enif_make_binary = EBin,
      enif_inspect_binary = (\<lambda>t. case t of EBin bs \<Rightarrow> Some bs | _ \<Rightarrow> None),
      enif_make_sub_binary = (\<lambda>t off n. case t of EBin bs \<Rightarrow> EBin (take n (drop off bs)) | _ \<Rightarrow> t),
      enif_get_list_cell = (\<lambda>t. case t of ECons h r \<Rightarrow> Some (h, r) | _ \<Rightarrow> None),
      enif_get_list_length = (\<lambda>t. map_option (\<lambda>ts. word_of_nat (length ts)) (list_of t)),
      enif_make_list_from_array = eterm_list,
      enif_make_list_cell = ECons,
      enif_make_reverse_list = (\<lambda>t. map_option (\<lambda>ts. eterm_list (rev ts)) (list_of t)),
      enif_get_tuple = (\<lambda>t. case t of ETuple ts \<Rightarrow> Some ts | _ \<Rightarrow> None),
      enif_make_tuple_from_array = ETuple,
      enif_make_new_map = EMap [],
      enif_get_map_value = (\<lambda>t k. case t of EMap m \<Rightarrow> map_of m k | _ \<Rightarrow> None),
      enif_get_map_size = (\<lambda>t. case t of EMap m \<Rightarrow> Some (length m) | _ \<Rightarrow> None),
      enif_make_map_put = (\<lambda>t k v. case t of
         EMap m \<Rightarrow> Some (EMap ((k, v) # filter (\<lambda>p. fst p \<noteq> k) m)) | _ \<Rightarrow> None),
      enif_make_map_remove = (\<lambda>t k. case t of
         EMap m \<Rightarrow> Some (EMap (filter (\<lambda>p. fst p \<noteq> k) m)) | _ \<Rightarrow> None),
      enif_make_map_update = (\<lambda>t k v. case t of
         EMap m \<Rightarrow> if map_of m k = None then None
                    else Some (EMap ((k, v) # filter (\<lambda>p. fst p \<noteq> k) m))
       | _ \<Rightarrow> None),
      enif_map_pairs = (\<lambda>t. case t of EMap m \<Rightarrow> Some m | _ \<Rightarrow> None),
      enif_make_badarg = EException (EAtom (as_bytes ''badarg'')),
      enif_raise_exception = EException\<rparr>"

lemma eterm_list_simps [simp]:
  "eterm_list [] = ENil" "eterm_list (t # ts) = ECons t (eterm_list ts)"
  by (simp_all add: eterm_list_def)

lemma int_between_EInt [simp]:
  "int_between low high (EInt n) = (if low \<le> n \<and> n < high then Some n else None)"
  by (simp add: int_between_def)

lemma int_between_other [simp]:
  "int_between low high (EAtom bs) = None" "int_between low high (EBin bs) = None"
  by (simp_all add: int_between_def)

lemma demo_nif_simps [simp]:
  "enif_make_atom_len demo_nif = EAtom" "enif_is_atom demo_nif (EAtom bs) = True"
  "enif_make_binary demo_nif = EBin" "enif_inspect_binary demo_nif (EBin bs) = Some bs"
  "enif_make_tuple_from_array demo_nif = ETuple" "enif_get_tuple demo_nif (ETuple ts) = Some ts"
  "enif_make_list_from_array demo_nif = eterm_list"
  "enif_make_new_map demo_nif = EMap []" "enif_get_map_value demo_nif (EMap m) k = map_of m k"
  "enif_make_map_put demo_nif (EMap m) k v = Some (EMap ((k, v) # filter (\<lambda>p. fst p \<noteq> k) m))"
  "enif_make_uint demo_nif n = EInt (uint n)"
  "enif_get_uint demo_nif t = map_option word_of_int (int_between 0 (2 ^ 32) t)"
  "enif_make_uint64 demo_nif m' = EInt (uint m')"
  "enif_get_uint64 demo_nif t = map_option word_of_int (int_between 0 (2 ^ 64) t)"
  "enif_alloc_binary demo_nif n' = Some (replicate n' 0xFF)"
  "enif_make_badarg demo_nif = EException (EAtom (as_bytes ''badarg''))"
  "enif_raise_exception demo_nif = EException"
  by (simp_all add: demo_nif_def)

lemma demo_atom_laws: "atom_laws demo_nif"
  by (simp add: atom_laws_def demo_nif_def)

lemma demo_value_laws: "value_laws demo_nif"
proof -
  have "- (2 ^ 31) \<le> sint n \<and> sint n < 2 ^ 31" for n :: i32
    using sint_greater_eq [of n] sint_less [of n] by simp
  moreover have "- (2 ^ 63) \<le> sint n \<and> sint n < 2 ^ 63" for n :: i64
    using sint_greater_eq [of n] sint_less [of n] by simp
  moreover have "0 \<le> uint n \<and> uint n < 2 ^ 32" for n :: u32
    using uint_range_size [of n] by (simp add: word_size)
  moreover have "0 \<le> uint n \<and> uint n < 2 ^ 64" for n :: u64
    using uint_range_size [of n] by (simp add: word_size)
  ultimately show ?thesis
    by (simp add: value_laws_def demo_nif_def split: eterm.splits)
qed

lemma demo_container_laws: "container_laws demo_nif"
proof -
  have "eterm_list ts = ENil \<longleftrightarrow> ts = []" for ts by (cases ts) simp_all
  moreover have "case eterm_list ts of ENil \<Rightarrow> True | ECons h r \<Rightarrow> True | _ \<Rightarrow> False" for ts
    by (cases ts) simp_all
  ultimately show ?thesis by (simp add: container_laws_def demo_nif_def)
qed

lemma map_of_filter_other: "k' \<noteq> k \<Longrightarrow> map_of (filter (\<lambda>p. fst p \<noteq> k) m) k' = map_of m k'"
  by (induction m) auto

lemma demo_map_laws: "map_laws demo_nif"
  by (simp add: map_laws_def demo_nif_def map_of_filter_other split: eterm.splits)

lemma demo_allocator_laws: "allocator_laws demo_nif"
  by (simp add: allocator_laws_def demo_nif_def min_def)

lemma demo_nif_laws: "nif_laws demo_nif"
  by (simp add: nif_laws_def demo_atom_laws demo_value_laws demo_container_laws demo_map_laws
      demo_allocator_laws)

end
