(* ===== verification/Rustler_Binary.thy ===== *)
theory Rustler_Binary
  imports Rustler_Types
begin

text \<open>
  types/binary.rs once more, with the buffers in memory: who owns a buffer, when it is freed, and
  what a slice of it can still see. Rustler_Types has the same operations on the bytes alone.
\<close>

section \<open>Buffers\<close>

text \<open>
  A buffer is a base address with bytes. \<open>buf_heap\<close> holds the allocated buffers; \<open>buf_vm\<close> are those
  that belong to terms of the virtual machine. A pointer is a base and an offset. An operation
  returns \<open>None\<close> where its behaviour is undefined: an access to, or a release of, memory that is not
  allocated.
\<close>

record buffers =
  buf_heap :: "nat \<rightharpoonup> bytes"
  buf_vm :: "nat set"

record nif_binary =
  nb_size :: nat
  nb_base :: nat
  nb_off :: nat

record owned_binary =
  ob_inner :: nif_binary
  ob_release :: bool

text \<open>Where the virtual machine places a new buffer, and where it moves one that is resized.\<close>

record placement =
  alloc_at :: "(nat \<rightharpoonup> bytes) \<Rightarrow> nat \<Rightarrow> nat"
  realloc_at :: "(nat \<rightharpoonup> bytes) \<Rightarrow> nat \<Rightarrow> nat \<Rightarrow> nat"

definition placement_laws :: "placement \<Rightarrow> bool" where
  "placement_laws P =
     ((\<forall>h n. finite (dom h) \<longrightarrow> h (alloc_at P h n) = None) \<and>
      (\<forall>h p n. finite (dom h) \<longrightarrow> realloc_at P h p n = p \<or> h (realloc_at P h p n) = None))"

definition enif_release_binary :: "nif_binary \<Rightarrow> buffers \<Rightarrow> buffers option" where
  "enif_release_binary bin m =
     (case buf_heap m (nb_base bin) of
        None \<Rightarrow> None
      | Some bs \<Rightarrow> Some (m\<lparr>buf_heap := (buf_heap m)(nb_base bin := None)\<rparr>))"

section \<open>Slices\<close>

text \<open>
  \<open>from_raw_parts\<close> and \<open>from_raw_parts_mut\<close>: a slice is the pointer and the size. Writing is
  \<open>Write for &mut [u8]\<close>, which copies what fits.
\<close>

definition slice_read :: "nif_binary \<Rightarrow> buffers \<Rightarrow> bytes option" where
  "slice_read s m =
     (case buf_heap m (nb_base s) of
        None \<Rightarrow> None
      | Some bs \<Rightarrow>
          if nb_off s + nb_size s \<le> length bs then Some (take (nb_size s) (drop (nb_off s) bs))
          else None)"

definition slice_store :: "nif_binary \<Rightarrow> bytes \<Rightarrow> buffers \<Rightarrow> (nat \<times> buffers) option" where
  "slice_store s data m =
     (case buf_heap m (nb_base s) of
        None \<Rightarrow> None
      | Some bs \<Rightarrow>
          if nb_off s + nb_size s \<le> length bs then
            (case slice_write (take (nb_size s) (drop (nb_off s) bs)) data of (new, n) \<Rightarrow>
               Some (n, m\<lparr>buf_heap := (buf_heap m)(nb_base s \<mapsto>
                 take (nb_off s) bs @ new @ drop (nb_off s + nb_size s) bs)\<rparr>))
          else None)"

section \<open>OwnedBinary\<close>

definition ob_from_raw :: "nif_binary \<Rightarrow> owned_binary" where
  "ob_from_raw inner = \<lparr>ob_inner = inner, ob_release = True\<rparr>"

definition ob_new :: "'t nif \<Rightarrow> placement \<Rightarrow> nat \<Rightarrow> buffers \<Rightarrow> owned_binary option \<times> buffers" where
  "ob_new N P sz m =
     (case enif_alloc_binary N sz of
        None \<Rightarrow> (None, m)
      | Some bs \<Rightarrow>
          let p = alloc_at P (buf_heap m) sz in
          (Some \<lparr>ob_inner = \<lparr>nb_size = sz, nb_base = p, nb_off = 0\<rparr>, ob_release = True\<rparr>,
           m\<lparr>buf_heap := (buf_heap m)(p \<mapsto> bs)\<rparr>))"

text \<open>
  \<open>Term::to_binary\<close> takes over the buffer that \<open>enif_term_to_binary\<close> allocates for the encoded
  term (\<open>None\<close> if it fails).
\<close>

definition ob_term_to_binary ::
  "placement \<Rightarrow> bytes option \<Rightarrow> buffers \<Rightarrow> owned_binary may_panic \<times> buffers" where
  "ob_term_to_binary P encoded m =
     (case encoded of
        None \<Rightarrow> (Inl unwrap_none_msg, m)
      | Some bs \<Rightarrow>
          let p = alloc_at P (buf_heap m) (length bs);
              raw_binary = \<lparr>nb_size = length bs, nb_base = p, nb_off = 0\<rparr>
          in (Inr (ob_from_raw raw_binary), m\<lparr>buf_heap := (buf_heap m)(p \<mapsto> bs)\<rparr>))"

definition ob_as_slice :: "owned_binary \<Rightarrow> nif_binary" where
  "ob_as_slice b = ob_inner b"

definition ob_as_mut_slice :: "owned_binary \<Rightarrow> nif_binary" where
  "ob_as_mut_slice b = ob_inner b"

text \<open>
  \<open>realloc\<close> returns whether it succeeded and updates the handle in place; the old buffer is gone if
  the new one is elsewhere.
\<close>

definition ob_realloc ::
  "'t nif \<Rightarrow> placement \<Rightarrow> owned_binary \<Rightarrow> nat \<Rightarrow> buffers \<Rightarrow> (bool \<times> owned_binary \<times> buffers) option" where
  "ob_realloc N P b sz m =
     (case buf_heap m (nb_base (ob_inner b)) of
        None \<Rightarrow> None
      | Some bs \<Rightarrow>
          (case enif_realloc_binary N bs sz of
             None \<Rightarrow> Some (False, b, m)
           | Some bs' \<Rightarrow>
               let p = realloc_at P (buf_heap m) (nb_base (ob_inner b)) sz in
               Some (True, b\<lparr>ob_inner := \<lparr>nb_size = sz, nb_base = p, nb_off = 0\<rparr>\<rparr>,
                 m\<lparr>buf_heap := (buf_heap m)(nb_base (ob_inner b) := None, p \<mapsto> bs')\<rparr>)))"

definition ob_drop :: "owned_binary \<Rightarrow> buffers \<Rightarrow> buffers option" where
  "ob_drop b m = (if ob_release b then enif_release_binary (ob_inner b) m else Some m)"

text \<open>
  The copy swaps the inner binaries, so the handle that goes out of scope at the end, and when a
  panic unwinds, is the one with the buffer that is not kept.
\<close>

definition ob_realloc_or_copy ::
  "'t nif \<Rightarrow> placement \<Rightarrow> owned_binary \<Rightarrow> nat \<Rightarrow> buffers \<Rightarrow>
     (unit may_panic \<times> owned_binary \<times> buffers) option" where
  "ob_realloc_or_copy N P b sz m =
     Option.bind (ob_realloc N P b sz m) (\<lambda>(ok, b, m).
     if ok then Some (Inr (), b, m)
     else case ob_new N P sz m of
            (None, m) \<Rightarrow> Some (Inl unwrap_none_msg, b, m)
          | (Some new, m) \<Rightarrow>
              Option.bind (slice_read (ob_as_slice b) m) (\<lambda>data.
              Option.bind (slice_store (ob_as_mut_slice new) data m) (\<lambda>(num_written, m).
              if \<not> (num_written = nb_size (ob_inner b) \<or> num_written = nb_size (ob_inner new))
              then map_option (\<lambda>m. (Inl ''Could not copy binary'', b, m)) (ob_drop new m)
              else let (b, new) = (b\<lparr>ob_inner := ob_inner new\<rparr>, new\<lparr>ob_inner := ob_inner b\<rparr>) in
                   map_option (\<lambda>m. (Inr (), b, m)) (ob_drop new m))))"

section \<open>Binary\<close>

text \<open>The term is what \<open>enif_inspect_binary\<close> finds of it.\<close>

record binary_view =
  vw_inner :: nif_binary
  vw_term :: nif_binary

definition view_as_slice :: "binary_view \<Rightarrow> nif_binary" where
  "view_as_slice v = vw_inner v"

text \<open>
  \<open>from_owned\<close> consumes its argument: the handle is dropped at the end, with \<open>release\<close> cleared. The
  buffer belongs to the new term, made by \<open>enif_make_binary\<close>.
\<close>

definition view_from_owned :: "owned_binary \<Rightarrow> buffers \<Rightarrow> (binary_view \<times> buffers) option" where
  "view_from_owned bin m =
     (let bin = bin\<lparr>ob_release := False\<rparr> in
      case buf_heap m (nb_base (ob_inner bin)) of
        None \<Rightarrow> None
      | Some bs \<Rightarrow>
          let m = m\<lparr>buf_vm := insert (nb_base (ob_inner bin)) (buf_vm m)\<rparr>;
              v = \<lparr>vw_inner = ob_inner bin, vw_term = ob_inner bin\<rparr>
          in map_option (\<lambda>m. (v, m)) (ob_drop bin m))"

definition ob_release_to :: "owned_binary \<Rightarrow> buffers \<Rightarrow> (binary_view \<times> buffers) option" where
  "ob_release_to b m = view_from_owned b m"

definition ob_from_unowned ::
  "'t nif \<Rightarrow> placement \<Rightarrow> binary_view \<Rightarrow> buffers \<Rightarrow> (owned_binary option may_panic \<times> buffers) option"
  where
  "ob_from_unowned N P from_bin m =
     (let len = nb_size (vw_inner from_bin) in
      case ob_new N P len m of
        (None, m) \<Rightarrow> Some (Inr None, m)
      | (Some bin, m) \<Rightarrow>
          Option.bind (slice_read (view_as_slice from_bin) m) (\<lambda>data.
          Option.bind (slice_store (ob_as_mut_slice bin) data m) (\<lambda>(write_len, m).
          if write_len \<noteq> len
          then map_option (\<lambda>m. (Inl ''Could not copy binary'', m)) (ob_drop bin m)
          else Some (Inr (Some bin), m))))"

definition view_to_owned ::
  "'t nif \<Rightarrow> placement \<Rightarrow> binary_view \<Rightarrow> buffers \<Rightarrow> (owned_binary option may_panic \<times> buffers) option"
  where
  "view_to_owned N P v m = ob_from_unowned N P v m"

text \<open>A sub-binary is a view of the same buffer.\<close>

definition view_sub :: "binary_view \<Rightarrow> nat \<Rightarrow> nat \<Rightarrow> ('t, binary_view) nif_result" where
  "view_sub v offset len =
     result_bind (ok_or_badarg (checked_add len offset)) (\<lambda>min_len.
     if nb_size (vw_inner v) < min_len then Err BadArg
     else let raw_term = \<lparr>nb_size = len, nb_base = nb_base (vw_term v),
                          nb_off = nb_off (vw_term v) + offset\<rparr>
          in Ok \<lparr>vw_inner = raw_term, vw_term = raw_term\<rparr>)"

section \<open>Histories\<close>

text \<open>
  Any sequence of the operations, with the handles and the views that exist. Slices live no longer
  than the step that uses them; Rustler\_Slices adds those that are kept. A term is collected when no view of its buffer is left.
\<close>

record bin_world =
  bw_mem :: buffers
  bw_owned :: "owned_binary list"
  bw_views :: "binary_view list"

inductive bin_step :: "'t nif \<Rightarrow> placement \<Rightarrow> bin_world \<Rightarrow> bin_world \<Rightarrow> bool" for N P where
  bin_step_new: "ob_new N P sz (bw_mem w) = (Some b, m) \<Longrightarrow>
     bin_step N P w (w\<lparr>bw_mem := m, bw_owned := b # bw_owned w\<rparr>)"
| bin_step_to_binary: "ob_term_to_binary P encoded (bw_mem w) = (Inr b, m) \<Longrightarrow>
     bin_step N P w (w\<lparr>bw_mem := m, bw_owned := b # bw_owned w\<rparr>)"
| bin_step_to_owned: "v \<in> set (bw_views w) \<Longrightarrow>
     view_to_owned N P v (bw_mem w) = Some (Inr (Some b), m) \<Longrightarrow>
     bin_step N P w (w\<lparr>bw_mem := m, bw_owned := b # bw_owned w\<rparr>)"
| bin_step_realloc: "bw_owned w = as @ b # bs \<Longrightarrow>
     ob_realloc N P b sz (bw_mem w) = Some (ok, b', m) \<Longrightarrow>
     bin_step N P w (w\<lparr>bw_mem := m, bw_owned := as @ b' # bs\<rparr>)"
| bin_step_realloc_or_copy: "bw_owned w = as @ b # bs \<Longrightarrow>
     ob_realloc_or_copy N P b sz (bw_mem w) = Some (r, b', m) \<Longrightarrow>
     bin_step N P w (w\<lparr>bw_mem := m, bw_owned := as @ b' # bs\<rparr>)"
| bin_step_write: "bw_owned w = as @ b # bs \<Longrightarrow>
     slice_store (ob_as_mut_slice b) data (bw_mem w) = Some (n, m) \<Longrightarrow>
     bin_step N P w (w\<lparr>bw_mem := m\<rparr>)"
| bin_step_release: "bw_owned w = as @ b # bs \<Longrightarrow>
     ob_release_to b (bw_mem w) = Some (v, m) \<Longrightarrow>
     bin_step N P w (w\<lparr>bw_mem := m, bw_owned := as @ bs, bw_views := v # bw_views w\<rparr>)"
| bin_step_drop: "bw_owned w = as @ b # bs \<Longrightarrow> ob_drop b (bw_mem w) = Some m \<Longrightarrow>
     bin_step N P w (w\<lparr>bw_mem := m, bw_owned := as @ bs\<rparr>)"
| bin_step_sub: "v \<in> set (bw_views w) \<Longrightarrow> (view_sub v offset len :: ('t, binary_view) nif_result) = Ok v' \<Longrightarrow>
     bin_step N P w (w\<lparr>bw_views := v' # bw_views w\<rparr>)"
| bin_step_forget: "bw_views w = as @ v # bs \<Longrightarrow> bin_step N P w (w\<lparr>bw_views := as @ bs\<rparr>)"
| bin_step_collect: "p \<in> buf_vm (bw_mem w) \<Longrightarrow> p \<notin> (\<lambda>v. nb_base (vw_inner v)) ` set (bw_views w) \<Longrightarrow>
     bin_step N P w (w\<lparr>bw_mem := \<lparr>buf_heap = (buf_heap (bw_mem w))(p := None),
                                  buf_vm = buf_vm (bw_mem w) - {p}\<rparr>\<rparr>)"

inductive bin_reachable :: "'t nif \<Rightarrow> placement \<Rightarrow> bin_world \<Rightarrow> bool" for N P where
  bin_reach_init: "bin_reachable N P
     \<lparr>bw_mem = \<lparr>buf_heap = Map.empty, buf_vm = {}\<rparr>, bw_owned = [], bw_views = []\<rparr>"
| bin_reach_step: "bin_reachable N P w \<Longrightarrow> bin_step N P w w' \<Longrightarrow> bin_reachable N P w'"

section \<open>Ownership\<close>

abbreviation ob_base :: "owned_binary \<Rightarrow> nat" where
  "ob_base b \<equiv> nb_base (ob_inner b)"

text \<open>A handle owns a whole buffer, which is not the virtual machine's.\<close>

definition owns :: "buffers \<Rightarrow> owned_binary \<Rightarrow> bytes \<Rightarrow> bool" where
  "owns m b bs \<longleftrightarrow> ob_release b \<and> nb_off (ob_inner b) = 0 \<and> nb_size (ob_inner b) = length bs \<and>
     buf_heap m (ob_base b) = Some bs \<and> ob_base b \<notin> buf_vm m"

definition sees :: "buffers \<Rightarrow> binary_view \<Rightarrow> bytes \<Rightarrow> bool" where
  "sees m v bs \<longleftrightarrow> vw_term v = vw_inner v \<and> nb_base (vw_inner v) \<in> buf_vm m \<and>
     slice_read (vw_inner v) m = Some bs"

definition bin_invariant :: "bin_world \<Rightarrow> bool" where
  "bin_invariant w \<longleftrightarrow>
     (\<forall>b \<in> set (bw_owned w). \<exists>bs. owns (bw_mem w) b bs) \<and>
     (\<forall>v \<in> set (bw_views w). \<exists>bs. sees (bw_mem w) v bs) \<and>
     distinct (map ob_base (bw_owned w)) \<and> finite (dom (buf_heap (bw_mem w))) \<and>
     dom (buf_heap (bw_mem w)) = ob_base ` set (bw_owned w) \<union> buf_vm (bw_mem w)"

text \<open>
  What the operations do to one handle: a new one gets memory that nothing else has, and one that is
  written or resized keeps its place or moves to such memory.
\<close>

definition gains :: "buffers \<Rightarrow> buffers \<Rightarrow> owned_binary \<Rightarrow> bytes \<Rightarrow> bool" where
  "gains m m' b bs \<longleftrightarrow> ob_release b \<and> nb_size (ob_inner b) = length bs \<and> nb_off (ob_inner b) = 0 \<and>
     buf_heap m (ob_base b) = None \<and> m' = m\<lparr>buf_heap := (buf_heap m)(ob_base b \<mapsto> bs)\<rparr>"

definition becomes :: "buffers \<Rightarrow> owned_binary \<Rightarrow> buffers \<Rightarrow> owned_binary \<Rightarrow> bytes \<Rightarrow> bool" where
  "becomes m b m' b' bs \<longleftrightarrow>
     ob_release b' \<and> nb_size (ob_inner b') = length bs \<and> nb_off (ob_inner b') = 0 \<and>
     (ob_base b' = ob_base b \<or> buf_heap m (ob_base b') = None) \<and>
     m' = m\<lparr>buf_heap := (buf_heap m)(ob_base b := None, ob_base b' \<mapsto> bs)\<rparr>"

lemma slice_store_whole:
  assumes "buf_heap m (nb_base s) = Some bs" and "nb_size s = length bs" and "nb_off s = 0"
  shows "slice_store s data m =
    Some (snd (slice_write bs data),
      m\<lparr>buf_heap := (buf_heap m)(nb_base s \<mapsto> fst (slice_write bs data))\<rparr>)"
  using assms by (simp add: slice_store_def split: prod.splits)

lemma slice_write_length: "length (fst (slice_write dst data)) = length dst"
  by (simp add: slice_write_def Let_def)

lemma owns_read: "owns m b bs \<Longrightarrow> slice_read (ob_as_slice b) m = Some bs"
  by (simp add: owns_def slice_read_def ob_as_slice_def)

lemma owns_write:
  assumes "owns m b bs"
  shows "\<exists>n m'. slice_store (ob_as_mut_slice b) data m = Some (n, m') \<and>
    becomes m b m' b (fst (slice_write bs data))"
  using assms slice_store_whole [of m "ob_inner b" bs]
  by (simp add: ob_as_mut_slice_def becomes_def slice_write_length owns_def)

text \<open>The operations on a handle agree with those of Rustler_Types on its bytes.\<close>

lemma ob_new_cases:
  assumes "placement_laws P" and "allocator_laws N" and "finite (dom (buf_heap m))"
  shows "case owned_new N sz of
      None \<Rightarrow> ob_new N P sz m = (None, m)
    | Some bs \<Rightarrow> length bs = sz \<and> (\<exists>b m'. ob_new N P sz m = (Some b, m') \<and> gains m m' b bs)"
  using assms
  by (auto simp: owned_new_def ob_new_def gains_def placement_laws_def allocator_laws_def Let_def
      split: option.split)

lemma ob_term_to_binary_gains:
  assumes "placement_laws P" and "finite (dom (buf_heap m))"
    and "ob_term_to_binary P encoded m = (Inr b, m')"
  obtains bs where "encoded = Some bs" "gains m m' b bs"
proof (cases encoded)
  case (Some bs)
  then have "gains m m' b bs"
    using assms by (auto simp: ob_term_to_binary_def ob_from_raw_def gains_def placement_laws_def Let_def)
  with Some show ?thesis by (rule that)
qed (use assms(3) in \<open>simp add: ob_term_to_binary_def\<close>)

lemma ob_realloc_cases:
  assumes "placement_laws P" and "allocator_laws N" and "finite (dom (buf_heap m))" and "owns m b bs"
  shows "case enif_realloc_binary N bs sz of
      None \<Rightarrow> ob_realloc N P b sz m = Some (False, b, m)
    | Some bs' \<Rightarrow> \<exists>b' m'. ob_realloc N P b sz m = Some (True, b', m') \<and> becomes m b m' b' bs'"
  using assms
  by (auto simp: ob_realloc_def becomes_def placement_laws_def allocator_laws_def owns_def Let_def
      split: option.split)

lemma gains_store:
  assumes "gains m m' b bs"
  shows "\<exists>m''. slice_store (ob_as_mut_slice b) data m' = Some (snd (slice_write bs data), m'') \<and>
    gains m m'' b (fst (slice_write bs data))"
  using assms slice_store_whole [of m' "ob_inner b" bs]
  by (simp add: ob_as_mut_slice_def gains_def slice_write_length)

lemma gains_read:
  "gains m m' b bs \<Longrightarrow> slice_read s m = Some data \<Longrightarrow> slice_read s m' = Some data"
  by (auto simp: gains_def slice_read_def split: option.splits if_splits)

text \<open>The handle that the copy leaves behind takes the old buffer with it.\<close>

lemma ob_realloc_or_copy_cases:
  assumes laws: "placement_laws P" "allocator_laws N" and fin: "finite (dom (buf_heap m))"
    and own: "owns m b bs"
  shows "case realloc_or_copy N bs sz of
      Inl e \<Rightarrow> ob_realloc_or_copy N P b sz m = Some (Inl e, b, m)
    | Inr bs' \<Rightarrow> \<exists>b' m'. ob_realloc_or_copy N P b sz m = Some (Inr (), b', m') \<and> becomes m b m' b' bs'"
proof (cases "enif_realloc_binary N bs sz")
  case (Some bs')
  then show ?thesis
    using ob_realloc_cases [OF laws fin own, of sz]
    by (auto simp: ob_realloc_or_copy_def realloc_or_copy_def)
next
  case None
  then have re: "ob_realloc N P b sz m = Some (False, b, m)"
    using ob_realloc_cases [OF laws fin own, of sz] by simp
  show ?thesis
  proof (cases "owned_new N sz")
    case new: None
    then show ?thesis
      using None re ob_new_cases [OF laws fin, of sz]
      by (simp add: ob_realloc_or_copy_def realloc_or_copy_def)
  next
    case new: (Some fresh)
    then obtain n m1 where n: "ob_new N P sz m = (Some n, m1)" "gains m m1 n fresh" "length fresh = sz"
      using ob_new_cases [OF laws fin, of sz] by auto
    have read: "slice_read (ob_as_slice b) m1 = Some bs"
      using gains_read [OF n(2) owns_read [OF own]] .
    obtain m2 where st: "slice_store (ob_as_mut_slice n) bs m1 = Some (snd (slice_write fresh bs), m2)"
      "gains m m2 n (fst (slice_write fresh bs))"
      using gains_store [OF n(2)] by blast
    have le: "snd (slice_write fresh bs) = length bs \<or> snd (slice_write fresh bs) = length fresh"
      by (auto simp: slice_write_def Let_def min_def)
    have sz: "nb_size (ob_inner b) = length bs" "nb_size (ob_inner n) = length fresh"
      using own n(2) by (simp_all add: owns_def gains_def)
    have rel: "ob_release n" "ob_release b" "ob_base n \<noteq> ob_base b" "buf_heap m2 (ob_base b) = Some bs"
      using own st(2) by (auto simp: owns_def gains_def)
    define b' where "b' = b\<lparr>ob_inner := ob_inner n\<rparr>"
    define m3 where "m3 = m2\<lparr>buf_heap := (buf_heap m2)(ob_base b := None)\<rparr>"
    have "ob_realloc_or_copy N P b sz m = Some (Inr (), b', m3)"
      using re n(1) read st(1) le sz rel
      by (simp add: ob_realloc_or_copy_def ob_drop_def enif_release_binary_def b'_def m3_def)
    moreover have "becomes m b m3 b' (fst (slice_write fresh bs))"
      using st(2) rel by (simp add: becomes_def gains_def b'_def m3_def fun_upd_twist)
    moreover have "realloc_or_copy N bs sz = Inr (fst (slice_write fresh bs))"
      using None new le by (cases "slice_write fresh bs") (simp add: realloc_or_copy_def)
    ultimately show ?thesis by auto
  qed
qed

lemma ob_from_unowned_cases:
  assumes laws: "placement_laws P" "allocator_laws N" and fin: "finite (dom (buf_heap m))"
    and read: "slice_read (vw_inner v) m = Some data"
  shows "case owned_new N (length data) of
      None \<Rightarrow> view_to_owned N P v m = Some (Inr None, m)
    | Some fresh \<Rightarrow> \<exists>b m'. view_to_owned N P v m = Some (Inr (Some b), m') \<and> gains m m' b data"
proof -
  have len: "nb_size (vw_inner v) = length data"
    using read by (auto simp: slice_read_def split: option.splits if_splits)
  show ?thesis
  proof (cases "owned_new N (length data)")
    case None
    then show ?thesis
      using ob_new_cases [OF laws fin, of "length data"]
      by (simp add: view_to_owned_def ob_from_unowned_def len)
  next
    case (Some fresh)
    then obtain n m1 where n: "ob_new N P (length data) m = (Some n, m1)" "gains m m1 n fresh"
        "length fresh = length data"
      using ob_new_cases [OF laws fin, of "length data"] by auto
    obtain m2 where st: "slice_store (ob_as_mut_slice n) data m1 = Some (length data, m2)"
      "gains m m2 n data"
      using gains_store [OF n(2), of data] n(3) by (auto simp: slice_write_def)
    show ?thesis
      using Some n(1) gains_read [OF n(2) read] st
      by (simp add: view_to_owned_def ob_from_unowned_def len view_as_slice_def)
  qed
qed

section \<open>The invariant\<close>

text \<open>What the rest of the world sees of the change of one handle: nothing.\<close>

lemma gains_frame:
  assumes "gains m m' b bs" and "buf_vm m \<subseteq> dom (buf_heap m)"
  shows "owns m' b bs" and "owns m c cs \<Longrightarrow> owns m' c cs" and "sees m v data \<Longrightarrow> sees m' v data"
    and "dom (buf_heap m') = insert (ob_base b) (dom (buf_heap m))" and "buf_vm m' = buf_vm m"
    and "ob_base b \<notin> dom (buf_heap m)"
proof -
  show "owns m' b bs" using assms by (auto simp: gains_def owns_def)
  show "owns m c cs \<Longrightarrow> owns m' c cs" using assms by (auto simp: gains_def owns_def)
  show "sees m v data \<Longrightarrow> sees m' v data"
    using gains_read [OF assms(1)] assms by (auto simp: gains_def sees_def)
qed (use assms in \<open>auto simp: gains_def\<close>)

lemma becomes_frame:
  assumes "becomes m b m' b' bs" and "owns m b old" and "buf_vm m \<subseteq> dom (buf_heap m)"
  shows "owns m' b' bs" and "owns m c cs \<Longrightarrow> ob_base c \<noteq> ob_base b \<Longrightarrow> owns m' c cs \<and> ob_base c \<noteq> ob_base b'"
    and "sees m v data \<Longrightarrow> sees m' v data"
    and "dom (buf_heap m') = insert (ob_base b') (dom (buf_heap m) - {ob_base b})"
    and "buf_vm m' = buf_vm m"
proof -
  show "owns m' b' bs" using assms by (auto simp: becomes_def owns_def)
  show "owns m c cs \<Longrightarrow> ob_base c \<noteq> ob_base b \<Longrightarrow> owns m' c cs \<and> ob_base c \<noteq> ob_base b'"
  proof -
    assume c: "owns m c cs" "ob_base c \<noteq> ob_base b"
    then have "ob_base c \<noteq> ob_base b'" using assms(1) unfolding becomes_def owns_def by (metis option.distinct(1))
    with c assms(1) show ?thesis by (simp add: becomes_def owns_def)
  qed
  show "sees m v data \<Longrightarrow> sees m' v data"
  proof -
    assume "sees m v data"
    then have v: "vw_term v = vw_inner v" "nb_base (vw_inner v) \<in> buf_vm m"
      "slice_read (vw_inner v) m = Some data" by (simp_all add: sees_def)
    have old: "nb_base (vw_inner v) \<noteq> ob_base b" using v(2) assms(2) unfolding owns_def by metis
    have "ob_base b' = ob_base b \<or> ob_base b' \<notin> dom (buf_heap m)"
      using assms(1) by (simp add: becomes_def domIff)
    then have "nb_base (vw_inner v) \<noteq> ob_base b'" using old v(2) assms(3) by (metis subsetD)
    then have "buf_heap m' (nb_base (vw_inner v)) = buf_heap m (nb_base (vw_inner v))"
      using old assms(1) by (simp add: becomes_def)
    with v assms(1) show "sees m' v data" by (simp add: sees_def slice_read_def becomes_def)
  qed
  show "dom (buf_heap m') = insert (ob_base b') (dom (buf_heap m) - {ob_base b})"
    and "buf_vm m' = buf_vm m"
    using assms(1) by (simp_all add: becomes_def)
qed

lemma bin_invariantD:
  assumes "bin_invariant w"
  shows "finite (dom (buf_heap (bw_mem w)))" "buf_vm (bw_mem w) \<subseteq> dom (buf_heap (bw_mem w))"
    "b \<in> set (bw_owned w) \<Longrightarrow> \<exists>bs. owns (bw_mem w) b bs"
    "v \<in> set (bw_views w) \<Longrightarrow> \<exists>bs. sees (bw_mem w) v bs"
  using assms by (auto simp: bin_invariant_def)

lemma bin_invariantI:
  assumes "\<And>b. b \<in> set (bw_owned w) \<Longrightarrow> \<exists>bs. owns (bw_mem w) b bs"
    and "\<And>v. v \<in> set (bw_views w) \<Longrightarrow> \<exists>bs. sees (bw_mem w) v bs"
    and "distinct (map ob_base (bw_owned w))" and "finite (dom (buf_heap (bw_mem w)))"
    and "dom (buf_heap (bw_mem w)) = ob_base ` set (bw_owned w) \<union> buf_vm (bw_mem w)"
  shows "bin_invariant w"
  unfolding bin_invariant_def using assms by simp

lemma bin_invariant_gains:
  assumes inv: "bin_invariant w" and g: "gains (bw_mem w) m b bs"
  shows "bin_invariant (w\<lparr>bw_mem := m, bw_owned := b # bw_owned w\<rparr>)"
proof -
  note frame = gains_frame [OF g bin_invariantD(2) [OF inv]]
  have dom: "dom (buf_heap (bw_mem w)) = ob_base ` set (bw_owned w) \<union> buf_vm (bw_mem w)"
    and dist: "distinct (map ob_base (bw_owned w))"
    using inv by (simp_all add: bin_invariant_def)
  show ?thesis
  proof (rule bin_invariantI)
    show "distinct (map ob_base (bw_owned (w\<lparr>bw_mem := m, bw_owned := b # bw_owned w\<rparr>)))"
      using frame(6) dist unfolding dom by simp
    show "\<exists>bs. owns (bw_mem (w\<lparr>bw_mem := m, bw_owned := b # bw_owned w\<rparr>)) c bs"
      if "c \<in> set (bw_owned (w\<lparr>bw_mem := m, bw_owned := b # bw_owned w\<rparr>))" for c
      using that frame(1,2) bin_invariantD(3) [OF inv] by simp blast
    show "\<exists>bs. sees (bw_mem (w\<lparr>bw_mem := m, bw_owned := b # bw_owned w\<rparr>)) v bs"
      if "v \<in> set (bw_views (w\<lparr>bw_mem := m, bw_owned := b # bw_owned w\<rparr>))" for v
      using that frame(3) bin_invariantD(4) [OF inv] by simp blast
  qed (use bin_invariantD(1) [OF inv] dom in \<open>simp_all add: frame(4,5)\<close>)
qed

lemma bin_invariant_becomes:
  assumes inv: "bin_invariant w" and own: "bw_owned w = as @ b # cs"
    and g: "becomes (bw_mem w) b m b' bs"
  shows "bin_invariant (w\<lparr>bw_mem := m, bw_owned := as @ b' # cs\<rparr>)"
proof -
  obtain old where old: "owns (bw_mem w) b old"
    using bin_invariantD(3) [OF inv, of b] by (auto simp: own)
  note frame = becomes_frame [OF g old bin_invariantD(2) [OF inv]]
  have dom: "dom (buf_heap (bw_mem w)) = ob_base ` set (bw_owned w) \<union> buf_vm (bw_mem w)"
    and dist: "distinct (map ob_base (bw_owned w))"
    using inv by (simp_all add: bin_invariant_def)
  have notb: "ob_base c \<noteq> ob_base b" if "c \<in> set (as @ cs)" for c
    using dist that by (simp add: own) (metis imageI)
  have other: "(\<exists>x. owns m c x) \<and> ob_base c \<noteq> ob_base b'" if "c \<in> set (as @ cs)" for c
    using bin_invariantD(3) [OF inv, of c] frame(2) [of c] notb [OF that] that by (auto simp: own)
  then have new: "ob_base b' \<notin> ob_base ` set (as @ cs)" by (metis imageE)
  have vm: "ob_base b \<notin> buf_vm (bw_mem w)" using old by (simp add: owns_def)
  have rest: "ob_base ` set (as @ b # cs) - {ob_base b} = ob_base ` set (as @ cs)"
    using notb by auto
  show ?thesis
  proof (rule bin_invariantI)
    show "distinct (map ob_base (bw_owned (w\<lparr>bw_mem := m, bw_owned := as @ b' # cs\<rparr>)))"
      using dist new by (auto simp: own)
    show "dom (buf_heap (bw_mem (w\<lparr>bw_mem := m, bw_owned := as @ b' # cs\<rparr>))) =
        ob_base ` set (bw_owned (w\<lparr>bw_mem := m, bw_owned := as @ b' # cs\<rparr>)) \<union>
        buf_vm (bw_mem (w\<lparr>bw_mem := m, bw_owned := as @ b' # cs\<rparr>))"
      using rest vm by (simp add: frame(4,5) dom own Un_Diff)
      show "\<exists>bs. sees (bw_mem (w\<lparr>bw_mem := m, bw_owned := as @ b' # cs\<rparr>)) v bs"
      if "v \<in> set (bw_views (w\<lparr>bw_mem := m, bw_owned := as @ b' # cs\<rparr>))" for v
      using that frame(3) bin_invariantD(4) [OF inv] by simp blast
  qed (use frame(1) other bin_invariantD(1) [OF inv] in \<open>auto simp: frame(4)\<close>)
qed

lemma owns_drop:
  "owns m b bs \<Longrightarrow> ob_drop b m = Some (m\<lparr>buf_heap := (buf_heap m)(ob_base b := None)\<rparr>)"
  by (simp add: owns_def ob_drop_def enif_release_binary_def)

lemma owns_release:
  "owns m b bs \<Longrightarrow> ob_release_to b m =
     Some (\<lparr>vw_inner = ob_inner b, vw_term = ob_inner b\<rparr>, m\<lparr>buf_vm := insert (ob_base b) (buf_vm m)\<rparr>)"
  by (simp add: owns_def ob_release_to_def view_from_owned_def ob_drop_def Let_def)

text \<open>The buffers of the other handles and of the views are untouched by either.\<close>

lemma bin_invariant_split:
  assumes "bin_invariant w" and "bw_owned w = as @ b # cs"
  obtains bs where "owns (bw_mem w) b bs"
    and "\<And>c. c \<in> set (as @ cs) \<Longrightarrow> (\<exists>x. owns (bw_mem w) c x) \<and> ob_base c \<noteq> ob_base b"
    and "distinct (map ob_base (as @ cs))"
    and "dom (buf_heap (bw_mem w)) = insert (ob_base b) (ob_base ` set (as @ cs) \<union> buf_vm (bw_mem w))"
proof -
  from assms have dist: "distinct (map ob_base (as @ b # cs))" by (simp add: bin_invariant_def)
  obtain bs where "owns (bw_mem w) b bs" using bin_invariantD(3) [OF assms(1), of b] assms(2) by auto
  moreover have "(\<exists>x. owns (bw_mem w) c x) \<and> ob_base c \<noteq> ob_base b" if "c \<in> set (as @ cs)" for c
    using bin_invariantD(3) [OF assms(1), of c] that dist assms(2) by (simp, metis imageI)
  moreover have "distinct (map ob_base (as @ cs))" using dist by simp
  moreover have "dom (buf_heap (bw_mem w)) = insert (ob_base b) (ob_base ` set (as @ cs) \<union> buf_vm (bw_mem w))"
    using assms by (simp add: bin_invariant_def insert_commute)
  ultimately show ?thesis by (rule that)
qed

lemma slice_read_other:
  "nb_base s \<noteq> p \<Longrightarrow> slice_read s (m\<lparr>buf_heap := (buf_heap m)(p := x)\<rparr>) = slice_read s m"
  by (simp add: slice_read_def)

lemma bin_invariant_drop:
  assumes inv: "bin_invariant w" and own: "bw_owned w = as @ b # cs"
    and drop: "ob_drop b (bw_mem w) = Some m"
  shows "bin_invariant (w\<lparr>bw_mem := m, bw_owned := as @ cs\<rparr>)"
proof -
  obtain bs where b: "owns (bw_mem w) b bs"
    and other: "\<And>c. c \<in> set (as @ cs) \<Longrightarrow> (\<exists>x. owns (bw_mem w) c x) \<and> ob_base c \<noteq> ob_base b"
    and dist: "distinct (map ob_base (as @ cs))"
    and dom: "dom (buf_heap (bw_mem w)) = insert (ob_base b) (ob_base ` set (as @ cs) \<union> buf_vm (bw_mem w))"
    using bin_invariant_split [OF inv own] by metis
  have m: "m = (bw_mem w)\<lparr>buf_heap := (buf_heap (bw_mem w))(ob_base b := None)\<rparr>"
    using drop owns_drop [OF b] by simp
  have new: "ob_base b \<notin> ob_base ` set (as @ cs)" using other by (metis imageE)
  have vm: "ob_base b \<notin> buf_vm (bw_mem w)" using b by (simp add: owns_def)
  show ?thesis
  proof (rule bin_invariantI)
    show "\<exists>x. owns (bw_mem (w\<lparr>bw_mem := m, bw_owned := as @ cs\<rparr>)) c x"
      if "c \<in> set (bw_owned (w\<lparr>bw_mem := m, bw_owned := as @ cs\<rparr>))" for c
      using other [of c] that by (auto simp: m owns_def)
    show "\<exists>x. sees (bw_mem (w\<lparr>bw_mem := m, bw_owned := as @ cs\<rparr>)) v x"
      if "v \<in> set (bw_views (w\<lparr>bw_mem := m, bw_owned := as @ cs\<rparr>))" for v
    proof -
      from that obtain x where v: "sees (bw_mem w) v x" using bin_invariantD(4) [OF inv, of v] by auto
      then have "nb_base (vw_inner v) \<noteq> ob_base b" using vm unfolding sees_def by metis
      with v show ?thesis by (auto simp: sees_def m slice_read_other)
    qed
    show "finite (dom (buf_heap (bw_mem (w\<lparr>bw_mem := m, bw_owned := as @ cs\<rparr>))))"
      using bin_invariantD(1) [OF inv] by (simp add: m)
    show "dom (buf_heap (bw_mem (w\<lparr>bw_mem := m, bw_owned := as @ cs\<rparr>))) =
        ob_base ` set (bw_owned (w\<lparr>bw_mem := m, bw_owned := as @ cs\<rparr>)) \<union>
        buf_vm (bw_mem (w\<lparr>bw_mem := m, bw_owned := as @ cs\<rparr>))"
      using new vm dom by (simp add: m)
  qed (use dist in simp)
qed

lemma bin_invariant_release:
  assumes inv: "bin_invariant w" and own: "bw_owned w = as @ b # cs"
    and rel: "ob_release_to b (bw_mem w) = Some (v, m)"
  shows "bin_invariant (w\<lparr>bw_mem := m, bw_owned := as @ cs, bw_views := v # bw_views w\<rparr>)"
proof -
  obtain bs where b: "owns (bw_mem w) b bs"
    and other: "\<And>c. c \<in> set (as @ cs) \<Longrightarrow> (\<exists>x. owns (bw_mem w) c x) \<and> ob_base c \<noteq> ob_base b"
    and dist: "distinct (map ob_base (as @ cs))"
    and dom: "dom (buf_heap (bw_mem w)) = insert (ob_base b) (ob_base ` set (as @ cs) \<union> buf_vm (bw_mem w))"
    using bin_invariant_split [OF inv own] by metis
  have m: "m = (bw_mem w)\<lparr>buf_vm := insert (ob_base b) (buf_vm (bw_mem w))\<rparr>"
    and v: "v = \<lparr>vw_inner = ob_inner b, vw_term = ob_inner b\<rparr>"
    using rel owns_release [OF b] by simp_all
  have reads: "slice_read s m = slice_read s (bw_mem w)" for s by (simp add: m slice_read_def)
  let ?w = "w\<lparr>bw_mem := m, bw_owned := as @ cs, bw_views := v # bw_views w\<rparr>"
  show ?thesis
  proof (rule bin_invariantI)
    show "\<exists>x. owns (bw_mem ?w) c x" if "c \<in> set (bw_owned ?w)" for c
      using other [of c] that by (auto simp: m owns_def)
    show "\<exists>x. sees (bw_mem ?w) u x" if "u \<in> set (bw_views ?w)" for u
    proof (cases "u = v")
      case True
      then show ?thesis using owns_read [OF b] by (simp add: sees_def reads v ob_as_slice_def) (simp add: m)
    next
      case False
      then have "u \<in> set (bw_views w)" using that by simp
      from bin_invariantD(4) [OF inv this] obtain x where "sees (bw_mem w) u x" by blast
      then have "sees m u x" by (simp add: sees_def reads) (simp add: m)
      then show ?thesis by auto
    qed
    show "finite (dom (buf_heap (bw_mem ?w)))" using bin_invariantD(1) [OF inv] by (simp add: m)
    show "dom (buf_heap (bw_mem ?w)) = ob_base ` set (bw_owned ?w) \<union> buf_vm (bw_mem ?w)"
      using dom by (simp add: m)
  qed (use dist in simp)
qed

lemma view_sub_sees:
  assumes "sees m v bs" and "(view_sub v offset len :: ('t, binary_view) nif_result) = Ok v'"
  shows "sees m v' (take len (drop offset bs))"
proof -
  obtain xs where xs: "buf_heap m (nb_base (vw_inner v)) = Some xs"
      "nb_off (vw_inner v) + nb_size (vw_inner v) \<le> length xs"
      "bs = take (nb_size (vw_inner v)) (drop (nb_off (vw_inner v)) xs)"
    and v: "vw_term v = vw_inner v" "nb_base (vw_inner v) \<in> buf_vm m"
    using assms(1) by (auto simp: sees_def slice_read_def split: option.splits if_splits)
  have len: "len + offset \<le> nb_size (vw_inner v)" and v': "vw_inner v' = vw_term v'"
    "vw_term v' = \<lparr>nb_size = len, nb_base = nb_base (vw_inner v), nb_off = nb_off (vw_inner v) + offset\<rparr>"
    using assms(2) v(1) by (auto simp: view_sub_def checked_add_def Let_def split: if_splits)
  have "take len (drop (nb_off (vw_inner v) + offset) xs) = take len (drop offset bs)"
    using len by (simp add: xs(3) drop_take take_take min_def add.commute)
  then show ?thesis using v' v(2) xs(1,2) len by (simp add: sees_def slice_read_def)
qed

lemma bin_invariant_views:
  assumes "bin_invariant w" and "\<And>v. v \<in> set vs \<Longrightarrow> \<exists>bs. sees (bw_mem w) v bs"
  shows "bin_invariant (w\<lparr>bw_views := vs\<rparr>)"
  using assms by (auto simp: bin_invariant_def)

lemma bin_invariant_collect:
  assumes inv: "bin_invariant w" and p: "p \<in> buf_vm (bw_mem w)"
    "p \<notin> (\<lambda>v. nb_base (vw_inner v)) ` set (bw_views w)"
  shows "bin_invariant (w\<lparr>bw_mem := \<lparr>buf_heap = (buf_heap (bw_mem w))(p := None),
    buf_vm = buf_vm (bw_mem w) - {p}\<rparr>\<rparr>)" (is "bin_invariant ?w")
proof (rule bin_invariantI)
  have not: "ob_base c \<noteq> p" if "c \<in> set (bw_owned w)" for c
    using bin_invariantD(3) [OF inv that] p(1) unfolding owns_def by metis
  show "\<exists>x. owns (bw_mem ?w) c x" if "c \<in> set (bw_owned ?w)" for c
    using bin_invariantD(3) [OF inv, of c] not [of c] that by (auto simp: owns_def)
  show "\<exists>x. sees (bw_mem ?w) v x" if "v \<in> set (bw_views ?w)" for v
  proof -
    from that obtain x where v: "sees (bw_mem w) v x" using bin_invariantD(4) [OF inv, of v] by auto
    moreover have "nb_base (vw_inner v) \<noteq> p" using that p(2) by auto
    ultimately show ?thesis by (auto simp: sees_def slice_read_def)
  qed
  show "distinct (map ob_base (bw_owned ?w))" using inv by (simp add: bin_invariant_def)
  show "finite (dom (buf_heap (bw_mem ?w)))" using bin_invariantD(1) [OF inv] by simp
  have "p \<notin> ob_base ` set (bw_owned w)" using not by (metis imageE)
  then show "dom (buf_heap (bw_mem ?w)) = ob_base ` set (bw_owned ?w) \<union> buf_vm (bw_mem ?w)"
    using inv by (auto simp: bin_invariant_def)
qed

text \<open>
  What a step can do to a world in which the invariant holds. The operations with several outcomes
  all come down to these changes.
\<close>

inductive bin_change :: "bin_world \<Rightarrow> bin_world \<Rightarrow> bool" where
  change_none: "bin_change w w"
| change_gains: "gains (bw_mem w) m b bs \<Longrightarrow>
     bin_change w (w\<lparr>bw_mem := m, bw_owned := b # bw_owned w\<rparr>)"
| change_becomes: "bw_owned w = as @ b # cs \<Longrightarrow> becomes (bw_mem w) b m b' bs \<Longrightarrow>
     bin_change w (w\<lparr>bw_mem := m, bw_owned := as @ b' # cs\<rparr>)"
| change_release: "bw_owned w = as @ b # cs \<Longrightarrow> ob_release_to b (bw_mem w) = Some (v, m) \<Longrightarrow>
     bin_change w (w\<lparr>bw_mem := m, bw_owned := as @ cs, bw_views := v # bw_views w\<rparr>)"
| change_drop: "bw_owned w = as @ b # cs \<Longrightarrow> ob_drop b (bw_mem w) = Some m \<Longrightarrow>
     bin_change w (w\<lparr>bw_mem := m, bw_owned := as @ cs\<rparr>)"
| change_views: "(\<And>v. v \<in> set vs \<Longrightarrow> \<exists>bs. sees (bw_mem w) v bs) \<Longrightarrow>
     bin_change w (w\<lparr>bw_views := vs\<rparr>)"
| change_collect: "p \<in> buf_vm (bw_mem w) \<Longrightarrow> p \<notin> (\<lambda>v. nb_base (vw_inner v)) ` set (bw_views w) \<Longrightarrow>
     bin_change w (w\<lparr>bw_mem := \<lparr>buf_heap = (buf_heap (bw_mem w))(p := None),
                                buf_vm = buf_vm (bw_mem w) - {p}\<rparr>\<rparr>)"

lemma change_same:
  assumes "bw_owned w = as @ b # cs"
  shows "bin_change w (w\<lparr>bw_mem := bw_mem w, bw_owned := as @ b # cs\<rparr>)"
proof -
  have "w\<lparr>bw_mem := bw_mem w, bw_owned := as @ b # cs\<rparr> = w" by (simp flip: assms)
  then show ?thesis by (simp only: change_none)
qed

lemma change_realloc:
  assumes laws: "placement_laws P" "allocator_laws N" and inv: "bin_invariant w"
    and owned: "bw_owned w = as @ b # cs"
    and run: "ob_realloc N P b sz (bw_mem w) = Some (ok, b', m)"
  shows "bin_change w (w\<lparr>bw_mem := m, bw_owned := as @ b' # cs\<rparr>)"
proof -
  obtain bs where own: "owns (bw_mem w) b bs" using bin_invariantD(3) [OF inv, of b] owned by auto
  note cases = ob_realloc_cases [OF laws bin_invariantD(1) [OF inv] own, of sz]
  show ?thesis
  proof (cases "enif_realloc_binary N bs sz")
    case None
    then show ?thesis using cases run change_same [OF owned] by auto
  next
    case (Some bs')
    then have "becomes (bw_mem w) b m b' bs'" using cases run by auto
    then show ?thesis by (rule change_becomes [OF owned])
  qed
qed

lemma change_realloc_or_copy:
  assumes laws: "placement_laws P" "allocator_laws N" and inv: "bin_invariant w"
    and owned: "bw_owned w = as @ b # cs"
    and run: "ob_realloc_or_copy N P b sz (bw_mem w) = Some (r, b', m)"
  shows "bin_change w (w\<lparr>bw_mem := m, bw_owned := as @ b' # cs\<rparr>)"
proof -
  obtain bs where own: "owns (bw_mem w) b bs" using bin_invariantD(3) [OF inv, of b] owned by auto
  note cases = ob_realloc_or_copy_cases [OF laws bin_invariantD(1) [OF inv] own, of sz]
  show ?thesis
  proof (cases "realloc_or_copy N bs sz")
    case (Inl e)
    then show ?thesis using cases run change_same [OF owned] by auto
  next
    case (Inr bs')
    then have "becomes (bw_mem w) b m b' bs'" using cases run by auto
    then show ?thesis by (rule change_becomes [OF owned])
  qed
qed

lemma bin_step_change:
  assumes laws: "placement_laws P" "allocator_laws N"
  shows "bin_step N P w w' \<Longrightarrow> bin_invariant w \<Longrightarrow> bin_change w w'"
proof (induction rule: bin_step.induct)
  case (bin_step_new sz w b m)
  then obtain bs where "gains (bw_mem w) m b bs"
    using ob_new_cases [OF laws bin_invariantD(1), of w sz] by (auto split: option.splits)
  then show ?case by (rule change_gains)
next
  case (bin_step_to_binary encoded w b m)
  obtain bs where "gains (bw_mem w) m b bs"
    by (rule ob_term_to_binary_gains [OF laws(1) bin_invariantD(1) [OF bin_step_to_binary(2)]
      bin_step_to_binary(1)])
  then show ?case by (rule change_gains)
next
  case (bin_step_to_owned v w b m)
  then obtain data where "slice_read (vw_inner v) (bw_mem w) = Some data"
    using bin_invariantD(4) [of w v] by (auto simp: sees_def)
  with bin_step_to_owned have "gains (bw_mem w) m b data"
    using ob_from_unowned_cases [OF laws bin_invariantD(1), of w v data] by (auto split: option.splits)
  then show ?case by (rule change_gains)
next
  case (bin_step_realloc w as b cs sz ok b' m)
  then show ?case by (intro change_realloc [OF laws])
next
  case (bin_step_realloc_or_copy w as b cs sz r b' m)
  then show ?case by (intro change_realloc_or_copy [OF laws])
next
  case (bin_step_write w as b cs data n m)
  then obtain bs where own: "owns (bw_mem w) b bs" using bin_invariantD(3) [of w b] by auto
  have "becomes (bw_mem w) b m b (fst (slice_write bs data))"
    using owns_write [OF own, of data] bin_step_write(2) by auto
  from change_becomes [OF bin_step_write(1) this] show ?case by (simp flip: bin_step_write(1))
next
  case (bin_step_sub v w offset len v')
  show ?case
  proof (rule change_views)
    fix u assume "u \<in> set (v' # bw_views w)"
    then show "\<exists>bs. sees (bw_mem w) u bs"
      using bin_invariantD(4) [OF bin_step_sub(3), of u] bin_invariantD(4) [OF bin_step_sub(3,1)]
        view_sub_sees [OF _ bin_step_sub(2)] by auto
  qed
next
  case (bin_step_forget w as v cs)
  show ?case
    by (rule change_views) (use bin_invariantD(4) [OF bin_step_forget(2)] bin_step_forget(1) in auto)
qed (auto intro: bin_change.intros)

lemma bin_change_invariant: "bin_change w w' \<Longrightarrow> bin_invariant w \<Longrightarrow> bin_invariant w'"
  by (induction rule: bin_change.induct)
    (assumption | rule bin_invariant_gains bin_invariant_becomes bin_invariant_release
      bin_invariant_drop bin_invariant_views bin_invariant_collect)+

lemma bin_reachable_invariant:
  assumes "placement_laws P" and "allocator_laws N"
  shows "bin_reachable N P w \<Longrightarrow> bin_invariant w"
proof (induction rule: bin_reachable.induct)
  case bin_reach_init
  show ?case by (simp add: bin_invariant_def)
next
  case (bin_reach_step w w')
  then show ?case by (blast intro: bin_change_invariant bin_step_change [OF assms])
qed

text \<open>A view sees the same bytes as long as it is there.\<close>

lemma bin_change_sees:
  assumes "bin_change w w'" and inv: "bin_invariant w"
    and v: "v \<in> set (bw_views w)" "v \<in> set (bw_views w')" and sees: "sees (bw_mem w) v bs"
  shows "sees (bw_mem w') v bs"
  using assms(1)
proof cases
  case (change_gains m b bs)
  then show ?thesis using gains_frame(3) [OF _ bin_invariantD(2) [OF inv] sees] by simp
next
  case (change_becomes as b cs m b' bs)
  then obtain old where "owns (bw_mem w) b old" using bin_invariantD(3) [OF inv, of b] by auto
  then show ?thesis
    using becomes_frame(3) [OF change_becomes(3) _ bin_invariantD(2) [OF inv] sees] change_becomes(1) by simp
next
  case (change_release as b cs u m)
  then obtain old where "owns (bw_mem w) b old" using bin_invariantD(3) [OF inv, of b] by auto
  from owns_release [OF this] change_release sees show ?thesis
    by (auto simp: sees_def slice_read_def)
next
  case (change_drop as b cs m)
  then obtain old where own: "owns (bw_mem w) b old" using bin_invariantD(3) [OF inv, of b] by auto
  then have "nb_base (vw_inner v) \<noteq> ob_base b" using sees unfolding owns_def sees_def by metis
  then show ?thesis
    using owns_drop [OF own] change_drop sees by (auto simp: sees_def slice_read_other)
next
  case (change_collect p)
  then have "nb_base (vw_inner v) \<noteq> p" using v(1) by blast
  then show ?thesis using change_collect sees by (auto simp: sees_def slice_read_def)
qed (use sees in simp_all)

end
