(* ===== verification/Rustler_Properties.thy ===== *)
theory Rustler_Properties
  imports Rustler_Codegen Rustler_Call Rustler_Resource Rustler_Terms Rustler_Binary
begin

text \<open>
  The properties of the Rustler bindings: round trips of the transcoders and of the code that the
  derive macros generate, the values they confuse, the bounds of binaries and resources, the
  validity of saved terms, and the guard around every NIF.
\<close>

section \<open>Transcoders\<close>

text \<open>
  C33: composed transcoders bring back what they encoded. For \<open>Result<Vec<String>, Option<u64>>\<close>, a
  list of fewer than \<open>2 ^ 32\<close> well-formed strings that the allocator has room for, and any optional
  code, are decoded from their own encoding, with enough fuel for the list.
\<close>

theorem result_round_trip:
  assumes "nif_laws N" and "length xs < 2 ^ 32"
    and "\<forall>s \<in> set xs. utf8_valid (as_bytes s) \<and> owned_new N (length s) \<noteq> None"
  shows "(\<exists>t. encode_result N (encode_vec N (encode_str N)) (encode_option N (encode_u64 N))
        (Inr xs) = Inr t \<and>
      settles (\<lambda>fuel. decode_result N (decode_vec N (\<lambda>_. decode_str N) fuel)
          (decode_option N (decode_u64 N)) t) (Inr xs)) \<and>
    (\<exists>t. encode_result N (encode_vec N (encode_str N)) (encode_option N (encode_u64 N))
        (Inl code) = Inr t \<and>
      settles (\<lambda>fuel. decode_result N (decode_vec N (\<lambda>_. decode_str N) fuel)
          (decode_option N (decode_u64 N)) t) (Inl code))"
  by (intro conjI transcoder.round_trip [OF strings_or_code.result_transcoder assms(1)])
    (use assms(2,3) in \<open>auto split: option.split\<close>)

theorem result_round_trip_witness:
  "(\<exists>t. encode_result demo_nif (encode_vec demo_nif (encode_str demo_nif)) (encode_option demo_nif (encode_u64 demo_nif))
        (Inr [''ab'', '''']) = Inr t \<and>
      settles (\<lambda>fuel. decode_result demo_nif (decode_vec demo_nif (\<lambda>_. decode_str demo_nif) fuel)
          (decode_option demo_nif (decode_u64 demo_nif)) t) (Inr [''ab'', ''''])) \<and>
    (\<exists>t. encode_result demo_nif (encode_vec demo_nif (encode_str demo_nif)) (encode_option demo_nif (encode_u64 demo_nif))
        (Inl (Some 7)) = Inr t \<and>
      settles (\<lambda>fuel. decode_result demo_nif (decode_vec demo_nif (\<lambda>_. decode_str demo_nif) fuel)
          (decode_option demo_nif (decode_u64 demo_nif)) t) (Inl (Some 7)))"
proof (rule result_round_trip [OF demo_nif_laws])
  show "\<forall>s \<in> set [''ab'', '''']. utf8_valid (as_bytes s) \<and> owned_new demo_nif (length s) \<noteq> None"
    by (simp add: as_bytes_def owned_new_def)
qed simp

text \<open>
  \<open>bool\<close> takes every term. Each term decodes to a boolean, nil and false to false and all others
  to true, so no error is ever reported; an \<open>Option<bool>\<close> never decodes to \<open>None\<close> (its encoding comes
  back as \<open>Some(false)\<close>), and an untagged enum with a leading \<open>bool\<close> variant never yields another
  variant.
\<close>

lemma bool_takes_every_term:
  "decode_bool N t = Ok (t \<noteq> atom_named N ''nil'' \<and> t \<noteq> atom_named N ''false'') \<and>
   (\<exists>b. decode_option N (decode_bool N) t = Ok (Some b)) \<and>
   decode_option N (decode_bool N) (atom_named N ''nil'') = Ok (Some False) \<and>
   (\<forall>ident enc fs fuel. \<exists>b. untagged_enum_decoder
      (\<lparr>field_ident = ident, field_enc = enc, field_dec = (\<lambda>_. decode_bool N)\<rparr> # fs) 0 fuel t =
      Ok (0, b))"
  by (auto simp: decode_bool_def decode_option_def is_truthy_def)

text \<open>
  The narrow integers are cut, not checked. What \<open>decode\<close> yields for \<open>u8\<close> and \<open>u16\<close> is the number
  modulo the width, for every number that fits 32 bits, without an error; it is the number itself
  exactly if that fits the narrow type.
\<close>

lemma narrow_decode_truncates:
  assumes "enif_get_uint N t = Some n"
  shows "\<exists>v w. decode_u8 N t = Ok v \<and> decode_u16 N t = Ok w \<and>
    unat v = unat n mod 256 \<and> unat w = unat n mod 65536 \<and>
    (unat v = unat n \<longleftrightarrow> unat n < 256) \<and> (unat w = unat n \<longleftrightarrow> unat n < 65536)"
proof -
  have eqs: "unat (ucast n :: u8) = unat n mod 256" "unat (ucast n :: u16) = unat n mod 65536"
    by (simp_all add: unsigned_ucast_eq take_bit_eq_mod)
  have fits: "m mod d = m \<longleftrightarrow> m < d" if "0 < d" for m d :: nat
    using that by (metis mod_less mod_less_divisor)
  have "decode_u8 N t = Ok (ucast n)" "decode_u16 N t = Ok (ucast n)"
    using assms by (simp_all add: number_defs)
  then show ?thesis using eqs fits by auto
qed

lemma narrow_decode_of_300:
  "\<exists>v w. decode_u8 demo_nif (EInt 300) = Ok v \<and> decode_u16 demo_nif (EInt 300) = Ok w \<and>
    unat v = 44 \<and> unat w = 300"
  using narrow_decode_truncates [of demo_nif "EInt 300" 300] by (auto simp: demo_nif_def)

section \<open>Binaries\<close>

text \<open>
  C38: a sub-binary is made exactly if it lies within its binary, for all offsets and lengths of the
  machine, those included whose sum overflows; it then holds the bytes of that range, and the C
  function is never called outside of the range it is specified for.
\<close>

theorem make_subbinary_bounds:
  assumes "nif_laws N" and "enif_inspect_binary N (bin_term bin) = Some (bin_data bin)"
    and "length (bin_data bin) < 2 ^ 64"
  shows "if offset + len \<le> length (bin_data bin)
    then \<exists>b. make_subbinary N bin offset len = Ok b \<and>
      bin_data b = take len (drop offset (bin_data bin)) \<and> length (bin_data b) = len
    else make_subbinary N bin offset len = Err BadArg"
proof (cases "offset + len \<le> length (bin_data bin)")
  case True
  then have "enif_inspect_binary N (enif_make_sub_binary N (bin_term bin) offset len) =
      Some (take len (drop offset (bin_data bin)))"
    using nif_lawsD(2) [OF assms(1)] assms(2) unfolding value_laws_def by blast
  with True assms(3) show ?thesis
    by (simp add: make_subbinary_def checked_add_def binary_from_term_def)
next
  case False
  then show ?thesis by (simp add: make_subbinary_def checked_add_def)
qed

theorem make_subbinary_bounds_witness:
  "(\<exists>b. make_subbinary demo_nif \<lparr>bin_data = [1, 2, 3], bin_term = EBin [1, 2, 3]\<rparr> 1 2 = Ok b \<and>
      bin_data b = [2, 3]) \<and>
   make_subbinary demo_nif \<lparr>bin_data = [1, 2, 3], bin_term = EBin [1, 2, 3]\<rparr> (2 ^ 64 - 1) 2 =
     Err BadArg"
  using make_subbinary_bounds [OF demo_nif_laws, of "\<lparr>bin_data = [1, 2, 3], bin_term = EBin [1, 2, 3]\<rparr>" 1 2]
    make_subbinary_bounds [OF demo_nif_laws, of "\<lparr>bin_data = [1, 2, 3], bin_term = EBin [1, 2, 3]\<rparr>"
      "2 ^ 64 - 1" 2]
  by auto

section \<open>Generated transcoders\<close>






section \<open>Environments\<close>

text \<open>
  C27: no term is used after its environment was cleared. In every state that a history of creating,
  saving, clearing, sending and dropping reaches, a saved term that loads is a term that lives in
  the environment it is loaded into; and as long as that environment has not been cleared, sent or
  dropped, it does load, and loading it into another environment panics.
\<close>

theorem saved_term_safe:
  assumes "env_reachable w" and "s \<in> saved_terms w"
  shows "(case saved_term_load s e (heap_of w) of
      Inl p \<Rightarrow> arc_value (env_generation s) \<noteq> e \<or> (\<forall>env \<in> owned w. env_arc env \<noteq> env_generation s)
    | Inr t \<Rightarrow> raw_term t = saved s \<and> term_env t = e \<and> arc_value (env_generation s) = e \<and>
        (\<exists>env \<in> owned w. env_arc env = env_generation s) \<and>
        (\<exists>ts. env_terms (heap_of w) e = Some ts \<and> saved s \<in> ts))"
proof -
  note inv = env_invariantD [OF env_reachable_invariant [OF assms(1)]]
  show ?thesis
  proof (cases "saved_term_load s e (heap_of w)")
    case (Inl p)
    have "arc_id (env_generation s) \<in> live_arcs (heap_of w)"
      if "env \<in> owned w" "env_arc env = env_generation s" for env
      using envs_okD(1) [OF inv(1) that(1)] that(2) by simp
    with Inl show ?thesis by (auto simp: saved_term_load_def upgrade_def split: if_splits)
  next
    case (Inr t)
    then have load: "arc_id (env_generation s) \<in> live_arcs (heap_of w)"
      "arc_value (env_generation s) = e" "t = \<lparr>raw_term = saved s, term_env = e\<rparr>"
      by (simp_all add: saved_term_load_eq_Inr)
    from inv(4) [OF assms(2) load(1)] load(2,3) Inr show ?thesis by (auto simp: holds_saved_def)
  qed
qed

definition demo_world :: "nat world" where
  "demo_world =
     \<lparr>heap_of = \<lparr>env_terms = [3 \<mapsto> {9}], live_arcs = {0}\<rparr>, owned = {\<lparr>env_arc = \<lparr>arc_id = 0, arc_value = 3\<rparr>\<rparr>},
      saved_terms = {\<lparr>env_generation = \<lparr>arc_id = 0, arc_value = 3\<rparr>, saved = 9\<rparr>}, used_arcs = {0}\<rparr>"

lemma demo_world_reachable: "env_reachable demo_world"
proof -
  define env where "env = \<lparr>env_arc = \<lparr>arc_id = 0, arc_value = 3\<rparr>\<rparr>"
  define w1 :: "nat world" where
    "w1 = \<lparr>heap_of = \<lparr>env_terms = [3 \<mapsto> {}], live_arcs = {0}\<rparr>, owned = {env}, saved_terms = {},
           used_arcs = {0}\<rparr>"
  have "env_step empty_world w1"
    using step_new [of "empty_world :: nat world" 3 0 env "heap_of w1"]
    by (simp add: empty_world_def w1_def owned_env_new_def env_def)
  moreover have "env_step w1 demo_world"
    using step_save [of env w1 "\<lparr>raw_term = 9, term_env = 5\<rparr>" "\<lambda>_ t. t"
        "\<lparr>env_generation = env_arc env, saved = 9\<rparr>" "heap_of demo_world"]
    by (simp add: w1_def demo_world_def owned_env_save_def owned_env_run_def in_env_def add_term_def
        env_def)
  ultimately show ?thesis by (blast intro: reach_init reach_step)
qed

theorem saved_term_safe_witness:
  "\<exists>t. saved_term_load \<lparr>env_generation = \<lparr>arc_id = 0, arc_value = 3\<rparr>, saved = 9\<rparr> 3 (heap_of demo_world) =
    Inr t \<and> raw_term t = (9 :: nat) \<and> term_env t = 3"
  using saved_term_safe [OF demo_world_reachable,
      of "\<lparr>env_generation = \<lparr>arc_id = 0, arc_value = 3\<rparr>, saved = 9\<rparr>" 3]
  by (simp add: demo_world_def split: sum.splits)

text \<open>
  C37: a job on another thread reports to its caller and leaves nothing behind. Whatever the
  closure returns is the message; a panic with a text arrives as an error that the caller decodes
  to this text, and any other panic as the pair of error and nif\_panic. The environments and
  reference counts are then those before the job, whether or not the message was delivered. On a
  thread of the scheduler the job panics before it runs the closure.
\<close>

theorem job_reports_and_cleans_up:
  assumes "nif_laws N" and "env_terms h c_env = None"
    and "a \<notin> live_arcs h" "a' \<notin> live_arcs h" "a \<noteq> a'"
  shows "(case thread_fn c_env of
      Returned t \<Rightarrow> job N UndefinedThread delivered c_env a a' thread_fn h = Inr (t, h)
    | Panicked OtherPayload \<Rightarrow> job N UndefinedThread delivered c_env a a' thread_fn h =
        Inr (make_tuple N [atom_named N ''error'', atom_named N ''nif_panic''], h)
    | Panicked err \<Rightarrow> \<forall>s. (err = StringPayload s \<or> err = StrPayload s) \<and>
          utf8_valid (as_bytes s) \<and> owned_new N (length s) \<noteq> None \<longrightarrow>
        (\<exists>message. job N UndefinedThread delivered c_env a a' thread_fn h = Inr (message, h) \<and>
           decode_result N (decode_u64 N) (decode_str N) message = Ok (Inl s))) \<and>
    (thread \<noteq> UndefinedThread \<longrightarrow>
      (\<exists>p. job N thread delivered c_env a a' thread_fn h = Inl p))"
proof -
  note completes = job_completes [OF assms(2-5), where delivered = delivered]
  have managed: "\<exists>p. job N thread delivered c_env a a' thread_fn h = Inl p"
    if "thread \<noteq> UndefinedThread"
    using that by (simp add: job_def send_and_clear_def split: prod.split)
  have "\<exists>message. job N UndefinedThread delivered c_env a a' thread_fn h = Inr (message, h) \<and>
      decode_result N (decode_u64 N) (decode_str N) message = Ok (Inl s)"
    if "thread_fn c_env = Panicked err" "err = StringPayload s \<or> err = StrPayload s"
      "utf8_valid (as_bytes s)" "owned_new N (length s) \<noteq> None" for s err
    using job_message_panicked [OF assms(1) that(3,4,2)] completes that(1) by metis
  moreover have "job_message N (Panicked OtherPayload) =
      Inr (make_tuple N [atom_named N ''error'', atom_named N ''nif_panic''])"
    by (simp add: job_message_def panic_reason_def nif_panic_atom error_tuple_def encode_pair_def
        encode_term_def rustler_atom_plain)
  moreover have "job_message N (Returned t) = Inr t" for t by (simp add: job_message_def)
  ultimately show ?thesis
    using managed completes by (auto split: job_result.split panic_payload.split)
qed

theorem job_reports_and_cleans_up_witness:
  "\<exists>message. job demo_nif UndefinedThread False 3 0 1 (\<lambda>_. Panicked (StrPayload ''no''))
      \<lparr>env_terms = Map.empty, live_arcs = {}\<rparr> =
      Inr (message, \<lparr>env_terms = Map.empty, live_arcs = {}\<rparr>) \<and>
    decode_result demo_nif (decode_u64 demo_nif) (decode_str demo_nif) message = Ok (Inl ''no'')"
proof -
  have "utf8_valid (as_bytes ''no'')" by (simp add: as_bytes_def)
  then show ?thesis
    using job_reports_and_cleans_up [OF demo_nif_laws, where
        h = "\<lparr>env_terms = Map.empty, live_arcs = {}\<rparr>" and c_env = 3 and a = 0 and a' = 1 and
        thread_fn = "\<lambda>_. Panicked (StrPayload ''no'')" and delivered = False and
        thread = UndefinedThread]
    by (simp add: owned_new_def)
qed

section \<open>Resources\<close>

text \<open>
  C31: a \<open>ResourceArc\<close> is never dangling and never out of bounds. In every reachable state the
  allocation of each arc is alive, its reference count is the number of arcs and terms that refer
  to it, dereferencing the arc reads the one value that was written, and this value lies at an
  aligned address within the allocation (the alignment of a Rust type is positive).
\<close>

theorem resource_arc_valid:
  assumes "res_reachable T w" and "a \<in> set (res_arcs w)" and "0 < type_align T"
  shows "\<exists>r v. res_heap w (arc_raw a) = Some r \<and> res_refs r = references w (arc_raw a) \<and>
    resource_deref a (res_heap w) = Some v \<and> resource_destructor T (arc_raw a) r = Some v \<and>
    arc_inner a mod type_align T = 0 \<and> arc_raw a \<le> arc_inner a \<and>
    arc_inner a + type_size T \<le> arc_raw a + res_size r"
proof -
  obtain r v where r: "res_heap w (arc_raw a) = Some r" "res_refs r = references w (arc_raw a)"
    "res_size r = get_alloc_size_struct (type_size T) (type_align T)"
    "res_content r = [arc_inner a \<mapsto> v]"
    "arc_inner a = align_alloced_mem_for_struct (type_align T) (arc_raw a)"
    using assms(1,2) by (rule reachable_arc)
  define al where "al = type_align T"
  define p where "p = arc_raw a"
  have inner: "arc_inner a = p + (al - p mod al)" using r(5) by (simp add: align_alloced_mem_for_struct_def al_def p_def)
  have lt: "p mod al < al" using assms(3) by (simp add: al_def)
  have "p + (al - p mod al) = (p div al) * al + al"
    using div_mult_mod_eq [of p al] lt by linarith
  then have "arc_inner a mod al = 0" by (simp add: inner)
  moreover have "arc_inner a + type_size T \<le> p + res_size r"
    using lt by (simp add: inner r(3) get_alloc_size_struct_def al_def)
  ultimately show ?thesis
    using r inner by (auto simp: resource_deref_def resource_destructor_def al_def p_def)
qed

definition demo_type :: rust_type where
  "demo_type = \<lparr>type_res = Some 1, type_size = 8, type_align = 4\<rparr>"

lemma demo_arc_reachable:
  "\<exists>w :: nat res_world. res_reachable demo_type w \<and>
    \<lparr>arc_raw = 5, arc_inner = 8\<rparr> \<in> set (res_arcs w)"
proof -
  define w0 :: "nat res_world" where "w0 = \<lparr>res_heap = Map.empty, res_arcs = [], res_terms = []\<rparr>"
  obtain h where new: "resource_new demo_type 5 (77 :: nat) Map.empty =
      Inr (\<lparr>arc_raw = 5, arc_inner = 8\<rparr>, h)"
    by (simp add: resource_new_def get_resource_type_def demo_type_def
        align_alloced_mem_for_struct_def)
  have "res_step demo_type w0 (w0\<lparr>res_heap := h, res_arcs := \<lparr>arc_raw = 5, arc_inner = 8\<rparr> # res_arcs w0\<rparr>)"
    using new by (intro res_step_new) (simp_all add: w0_def)
  moreover have "res_reachable demo_type w0" unfolding w0_def by (rule res_reach_init)
  ultimately have "res_reachable demo_type
      (w0\<lparr>res_heap := h, res_arcs := \<lparr>arc_raw = 5, arc_inner = 8\<rparr> # res_arcs w0\<rparr>)"
    by (rule res_reach_step [rotated])
  then show ?thesis
    by (rule exI [of _ "w0\<lparr>res_heap := h, res_arcs := \<lparr>arc_raw = 5, arc_inner = 8\<rparr> # res_arcs w0\<rparr>",
        OF conjI]) simp
qed

theorem resource_arc_valid_witness:
  "\<exists>(w :: nat res_world) r v. res_heap w 5 = Some r \<and>
    resource_deref \<lparr>arc_raw = 5, arc_inner = 8\<rparr> (res_heap w) = Some v \<and> 8 + 8 \<le> 5 + res_size r"
proof -
  obtain w :: "nat res_world" where "res_reachable demo_type w"
    "\<lparr>arc_raw = 5, arc_inner = 8\<rparr> \<in> set (res_arcs w)"
    using demo_arc_reachable by blast
  from resource_arc_valid [OF this] show ?thesis by (auto simp: demo_type_def)
qed

section \<open>Buffers\<close>

definition demo_placement :: placement where
  "demo_placement =
     \<lparr>alloc_at = (\<lambda>h n. if h 0 = None then 0 else if h 1 = None then 1 else Suc (Max (dom h))),
      realloc_at = (\<lambda>h p n. p)\<rparr>"

lemma demo_placement_laws: "placement_laws demo_placement"
proof -
  have "h (Suc (Max (dom h))) = None" if "finite (dom h)" for h :: "nat \<rightharpoonup> bytes"
  proof (rule ccontr)
    assume "h (Suc (Max (dom h))) \<noteq> None"
    then have "Suc (Max (dom h)) \<le> Max (dom h)" using that by (intro Max_ge) auto
    then show False by simp
  qed
  then show ?thesis by (simp add: placement_laws_def demo_placement_def)
qed

text \<open>One byte was released to the virtual machine, and two are owned.\<close>

definition demo_bin_world :: bin_world where
  "demo_bin_world =
     \<lparr>bw_mem = \<lparr>buf_heap = [0 \<mapsto> [0xFF], 1 \<mapsto> [0xFF, 0xFF]], buf_vm = {0}\<rparr>,
      bw_owned = [\<lparr>ob_inner = \<lparr>nb_size = 2, nb_base = 1, nb_off = 0\<rparr>, ob_release = True\<rparr>],
      bw_views = [\<lparr>vw_inner = \<lparr>nb_size = 1, nb_base = 0, nb_off = 0\<rparr>,
                   vw_term = \<lparr>nb_size = 1, nb_base = 0, nb_off = 0\<rparr>\<rparr>]\<rparr>"

lemma demo_bin_reachable: "bin_reachable demo_nif demo_placement demo_bin_world"
proof -
  let ?b = "\<lparr>ob_inner = \<lparr>nb_size = 1, nb_base = 0, nb_off = 0\<rparr>, ob_release = True\<rparr>"
  let ?v = "\<lparr>vw_inner = \<lparr>nb_size = 1, nb_base = 0, nb_off = 0\<rparr>,
             vw_term = \<lparr>nb_size = 1, nb_base = 0, nb_off = 0\<rparr>\<rparr>"
  let ?w0 = "\<lparr>bw_mem = \<lparr>buf_heap = Map.empty, buf_vm = {}\<rparr>, bw_owned = [], bw_views = []\<rparr>"
  let ?w1 = "\<lparr>bw_mem = \<lparr>buf_heap = [0 \<mapsto> [0xFF]], buf_vm = {}\<rparr>, bw_owned = [?b], bw_views = []\<rparr>"
  let ?w2 = "\<lparr>bw_mem = \<lparr>buf_heap = [0 \<mapsto> [0xFF]], buf_vm = {0}\<rparr>, bw_owned = [], bw_views = [?v]\<rparr>"
  have "bin_step demo_nif demo_placement ?w0 ?w1"
    using bin_step_new [of demo_nif demo_placement 1 ?w0 ?b "\<lparr>buf_heap = [0 \<mapsto> [0xFF]], buf_vm = {}\<rparr>"]
    by (simp add: ob_new_def demo_nif_simps demo_placement_def)
  moreover have "bin_step demo_nif demo_placement ?w1 ?w2"
    using bin_step_release [of ?w1 "[]" ?b "[]" ?v "\<lparr>buf_heap = [0 \<mapsto> [0xFF]], buf_vm = {0}\<rparr>"]
    by (simp add: ob_release_to_def view_from_owned_def ob_drop_def)
  moreover have "bin_step demo_nif demo_placement ?w2 demo_bin_world"
    using bin_step_new [of demo_nif demo_placement 2 ?w2
        "\<lparr>ob_inner = \<lparr>nb_size = 2, nb_base = 1, nb_off = 0\<rparr>, ob_release = True\<rparr>" "bw_mem demo_bin_world"]
    by (simp add: ob_new_def demo_nif_simps demo_placement_def demo_bin_world_def numeral_2_eq_2)
  ultimately show ?thesis by (blast intro: bin_reachable.intros)
qed

text \<open>
  C28: no buffer is freed twice, used after it was freed, or lost. In every state that a history of
  allocating, copying, resizing, writing, releasing and dropping reaches, each allocated buffer
  belongs to exactly one handle or to the virtual machine, and none of the operations that the
  handles and views allow is undefined.
\<close>

theorem owned_binaries_safe:
  assumes "placement_laws P" and "allocator_laws N" and "bin_reachable N P w"
  shows "dom (buf_heap (bw_mem w)) = ob_base ` set (bw_owned w) \<union> buf_vm (bw_mem w) \<and>
    distinct (map ob_base (bw_owned w)) \<and>
    (\<forall>b \<in> set (bw_owned w). ob_base b \<notin> buf_vm (bw_mem w) \<and>
       slice_read (ob_as_slice b) (bw_mem w) \<noteq> None \<and>
       ob_drop b (bw_mem w) \<noteq> None \<and> ob_release_to b (bw_mem w) \<noteq> None \<and>
       (\<forall>data. slice_store (ob_as_mut_slice b) data (bw_mem w) \<noteq> None) \<and>
       (\<forall>sz. ob_realloc N P b sz (bw_mem w) \<noteq> None \<and>
             ob_realloc_or_copy N P b sz (bw_mem w) \<noteq> None)) \<and>
    (\<forall>v \<in> set (bw_views w). slice_read (view_as_slice v) (bw_mem w) \<noteq> None \<and>
       view_to_owned N P v (bw_mem w) \<noteq> None)"
proof -
  note inv = bin_reachable_invariant [OF assms]
  note fin = bin_invariantD(1) [OF inv]
  have "ob_base b \<notin> buf_vm (bw_mem w) \<and> slice_read (ob_as_slice b) (bw_mem w) \<noteq> None \<and>
      ob_drop b (bw_mem w) \<noteq> None \<and> ob_release_to b (bw_mem w) \<noteq> None \<and>
      slice_store (ob_as_mut_slice b) data (bw_mem w) \<noteq> None \<and>
      ob_realloc N P b sz (bw_mem w) \<noteq> None \<and> ob_realloc_or_copy N P b sz (bw_mem w) \<noteq> None"
    if b: "b \<in> set (bw_owned w)" for b data sz
  proof -
    obtain bs where own: "owns (bw_mem w) b bs" using bin_invariantD(3) [OF inv b] by blast
    then show ?thesis
      using owns_read [OF own] owns_drop [OF own] owns_release [OF own] owns_write [OF own, of data]
        ob_realloc_cases [OF assms(1,2) fin own, of sz] ob_realloc_or_copy_cases [OF assms(1,2) fin own, of sz]
      by (auto simp: owns_def split: option.splits sum.splits)
  qed
  moreover have "slice_read (view_as_slice v) (bw_mem w) \<noteq> None \<and> view_to_owned N P v (bw_mem w) \<noteq> None"
    if v: "v \<in> set (bw_views w)" for v
  proof -
    obtain data where read: "slice_read (vw_inner v) (bw_mem w) = Some data"
      using bin_invariantD(4) [OF inv v] by (auto simp: sees_def)
    then show ?thesis
      using ob_from_unowned_cases [OF assms(1,2) fin read]
      by (auto simp: view_as_slice_def split: option.splits)
  qed
  ultimately show ?thesis using inv by (simp add: bin_invariant_def)
qed

theorem owned_binaries_safe_witness:
  "ob_drop (hd (bw_owned demo_bin_world)) (bw_mem demo_bin_world) \<noteq> None \<and>
   ob_release_to (hd (bw_owned demo_bin_world)) (bw_mem demo_bin_world) \<noteq> None \<and>
   ob_realloc_or_copy demo_nif demo_placement (hd (bw_owned demo_bin_world)) 5 (bw_mem demo_bin_world) \<noteq> None \<and>
   view_to_owned demo_nif demo_placement (hd (bw_views demo_bin_world)) (bw_mem demo_bin_world) \<noteq> None"
  using owned_binaries_safe [OF demo_placement_laws demo_allocator_laws demo_bin_reachable]
  by (simp add: demo_bin_world_def)

text \<open>
  C29: what was released to the virtual machine is immutable. As long as a view exists, it sees the
  bytes that it saw first, whatever is done to the other binaries.
\<close>

theorem released_binary_immutable:
  assumes laws: "placement_laws P" "allocator_laws N" and "bin_reachable N P w"
    and v: "v \<in> set (bw_views w)"
    and hist: "(\<lambda>w w'. bin_step N P w w' \<and> v \<in> set (bw_views w'))\<^sup>*\<^sup>* w w'"
  shows "\<exists>bs. slice_read (view_as_slice v) (bw_mem w) = Some bs \<and>
    slice_read (view_as_slice v) (bw_mem w') = Some bs"
proof -
  obtain bs where bs: "sees (bw_mem w) v bs"
    using bin_invariantD(4) [OF bin_reachable_invariant [OF laws assms(3)] v] by blast
  from hist have "bin_invariant w' \<and> v \<in> set (bw_views w') \<and> sees (bw_mem w') v bs"
  proof (induction rule: rtranclp_induct)
    case base
    show ?case using bin_reachable_invariant [OF laws assms(3)] v bs by simp
  next
    case (step x y)
    then show ?case
      using bin_step_change [OF laws] bin_change_invariant bin_change_sees by blast
  qed
  with bs show ?thesis by (simp add: sees_def view_as_slice_def)
qed

text \<open>The two bytes that are still owned are overwritten and resized.\<close>

theorem released_binary_immutable_witness:
  "slice_read (view_as_slice (hd (bw_views demo_bin_world)))
     \<lparr>buf_heap = [0 \<mapsto> [0xFF], 1 \<mapsto> [7, 0xFF]], buf_vm = {0}\<rparr> = Some [0xFF]"
proof -
  let ?v = "hd (bw_views demo_bin_world)"
  let ?m = "\<lparr>buf_heap = [0 \<mapsto> [0xFF], 1 \<mapsto> [7, 0xFF]], buf_vm = {0}\<rparr>"
  have "bin_step demo_nif demo_placement demo_bin_world (demo_bin_world\<lparr>bw_mem := ?m\<rparr>)"
    using bin_step_write [of demo_bin_world "[]" "hd (bw_owned demo_bin_world)" "[]" "[7]" 1 ?m
        demo_nif demo_placement]
    by (simp add: demo_bin_world_def slice_store_def ob_as_mut_slice_def slice_write_def numeral_2_eq_2 fun_upd_twist)
  then have "(\<lambda>w w'. bin_step demo_nif demo_placement w w' \<and> ?v \<in> set (bw_views w'))\<^sup>*\<^sup>*
      demo_bin_world (demo_bin_world\<lparr>bw_mem := ?m\<rparr>)"
    by (intro r_into_rtranclp) (simp add: demo_bin_world_def)
  from released_binary_immutable [OF demo_placement_laws demo_allocator_laws demo_bin_reachable _ this]
  show ?thesis by (simp add: demo_bin_world_def slice_read_def view_as_slice_def)
qed

section \<open>The guard around a NIF\<close>

text \<open>
  No panic leaves a NIF. A call returns whenever the function does: the value of the function,
  the encoding of its error, or, if either panics, the exception nif\_panic; the wrapper has no error
  of its own and never panics, for any function and any arguments.
\<close>

lemma nif_call_never_panics:
  "(case function terms of
      Ok r \<Rightarrow> handle_nif_call N function terms = Ok r
    | Err e \<Rightarrow> handle_nif_call N function terms =
        Ok (case error_encode N e of
              Inr t \<Rightarrow> t | Inl p \<Rightarrow> enif_raise_exception N (atom_named N ''nif_panic''))
    | Panic p \<Rightarrow> handle_nif_call N function terms =
        Ok (enif_raise_exception N (atom_named N ''nif_panic''))
    | Timeout \<Rightarrow> handle_nif_call N function terms = Timeout)"
  by (auto simp: handle_nif_call_def nif_body_def nif_panic_atom split: outcome.splits sum.splits)

end
