(* ===== verification/Rustler_Slices.thy ===== *)
theory Rustler_Slices
  imports Rustler_Properties
begin

text \<open>
  How long the slices of an owned binary may be kept. types/binary.rs has two kinds of signatures: the
  result of \<open>as_slice\<close> and \<open>as_mut_slice\<close> has the lifetime parameter of the \<open>impl\<close> block, that of
  \<open>deref\<close> and \<open>deref_mut\<close> is left out, so that it is that of the borrowed binary. The compiler accepts
  programs by these signatures: it keeps a binary from being moved, resized or dropped as long as
  there is a slice whose lifetime is tied to it, and no longer.
\<close>

section \<open>The signatures\<close>

text \<open>
  The lifetime parameters of the type of \<open>self\<close>, and the lifetime of the result if the signature names
  one.
\<close>

record slice_signature =
  self_lifetimes :: "string list"
  result_lifetime :: "string option"

definition as_slice_signature :: slice_signature where
  "as_slice_signature = \<lparr>self_lifetimes = [], result_lifetime = Some ''a''\<rparr>"

definition as_mut_slice_signature :: slice_signature where
  "as_mut_slice_signature = \<lparr>self_lifetimes = [], result_lifetime = Some ''a''\<rparr>"

definition deref_signature :: slice_signature where
  "deref_signature = \<lparr>self_lifetimes = [], result_lifetime = None\<rparr>"

definition deref_mut_signature :: slice_signature where
  "deref_mut_signature = \<lparr>self_lifetimes = [], result_lifetime = None\<rparr>"

text \<open>
  A lifetime that is left out is that of the borrow of \<open>self\<close>, and one that is a parameter of the
  type of \<open>self\<close> is at most as long as what the value refers to; any other the caller chooses.
\<close>

definition tied_to_self :: "slice_signature \<Rightarrow> bool" where
  "tied_to_self sig \<longleftrightarrow>
     (case result_lifetime sig of None \<Rightarrow> True | Some l \<Rightarrow> l \<in> set (self_lifetimes sig))"

section \<open>Programs that keep slices\<close>

text \<open>
  A world of binaries (Rustler_Binary) with the slices that the program still has: of which handle,
  by which signature, and the pointer and size. A program may take a slice, give it up, and make any
  step of the binaries that leaves the handles alone that have a slice tied to them. (The compiler
  allows less still, it separates readers from writers; this has no part in what follows.)
\<close>

record slice_world =
  sw_bins :: bin_world
  sw_slices :: "(owned_binary \<times> slice_signature \<times> nif_binary) list"

definition slices_of :: "owned_binary \<Rightarrow> (slice_signature \<times> nif_binary) set" where
  "slices_of b = {(as_slice_signature, ob_as_slice b), (as_mut_slice_signature, ob_as_mut_slice b),
     (deref_signature, ob_as_slice b), (deref_mut_signature, ob_as_mut_slice b)}"

inductive slice_step :: "'t nif \<Rightarrow> placement \<Rightarrow> slice_world \<Rightarrow> slice_world \<Rightarrow> bool" for N P where
  slice_step_take: "b \<in> set (bw_owned (sw_bins w)) \<Longrightarrow> (sig, s) \<in> slices_of b \<Longrightarrow>
     slice_step N P w (w\<lparr>sw_slices := (b, sig, s) # sw_slices w\<rparr>)"
| slice_step_give_up: "sw_slices w = as @ x # bs \<Longrightarrow> slice_step N P w (w\<lparr>sw_slices := as @ bs\<rparr>)"
| slice_step_bins: "bin_step N P (sw_bins w) v \<Longrightarrow>
     (\<And>b sig s. (b, sig, s) \<in> set (sw_slices w) \<Longrightarrow> tied_to_self sig \<Longrightarrow> b \<in> set (bw_owned v)) \<Longrightarrow>
     slice_step N P w (w\<lparr>sw_bins := v\<rparr>)"

inductive slice_reachable :: "'t nif \<Rightarrow> placement \<Rightarrow> slice_world \<Rightarrow> bool" for N P where
  slice_reach_init: "bin_reachable N P v \<Longrightarrow> slice_reachable N P \<lparr>sw_bins = v, sw_slices = []\<rparr>"
| slice_reach_step: "slice_reachable N P w \<Longrightarrow> slice_step N P w w' \<Longrightarrow> slice_reachable N P w'"

lemma slice_reachable_bins: "slice_reachable N P w \<Longrightarrow> bin_reachable N P (sw_bins w)"
proof (induction rule: slice_reachable.induct)
  case (slice_reach_step w w')
  from slice_reach_step(2,3) show ?case by cases (auto intro: bin_reach_step)
qed simp

text \<open>A slice is one of a handle, and the handle is there as long as the slice is tied to it.\<close>

lemma slice_reachable_slices:
  "slice_reachable N P w \<Longrightarrow> (b, sig, s) \<in> set (sw_slices w) \<Longrightarrow>
   (sig, s) \<in> slices_of b \<and> (tied_to_self sig \<longrightarrow> b \<in> set (bw_owned (sw_bins w)))"
proof (induction arbitrary: b sig s rule: slice_reachable.induct)
  case (slice_reach_step w w')
  from slice_reach_step(2) show ?case
  proof cases
    case (slice_step_give_up as x bs)
    with slice_reach_step(3,4) show ?thesis by auto
  qed (use slice_reach_step(3,4) in auto)
qed simp

section \<open>What can dangle\<close>

lemma kept_while_dropped:
  assumes laws: "placement_laws P" "allocator_laws N" and w: "slice_reachable N P w"
    and b: "b \<in> set (bw_owned (sw_bins w))" and sig: "(sig, s) \<in> slices_of b" "\<not> tied_to_self sig"
    and free: "\<And>sig s. (b, sig, s) \<in> set (sw_slices w) \<Longrightarrow> \<not> tied_to_self sig"
  shows "\<exists>w'. slice_reachable N P w' \<and> (b, sig, s) \<in> set (sw_slices w') \<and>
    slice_read s (bw_mem (sw_bins w')) = None \<and> slice_store s data (bw_mem (sw_bins w')) = None"
proof -
  note inv = bin_reachable_invariant [OF laws slice_reachable_bins [OF w]]
  obtain bs where own: "owns (bw_mem (sw_bins w)) b bs" using bin_invariantD(3) [OF inv b] by blast
  obtain as cs where split: "bw_owned (sw_bins w) = as @ b # cs" using b by (auto simp: in_set_conv_decomp)
  let ?taken = "w\<lparr>sw_slices := (b, sig, s) # sw_slices w\<rparr>"
  let ?mem = "(bw_mem (sw_bins w))\<lparr>buf_heap := (buf_heap (bw_mem (sw_bins w)))(ob_base b := None)\<rparr>"
  let ?dropped = "?taken\<lparr>sw_bins := (sw_bins w)\<lparr>bw_mem := ?mem, bw_owned := as @ cs\<rparr>\<rparr>"
  have "slice_reachable N P ?taken" by (rule slice_reach_step [OF w slice_step_take [OF b sig(1)]])
  moreover have "slice_step N P ?taken ?dropped"
  proof (rule slice_step_bins)
    show "bin_step N P (sw_bins ?taken) ((sw_bins w)\<lparr>bw_mem := ?mem, bw_owned := as @ cs\<rparr>)"
      using bin_step_drop [OF split owns_drop [OF own]] by simp
    show "c \<in> set (bw_owned ((sw_bins w)\<lparr>bw_mem := ?mem, bw_owned := as @ cs\<rparr>))"
      if "(c, sig', s') \<in> set (sw_slices ?taken)" "tied_to_self sig'" for c sig' s'
    proof -
      have "c \<noteq> b" using that sig(2) free by auto
      moreover have "c \<in> set (bw_owned (sw_bins w))"
        using that sig(2) slice_reachable_slices [OF w] by auto
      ultimately show ?thesis by (auto simp: split)
    qed
  qed
  moreover have "nb_base s = ob_base b"
    using sig(1) by (auto simp: slices_of_def ob_as_slice_def ob_as_mut_slice_def)
  ultimately show ?thesis
    by (intro exI [of _ ?dropped]) (auto simp: slice_read_def slice_store_def intro: slice_reach_step)
qed

text \<open>
  C30: the slices of an owned binary can outlive it, because of their signatures. The compiler lets a
  program keep what \<open>as_slice\<close> and \<open>as_mut_slice\<close> return while it drops the binary: from every state
  in which the binary is not borrowed otherwise, one is reached in which such a slice is still there
  and reading or writing it is an access to freed memory. With the signatures of \<open>deref\<close> and
  \<open>deref_mut\<close>, which return the same slices, this never happens: in every state they can be read and
  written.
\<close>

theorem escaped_slice_dangles:
  assumes laws: "placement_laws P" "allocator_laws N" and "slice_reachable N P w"
    and b: "b \<in> set (bw_owned (sw_bins w))"
  shows "((\<forall>sig s. (b, sig, s) \<in> set (sw_slices w) \<longrightarrow> sig = as_slice_signature \<or> sig = as_mut_slice_signature) \<longrightarrow>
      (\<forall>(sig, s) \<in> {(as_slice_signature, ob_as_slice b), (as_mut_slice_signature, ob_as_mut_slice b)}.
        \<exists>w'. slice_reachable N P w' \<and> (b, sig, s) \<in> set (sw_slices w') \<and>
          slice_read s (bw_mem (sw_bins w')) = None \<and> slice_store s data (bw_mem (sw_bins w')) = None)) \<and>
    (\<forall>c sig s. (c, sig, s) \<in> set (sw_slices w) \<and> (sig = deref_signature \<or> sig = deref_mut_signature) \<longrightarrow>
      slice_read s (bw_mem (sw_bins w)) \<noteq> None \<and> slice_store s data (bw_mem (sw_bins w)) \<noteq> None)"
proof (intro conjI impI allI)
  have free: "\<not> tied_to_self as_slice_signature" "\<not> tied_to_self as_mut_slice_signature"
    by (simp_all add: tied_to_self_def as_slice_signature_def as_mut_slice_signature_def)
  show "\<forall>(sig, s) \<in> {(as_slice_signature, ob_as_slice b), (as_mut_slice_signature, ob_as_mut_slice b)}.
      \<exists>w'. slice_reachable N P w' \<and> (b, sig, s) \<in> set (sw_slices w') \<and>
        slice_read s (bw_mem (sw_bins w')) = None \<and> slice_store s data (bw_mem (sw_bins w')) = None"
    if others: "\<forall>sig s. (b, sig, s) \<in> set (sw_slices w) \<longrightarrow>
      sig = as_slice_signature \<or> sig = as_mut_slice_signature"
  proof -
    have unborrowed: "\<not> tied_to_self sig" if "(b, sig, s) \<in> set (sw_slices w)" for sig s
      using others that free by blast
    have "(as_slice_signature, ob_as_slice b) \<in> slices_of b"
      "(as_mut_slice_signature, ob_as_mut_slice b) \<in> slices_of b" by (simp_all add: slices_of_def)
    from this [THEN kept_while_dropped [OF laws assms(3) b, where data = data]] free unborrowed
    show ?thesis by blast
  qed
next
  fix c sig s
  assume s: "(c, sig, s) \<in> set (sw_slices w) \<and> (sig = deref_signature \<or> sig = deref_mut_signature)"
  then have "tied_to_self sig"
    by (auto simp: tied_to_self_def deref_signature_def deref_mut_signature_def)
  with slice_reachable_slices [OF assms(3), of c sig s] s
  have c: "c \<in> set (bw_owned (sw_bins w))" and of_c: "s = ob_as_slice c"
    by (auto simp: slices_of_def ob_as_slice_def ob_as_mut_slice_def)
  obtain bs where own: "owns (bw_mem (sw_bins w)) c bs"
    using bin_invariantD(3) [OF bin_reachable_invariant [OF laws slice_reachable_bins [OF assms(3)]] c] by blast
  show "slice_read s (bw_mem (sw_bins w)) \<noteq> None" using owns_read [OF own] by (simp add: of_c)
  show "slice_store s data (bw_mem (sw_bins w)) \<noteq> None"
    using own by (auto simp: of_c ob_as_slice_def owns_def slice_store_def split: prod.split)
qed

text \<open>One of the binaries of the other witnesses, borrowed as well by \<open>deref\<close>.\<close>

theorem escaped_slice_dangles_witness:
  "\<exists>w'. slice_reachable demo_nif demo_placement w' \<and>
     (hd (bw_owned demo_bin_world), as_slice_signature, ob_as_slice (hd (bw_owned demo_bin_world))) \<in>
       set (sw_slices w') \<and>
     slice_read (ob_as_slice (hd (bw_owned demo_bin_world))) (bw_mem (sw_bins w')) = None"
proof -
  have start: "slice_reachable demo_nif demo_placement \<lparr>sw_bins = demo_bin_world, sw_slices = []\<rparr>"
    by (rule slice_reach_init [OF demo_bin_reachable])
  have b: "hd (bw_owned demo_bin_world) \<in>
      set (bw_owned (sw_bins \<lparr>sw_bins = demo_bin_world, sw_slices = []\<rparr>))"
    by (simp add: demo_bin_world_def)
  from escaped_slice_dangles [OF demo_placement_laws demo_allocator_laws start b, of "[7]"]
  show ?thesis by auto
qed

text \<open>A mutable slice that is kept while the binary is released changes the bytes of the term.\<close>

lemma kept_while_released:
  assumes "owns (bw_mem w) b bs"
  shows "\<exists>v m n m'. ob_release_to b (bw_mem w) = Some (v, m) \<and>
    slice_read (view_as_slice v) m = Some bs \<and>
    slice_store (ob_as_mut_slice b) data m = Some (n, m') \<and>
    slice_read (view_as_slice v) m' = Some (fst (slice_write bs data))"
proof -
  have heap: "buf_heap (bw_mem w) (ob_base b) = Some bs" "nb_size (ob_inner b) = length bs"
    "nb_off (ob_inner b) = 0" using assms by (simp_all add: owns_def)
  show ?thesis
    using heap slice_write_length [of bs data]
    by (simp add: owns_release [OF assms] slice_read_def ob_as_slice_def
        slice_store_whole [where s = "ob_inner b"] ob_as_mut_slice_def view_as_slice_def)
qed

end
