(* ===== verification/Rustler_Tuples.thy ===== *)
theory Rustler_Tuples
  imports Rustler_Codec
begin

text \<open>
  types/tuple.rs for every arity: the macro \<open>impl_nifencoder_nifdecoder_for_tuple\<close> generates the
  transcoders of tuples of up to seven elements, each of its own type. Here a Rust tuple \<open>(A, B, C)\<close> is
  the nested pair \<open>(a, b, c, ())\<close>, so that the repetitions of the macro are recursion on its arguments;
  for two and three elements this is what Rustler_Types has.
\<close>

section \<open>The macro\<close>

type_synonym ('t, 'a) elements_encoder = "'a \<Rightarrow> 't list may_panic"
type_synonym ('t, 'a) elements_decoder = "'t list \<Rightarrow> ('t, 'a) nif_result"

text \<open>The array of the encoded elements, and the elements decoded one after the other.\<close>

definition no_element :: "('t, unit) elements_encoder" where
  "no_element u = Inr []"

definition element :: "('t, 'a) encoder \<Rightarrow> ('t, 'b) elements_encoder \<Rightarrow> ('t, 'a \<times> 'b) elements_encoder"
  where
  "element enc rest x =
     panic_bind (enc (fst x)) (\<lambda>t. panic_bind (rest (snd x)) (\<lambda>ts. Inr (t # ts)))"

definition no_decoded :: "('t, unit) elements_decoder" where
  "no_decoded elements = Ok ()"

definition decoded :: "('t, 'a) decoder \<Rightarrow> ('t, 'b) elements_decoder \<Rightarrow> ('t, 'a \<times> 'b) elements_decoder"
  where
  "decoded dec rest elements =
     result_bind (dec (hd elements)) (\<lambda>a. result_bind (rest (tl elements)) (\<lambda>b. Ok (a, b)))"

definition encode_tuple :: "'t nif \<Rightarrow> ('t, 'a) elements_encoder \<Rightarrow> ('t, 'a) encoder" where
  "encode_tuple N elements x = panic_bind (elements x) (\<lambda>arr. Inr (make_tuple N arr))"

definition decode_tuple :: "'t nif \<Rightarrow> nat \<Rightarrow> ('t, 'a) elements_decoder \<Rightarrow> ('t, 'a) decoder" where
  "decode_tuple N arity elements t = result_bind (tuple_elements N arity t) elements"

text \<open>Its instances for one, and for four to seven elements.\<close>

definition encode_tuple1 where
  "encode_tuple1 N a = encode_tuple N (element a no_element)"
definition decode_tuple1 where
  "decode_tuple1 N a = decode_tuple N 1 (decoded a no_decoded)"
definition encode_tuple4 where
  "encode_tuple4 N a b c d = encode_tuple N (element a (element b (element c (element d no_element))))"
definition decode_tuple4 where
  "decode_tuple4 N a b c d = decode_tuple N 4 (decoded a (decoded b (decoded c (decoded d no_decoded))))"
definition encode_tuple5 where
  "encode_tuple5 N a b c d e =
     encode_tuple N (element a (element b (element c (element d (element e no_element)))))"
definition decode_tuple5 where
  "decode_tuple5 N a b c d e =
     decode_tuple N 5 (decoded a (decoded b (decoded c (decoded d (decoded e no_decoded)))))"
definition encode_tuple6 where
  "encode_tuple6 N a b c d e f =
     encode_tuple N (element a (element b (element c (element d (element e (element f no_element))))))"
definition decode_tuple6 where
  "decode_tuple6 N a b c d e f =
     decode_tuple N 6 (decoded a (decoded b (decoded c (decoded d (decoded e (decoded f no_decoded))))))"
definition encode_tuple7 where
  "encode_tuple7 N a b c d e f g =
     encode_tuple N
       (element a (element b (element c (element d (element e (element f (element g no_element)))))))"
definition decode_tuple7 where
  "decode_tuple7 N a b c d e f g =
     decode_tuple N 7
       (decoded a (decoded b (decoded c (decoded d (decoded e (decoded f (decoded g no_decoded)))))))"

text \<open>The transcoders of Rustler_Types are instances, up to the shape of the tuple.\<close>

lemma pair_is_tuple:
  "encode_pair N a b (x, y) = encode_tuple N (element a (element b no_element)) (x, y, ())"
  by (cases "a x"; cases "b y")
    (simp_all add: encode_pair_def encode_tuple_def element_def no_element_def)

lemma triple_is_tuple:
  "encode_triple N a b c (x, y, z) =
     encode_tuple N (element a (element b (element c no_element))) (x, y, z, ())"
  by (cases "a x"; cases "b y"; cases "c z")
    (simp_all add: encode_triple_def encode_tuple_def element_def no_element_def)

lemma tuple_elements_length: "tuple_elements N n t = Ok ts \<Longrightarrow> length ts = n"
  by (auto simp: tuple_elements_def split: option.splits if_splits)

lemma decode_pair_is_tuple:
  "decode_pair N a b t =
     result_bind (decode_tuple N 2 (decoded a (decoded b no_decoded)) t) (\<lambda>(x, y, _). Ok (x, y))"
proof (cases "tuple_elements N 2 t")
  case (Ok ts)
  then obtain u v where ts: "ts = [u, v]"
    using tuple_elements_length [OF Ok] by (auto simp: numeral_2_eq_2 length_Suc_conv)
  show ?thesis
    by (cases "a u"; cases "b v")
      (simp_all add: decode_pair_def decode_tuple_def decoded_def no_decoded_def Ok ts)
qed (simp_all add: decode_pair_def decode_tuple_def)

section \<open>Round trips\<close>

text \<open>The elements after the first one, and the term that each of them gives.\<close>

locale elements_transcoder =
  fixes N :: "'t nif" and enc :: "('t, 'a) elements_encoder"
    and dec :: "nat \<Rightarrow> ('t, 'a) elements_decoder" and arity :: nat and fits :: "'a \<Rightarrow> bool"
  assumes elements: "nif_laws N \<Longrightarrow> fits x \<Longrightarrow>
    \<exists>ts. enc x = Inr ts \<and> length ts = arity \<and> settles (\<lambda>fuel. dec fuel ts) x"
begin

lemma tuple_transcoder:
  assumes "arity < 2 ^ 24"
  shows "transcoder N (encode_tuple N enc) (\<lambda>fuel. decode_tuple N arity (dec fuel)) fits"
proof
  fix x assume laws: "nif_laws N" and "fits x"
  then obtain ts where ts: "enc x = Inr ts" "length ts = arity" "settles (\<lambda>fuel. dec fuel ts) x"
    using elements by blast
  have "decode_tuple N arity (dec fuel) (make_tuple N ts) = dec fuel ts" for fuel
    using tuple_terms [OF laws, of ts] ts(2) assms by (simp add: decode_tuple_def tuple_elements_def)
  with ts show "\<exists>t. encode_tuple N enc x = Inr t \<and>
      settles (\<lambda>fuel. decode_tuple N arity (dec fuel) t) x"
    by (simp add: encode_tuple_def)
qed

end

interpretation empty: elements_transcoder N no_element "\<lambda>_. no_decoded" 0 "\<lambda>_. True" for N
  by unfold_locales (simp add: no_element_def no_decoded_def)

locale one_more_element =
  a: transcoder N enc_a dec_a fits_a + rest: elements_transcoder N enc dec arity fits
  for N :: "'t nif" and enc_a :: "('t, 'a) encoder" and dec_a fits_a
    and enc :: "('t, 'b) elements_encoder" and dec arity fits
begin

sublocale more: elements_transcoder N "element enc_a enc" "\<lambda>fuel. decoded (dec_a fuel) (dec fuel)"
  "Suc arity" "\<lambda>x. fits_a (fst x) \<and> fits (snd x)"
proof
  fix x assume laws: "nif_laws N" and fits: "fits_a (fst x) \<and> fits (snd x)"
  obtain t where t: "enc_a (fst x) = Inr t" "settles (\<lambda>fuel. dec_a fuel t) (fst x)"
    using a.encodes [OF laws, of "fst x"] fits by blast
  obtain ts where ts: "enc (snd x) = Inr ts" "length ts = arity" "settles (\<lambda>fuel. dec fuel ts) (snd x)"
    using rest.elements [OF laws, of "snd x"] fits by blast
  have "settles (\<lambda>fuel. decoded (dec_a fuel) (dec fuel) (t # ts)) x"
    using t(2) ts(3) by (rule settles_both) (simp add: decoded_def)
  with t(1) ts(1,2) show "\<exists>us. element enc_a enc x = Inr us \<and> length us = Suc arity \<and>
      settles (\<lambda>fuel. decoded (dec_a fuel) (dec fuel) us) x"
    by (simp add: element_def)
qed

end

text \<open>Four elements of four types, as the code has them.\<close>

interpretation four1: one_more_element N "encode_bool N" "\<lambda>_. decode_bool N" "\<lambda>_. True"
  no_element "\<lambda>_. no_decoded" 0 "\<lambda>_. True" for N ..

interpretation four2: one_more_element N "encode_str N" "\<lambda>_. decode_str N"
  "\<lambda>s. utf8_valid (as_bytes s) \<and> owned_new N (length s) \<noteq> None"
  "element (encode_bool N) no_element" "\<lambda>_. decoded (decode_bool N) no_decoded" "Suc 0"
  "\<lambda>x. True \<and> True" for N ..

interpretation four3: one_more_element N "encode_option N (encode_u64 N)"
  "\<lambda>_. decode_option N (decode_u64 N)" "\<lambda>x. case x of None \<Rightarrow> True | Some v \<Rightarrow> True"
  "element (encode_str N) (element (encode_bool N) no_element)"
  "\<lambda>_. decoded (decode_str N) (decoded (decode_bool N) no_decoded)" "Suc (Suc 0)"
  "\<lambda>x. (utf8_valid (as_bytes (fst x)) \<and> owned_new N (length (fst x)) \<noteq> None) \<and> True \<and> True" for N ..

interpretation four4: one_more_element N "encode_i32 N" "\<lambda>_. decode_i32 N" "\<lambda>_. True"
  "element (encode_option N (encode_u64 N)) (element (encode_str N) (element (encode_bool N) no_element))"
  "\<lambda>_. decoded (decode_option N (decode_u64 N)) (decoded (decode_str N) (decoded (decode_bool N) no_decoded))"
  "Suc (Suc (Suc 0))"
  "\<lambda>x. (case fst x of None \<Rightarrow> True | Some v \<Rightarrow> True) \<and>
     (utf8_valid (as_bytes (fst (snd x))) \<and> owned_new N (length (fst (snd x))) \<noteq> None) \<and> True \<and> True"
  for N ..

lemma tuple4_round_trip:
  assumes "nif_laws N" and "utf8_valid (as_bytes s)" and "owned_new N (length s) \<noteq> None"
  shows "\<exists>t. encode_tuple4 N (encode_i32 N) (encode_option N (encode_u64 N)) (encode_str N)
      (encode_bool N) (i, x, s, b, ()) = Inr t \<and>
    decode_tuple4 N (decode_i32 N) (decode_option N (decode_u64 N)) (decode_str N) (decode_bool N) t =
      Ok (i, x, s, b, ())"
proof -
  have arity: "(4 :: nat) = Suc (Suc (Suc (Suc 0)))" by simp
  have "Suc (Suc (Suc (Suc 0))) < (2 ^ 24 :: nat)" by simp
  from transcoder.round_trip [OF four4.more.tuple_transcoder [OF this] assms(1), of "(i, x, s, b, ())"]
  show ?thesis
    unfolding encode_tuple4_def decode_tuple4_def arity settles_const
    using assms(2,3) by (simp split: option.splits)
qed

end
