(* ===== verification/Rustler_Atoms.thy ===== *)
theory Rustler_Atoms
  imports Rustler_Codegen
begin

text \<open>
  The functions that \<open>rustler_atoms!\<close> of types/atom.rs declares, as threads call them. The atoms of
  one use of the macro are the fields of one \<open>lazy_static\<close> value, a cell guarded by a
  \<open>std::sync::Once\<close>: the first call computes all of them, calls in the meantime wait, and a panic of
  the computation poisons the cell for every later call.
\<close>

datatype 't atoms_cell = Unset | InProgress | Ready "'t list" | Poisoned

datatype 't atom_call = Asked nat | Computing nat | Answered nat "'t may_panic"

record 't atoms_state =
  atoms_cell :: "'t atoms_cell"
  atom_calls :: "nat \<Rightarrow> 't atom_call"

definition poison_msg :: string where
  "poison_msg = ''Once instance has previously been poisoned''"

text \<open>The computation, run on a fresh environment by whoever comes first, and the field of an atom.\<close>

definition atom_field :: "'t nif \<Rightarrow> string list \<Rightarrow> nat \<Rightarrow> 't may_panic" where
  "atom_field N names i = panic_bind (rustler_atoms N names) (\<lambda>atoms. Inr (atoms ! i))"

definition answer :: "nat \<Rightarrow> nat \<Rightarrow> 't may_panic \<Rightarrow> 't atoms_state \<Rightarrow> 't atoms_state" where
  "answer t i r s = s\<lparr>atom_calls := (atom_calls s)(t := Answered i r)\<rparr>"

inductive atoms_step :: "'t nif \<Rightarrow> string list \<Rightarrow> 't atoms_state \<Rightarrow> 't atoms_state \<Rightarrow> bool"
  for N names where
  first: "atom_calls s t = Asked i \<Longrightarrow> atoms_cell s = Unset \<Longrightarrow>
    atoms_step N names s (s\<lparr>atoms_cell := InProgress, atom_calls := (atom_calls s)(t := Computing i)\<rparr>)"
| made: "atom_calls s t = Computing i \<Longrightarrow> rustler_atoms N names = Inr atoms \<Longrightarrow>
    atoms_step N names s (answer t i (Inr (atoms ! i)) (s\<lparr>atoms_cell := Ready atoms\<rparr>))"
| failed: "atom_calls s t = Computing i \<Longrightarrow> rustler_atoms N names = Inl p \<Longrightarrow>
    atoms_step N names s (answer t i (Inl p) (s\<lparr>atoms_cell := Poisoned\<rparr>))"
| cached: "atom_calls s t = Asked i \<Longrightarrow> atoms_cell s = Ready atoms \<Longrightarrow>
    atoms_step N names s (answer t i (Inr (atoms ! i)) s)"
| poisoned: "atom_calls s t = Asked i \<Longrightarrow> atoms_cell s = Poisoned \<Longrightarrow>
    atoms_step N names s (answer t i (Inl poison_msg) s)"

inductive atoms_reachable :: "'t nif \<Rightarrow> string list \<Rightarrow> (nat \<Rightarrow> nat) \<Rightarrow> 't atoms_state \<Rightarrow> bool"
  for N names which where
  start: "atoms_reachable N names which \<lparr>atoms_cell = Unset, atom_calls = (\<lambda>t. Asked (which t))\<rparr>"
| step: "atoms_reachable N names which s \<Longrightarrow> atoms_step N names s s' \<Longrightarrow>
    atoms_reachable N names which s'"

section \<open>What the calls answer\<close>

text \<open>Which thread asks for which atom never changes.\<close>

fun asked_for :: "'t atom_call \<Rightarrow> nat" where
  "asked_for (Asked i) = i"
| "asked_for (Computing i) = i"
| "asked_for (Answered i r) = i"

fun fair_answer :: "'t nif \<Rightarrow> string list \<Rightarrow> 't atom_call \<Rightarrow> bool" where
  "fair_answer N names (Answered i r) \<longleftrightarrow>
     (case atom_field N names i of Inr a \<Rightarrow> r = Inr a | Inl p \<Rightarrow> r = Inl p \<or> r = Inl poison_msg)"
| "fair_answer N names c \<longleftrightarrow> True"

definition computing :: "'t atoms_state \<Rightarrow> nat set" where
  "computing s = {t. \<exists>i. atom_calls s t = Computing i}"

lemma computing_answer [simp]: "computing (answer t i r s) = computing s - {t}"
  by (auto simp: computing_def answer_def)

lemma computing_cell [simp]: "computing (s\<lparr>atoms_cell := c\<rparr>) = computing s"
  by (simp add: computing_def)

definition atoms_inv :: "'t nif \<Rightarrow> string list \<Rightarrow> (nat \<Rightarrow> nat) \<Rightarrow> 't atoms_state \<Rightarrow> bool" where
  "atoms_inv N names which s \<longleftrightarrow>
     (\<forall>t. asked_for (atom_calls s t) = which t \<and> fair_answer N names (atom_calls s t)) \<and>
     (case atoms_cell s of
        Unset \<Rightarrow> computing s = {}
      | InProgress \<Rightarrow> (\<exists>t. computing s = {t})
      | Ready atoms \<Rightarrow> rustler_atoms N names = Inr atoms \<and> computing s = {}
      | Poisoned \<Rightarrow> (\<exists>p. rustler_atoms N names = Inl p) \<and> computing s = {})"

lemma only_one_computes:
  assumes "atoms_inv N names which s" and "atom_calls s t = Computing i"
  shows "computing s = {t}"
proof -
  have "t \<in> computing s" using assms(2) by (auto simp: computing_def)
  with assms(1) show ?thesis by (auto simp: atoms_inv_def split: atoms_cell.splits)
qed

text \<open>An answer that is fair for its atom keeps the first half of the invariant.\<close>

lemma calls_answer:
  assumes "\<forall>t. asked_for (atom_calls s t) = which t \<and> fair_answer N names (atom_calls s t)"
    and "asked_for (atom_calls s t) = i" and "fair_answer N names (Answered i r)"
  shows "\<forall>u. asked_for (atom_calls (answer t i r (s\<lparr>atoms_cell := c\<rparr>)) u) = which u \<and>
    fair_answer N names (atom_calls (answer t i r (s\<lparr>atoms_cell := c\<rparr>)) u)"
  using assms by (auto simp: answer_def simp del: fair_answer.simps)

lemma atoms_inv_answer:
  assumes "atoms_inv N names which s" and "asked_for (atom_calls s t) = i"
    and "fair_answer N names (Answered i r)" and "computing s - {t} = {}"
    and "case c of Ready atoms \<Rightarrow> rustler_atoms N names = Inr atoms
      | Poisoned \<Rightarrow> \<exists>p. rustler_atoms N names = Inl p | _ \<Rightarrow> False"
  shows "atoms_inv N names which (answer t i r (s\<lparr>atoms_cell := c\<rparr>))"
proof -
  have "atoms_cell (answer t i r (s\<lparr>atoms_cell := c\<rparr>)) = c" by (simp add: answer_def)
  with assms calls_answer [OF _ assms(2,3), of which c] show ?thesis
    by (simp add: atoms_inv_def split: atoms_cell.splits)
qed

lemma atoms_inv_step:
  assumes "atoms_step N names s s'" and inv: "atoms_inv N names which s"
  shows "atoms_inv N names which s'"
  using assms(1)
proof cases
  case (first t i)
  have "computing s' = insert t (computing s)" by (auto simp: first(1) computing_def)
  with inv first(3) have "computing s' = {t}" by (simp add: atoms_inv_def)
  with inv first(2) show ?thesis by (auto simp: first(1) atoms_inv_def dest: spec [of _ t])
next
  case (made t i atoms)
  with atoms_inv_answer [OF inv, of t i "Inr (atoms ! i)" "Ready atoms"] only_one_computes [OF inv]
  show ?thesis by (simp add: atom_field_def)
next
  case (failed t i p)
  with atoms_inv_answer [OF inv, of t i "Inl p" Poisoned] only_one_computes [OF inv]
  show ?thesis by (simp add: atom_field_def)
next
  case (cached t i atoms)
  then have same: "s\<lparr>atoms_cell := Ready atoms\<rparr> = s" by (cases s) simp
  moreover have "rustler_atoms N names = Inr atoms" "computing s = {}"
    using inv cached(3) by (simp_all add: atoms_inv_def)
  ultimately show ?thesis
    using atoms_inv_answer [OF inv, of t i "Inr (atoms ! i)" "Ready atoms", unfolded same] cached
    by (simp add: atom_field_def)
next
  case (poisoned t i)
  then have same: "s\<lparr>atoms_cell := Poisoned\<rparr> = s" by (cases s) simp
  moreover obtain p where "rustler_atoms N names = Inl p" "computing s = {}"
    using inv poisoned(3) by (auto simp: atoms_inv_def)
  ultimately show ?thesis
    using atoms_inv_answer [OF inv, of t i "Inl poison_msg" Poisoned, unfolded same] poisoned
    by (simp add: atom_field_def)
qed

lemma atoms_inv_reachable: "atoms_reachable N names which s \<Longrightarrow> atoms_inv N names which s"
proof (induction rule: atoms_reachable.induct)
  case start
  show ?case by (simp add: atoms_inv_def computing_def)
next
  case (step s s')
  then show ?case by (blast intro: atoms_inv_step)
qed

text \<open>
  Whichever threads ask in whichever order: where every name of the macro makes an atom, every
  answer is the atom of its name, and where one does not, no function of the macro answers.
\<close>

lemma atom_functions_answer:
  assumes "atoms_reachable N names which s" and "atom_calls s t = Answered i r"
  shows "i = which t"
    and "\<forall>n \<in> set names. plain_name n \<Longrightarrow> i < length names \<Longrightarrow> r = Inr (atom_named N (names ! i))"
    and "rustler_atoms N names = Inl p \<Longrightarrow> r = Inl p \<or> r = Inl poison_msg"
proof -
  have "asked_for (atom_calls s t) = which t" "fair_answer N names (atom_calls s t)"
    using atoms_inv_reachable [OF assms(1)] by (simp_all add: atoms_inv_def)
  with assms(2) show "i = which t"
    "\<forall>n \<in> set names. plain_name n \<Longrightarrow> i < length names \<Longrightarrow> r = Inr (atom_named N (names ! i))"
    "rustler_atoms N names = Inl p \<Longrightarrow> r = Inl p \<or> r = Inl poison_msg"
    by (simp_all add: atom_field_def rustler_atoms_plain)
qed

text \<open>No call waits for ever: as long as one is not answered, there is a step.\<close>

lemma atom_functions_progress:
  assumes "atoms_reachable N names which s" and "\<nexists>r. atom_calls s t = Answered (which t) r"
  shows "\<exists>s'. atoms_step N names s s'"
proof -
  note inv = atoms_inv_reachable [OF assms(1)]
  have computes: "\<exists>s'. atoms_step N names s s'" if "atom_calls s u = Computing i" for u i
    using that by (cases "rustler_atoms N names") (blast intro: made failed)+
  have "asked_for (atom_calls s t) = which t" using inv by (simp add: atoms_inv_def)
  with assms(2) consider "atom_calls s t = Asked (which t)" | "atom_calls s t = Computing (which t)"
    by (cases "atom_calls s t") auto
  then show ?thesis
  proof cases
    case 1
    show ?thesis
    proof (cases "atoms_cell s")
      case InProgress
      with inv obtain u where "u \<in> computing s" by (auto simp: atoms_inv_def)
      then obtain i where "atom_calls s u = Computing i" by (auto simp: computing_def)
      then show ?thesis by (rule computes)
    qed (use 1 in \<open>blast intro: atoms_step.intros\<close>)+
  qed (rule computes)
qed

end
