(* ===== verification/Rustler_Wrapper.thy ===== *)
theory Rustler_Wrapper
  imports Rustler_Resource Rustler_Terms
begin

text \<open>
  The directory wrapper of Rustler: the C functions as they are, with a return code and an output
  argument, and the Rust functions that turn the code into an \<open>Option\<close>. The rest of the model works
  with functions that return an \<open>Option\<close> (the record \<open>nif\<close>); here it is shown that this is what the
  wrappers make of the C interface, and that the iterator over the entries of a map, a C object that
  is advanced in place, behaves as the list of pairs that the model has for it. At the end, the
  opening of a resource type.
\<close>

section \<open>The C functions\<close>

text \<open>
  On terms \<open>'t\<close>, process identifiers \<open>'p\<close> and iterators \<open>'i\<close>. A pair is a return code and the value
  of the output argument afterwards. The output of \<open>raw_get_tuple\<close> is the arity and the memory
  behind the returned pointer; a null pointer is \<open>None\<close>.
\<close>

record ('t, 'p, 'i) c_nif =
  raw_is_atom :: "'t \<Rightarrow> i32"
  raw_is_binary :: "'t \<Rightarrow> i32"
  raw_is_empty_list :: "'t \<Rightarrow> i32"
  raw_is_exception :: "'t \<Rightarrow> i32"
  raw_is_fun :: "'t \<Rightarrow> i32"
  raw_is_list :: "'t \<Rightarrow> i32"
  raw_is_map :: "'t \<Rightarrow> i32"
  raw_is_number :: "'t \<Rightarrow> i32"
  raw_is_pid :: "'t \<Rightarrow> i32"
  raw_is_port :: "'t \<Rightarrow> i32"
  raw_is_ref :: "'t \<Rightarrow> i32"
  raw_is_tuple :: "'t \<Rightarrow> i32"
  raw_get_map_value :: "'t \<Rightarrow> 't \<Rightarrow> i32 \<times> 't"
  raw_get_map_size :: "'t \<Rightarrow> i32 \<times> nat"
  raw_make_map_put :: "'t \<Rightarrow> 't \<Rightarrow> 't \<Rightarrow> i32 \<times> 't"
  raw_make_map_remove :: "'t \<Rightarrow> 't \<Rightarrow> i32 \<times> 't"
  raw_make_map_update :: "'t \<Rightarrow> 't \<Rightarrow> 't \<Rightarrow> i32 \<times> 't"
  raw_map_iterator_create :: "'t \<Rightarrow> i32 \<times> 'i"
  raw_map_iterator_get_pair :: "'i \<Rightarrow> i32 \<times> 't \<times> 't"
  raw_map_iterator_next :: "'i \<Rightarrow> 'i"
  raw_get_list_cell :: "'t \<Rightarrow> i32 \<times> 't \<times> 't"
  raw_get_list_length :: "'t \<Rightarrow> i32 \<times> u32"
  raw_make_reverse_list :: "'t \<Rightarrow> i32 \<times> 't"
  raw_get_tuple :: "'t \<Rightarrow> i32 \<times> i32 \<times> 't list"
  raw_get_local_pid :: "'t \<Rightarrow> i32 \<times> 'p"
  raw_make_pid :: "'p \<Rightarrow> 't"
  raw_alloc_binary :: "nat \<Rightarrow> i32 \<times> bytes"
  raw_realloc_binary :: "bytes \<Rightarrow> nat \<Rightarrow> i32 \<times> bytes"
  raw_term_to_binary :: "'t \<Rightarrow> i32 \<times> bytes"
  raw_open_resource_type :: "bytes \<Rightarrow> u32 \<Rightarrow> nat option"
  raw_get_resource :: "'t \<Rightarrow> nat \<Rightarrow> i32 \<times> nat"
  raw_make_atom_len :: "bytes \<Rightarrow> 't"
  raw_make_list_cell :: "'t \<Rightarrow> 't \<Rightarrow> 't"
  raw_make_list_from_array :: "'t list \<Rightarrow> u32 \<Rightarrow> 't"
  raw_make_tuple_from_array :: "'t list \<Rightarrow> u32 \<Rightarrow> 't"
  raw_make_new_map :: "'t"
  raw_raise_exception :: "'t \<Rightarrow> 't"
  raw_make_badarg :: "'t"

section \<open>The wrappers\<close>

text \<open>check.rs: the macro that defines the twelve type tests.\<close>

definition impl_check_fun :: "('t \<Rightarrow> i32) \<Rightarrow> 't \<Rightarrow> bool" where
  "impl_check_fun inner t \<longleftrightarrow> inner t = 1"

definition type_checks :: "('t, 'p, 'i) c_nif \<Rightarrow> (string \<times> ('t \<Rightarrow> bool)) list" where
  "type_checks C =
     [(''is_atom'', impl_check_fun (raw_is_atom C)),
      (''is_binary'', impl_check_fun (raw_is_binary C)),
      (''is_empty_list'', impl_check_fun (raw_is_empty_list C)),
      (''is_exception'', impl_check_fun (raw_is_exception C)),
      (''is_fun'', impl_check_fun (raw_is_fun C)),
      (''is_list'', impl_check_fun (raw_is_list C)),
      (''is_map'', impl_check_fun (raw_is_map C)),
      (''is_number'', impl_check_fun (raw_is_number C)),
      (''is_pid'', impl_check_fun (raw_is_pid C)),
      (''is_port'', impl_check_fun (raw_is_port C)),
      (''is_ref'', impl_check_fun (raw_is_ref C)),
      (''is_tuple'', impl_check_fun (raw_is_tuple C))]"

text \<open>map.rs.\<close>

definition wrapper_get_map_value :: "('t, 'p, 'i) c_nif \<Rightarrow> 't \<Rightarrow> 't \<Rightarrow> 't option" where
  "wrapper_get_map_value C m key =
     (case raw_get_map_value C m key of (success, result) \<Rightarrow>
        if success \<noteq> 1 then None else Some result)"

definition wrapper_get_map_size :: "('t, 'p, 'i) c_nif \<Rightarrow> 't \<Rightarrow> nat option" where
  "wrapper_get_map_size C m =
     (case raw_get_map_size C m of (success, sz) \<Rightarrow> if success \<noteq> 1 then None else Some sz)"

definition wrapper_map_put :: "('t, 'p, 'i) c_nif \<Rightarrow> 't \<Rightarrow> 't \<Rightarrow> 't \<Rightarrow> 't option" where
  "wrapper_map_put C m key v =
     (case raw_make_map_put C m key v of (success, result) \<Rightarrow>
        if success \<noteq> 1 then None else Some result)"

definition wrapper_map_remove :: "('t, 'p, 'i) c_nif \<Rightarrow> 't \<Rightarrow> 't \<Rightarrow> 't option" where
  "wrapper_map_remove C m key =
     (case raw_make_map_remove C m key of (success, result) \<Rightarrow>
        if success \<noteq> 1 then None else Some result)"

definition wrapper_map_update :: "('t, 'p, 'i) c_nif \<Rightarrow> 't \<Rightarrow> 't \<Rightarrow> 't \<Rightarrow> 't option" where
  "wrapper_map_update C m key new_value =
     (case raw_make_map_update C m key new_value of (success, result) \<Rightarrow>
        if success \<noteq> 1 then None else Some result)"

definition wrapper_map_iterator_create :: "('t, 'p, 'i) c_nif \<Rightarrow> 't \<Rightarrow> 'i option" where
  "wrapper_map_iterator_create C m =
     (case raw_map_iterator_create C m of (success, iter) \<Rightarrow>
        if success = 0 then None else Some iter)"

definition wrapper_map_iterator_get_pair :: "('t, 'p, 'i) c_nif \<Rightarrow> 'i \<Rightarrow> ('t \<times> 't) option" where
  "wrapper_map_iterator_get_pair C iter =
     (case raw_map_iterator_get_pair C iter of (success, key, v) \<Rightarrow>
        if success = 0 then None else Some (key, v))"

text \<open>list.rs.\<close>

definition wrapper_get_list_cell :: "('t, 'p, 'i) c_nif \<Rightarrow> 't \<Rightarrow> ('t \<times> 't) option" where
  "wrapper_get_list_cell C t =
     (case raw_get_list_cell C t of (success, head, tail) \<Rightarrow>
        if success \<noteq> 1 then None else Some (head, tail))"

definition wrapper_get_list_length :: "('t, 'p, 'i) c_nif \<Rightarrow> 't \<Rightarrow> nat option" where
  "wrapper_get_list_length C t =
     (case raw_get_list_length C t of (success, len) \<Rightarrow>
        if success \<noteq> 1 then None else Some (unat len))"

definition wrapper_make_reverse_list :: "('t, 'p, 'i) c_nif \<Rightarrow> 't \<Rightarrow> 't option" where
  "wrapper_make_reverse_list C t =
     (case raw_make_reverse_list C t of (success, list_out) \<Rightarrow>
        if success \<noteq> 1 then None else Some list_out)"

text \<open>tuple.rs: the slice has the length that the C function reports.\<close>

definition wrapper_get_tuple :: "('t, 'p, 'i) c_nif \<Rightarrow> 't \<Rightarrow> 't list option" where
  "wrapper_get_tuple C t =
     (case raw_get_tuple C t of (success, arity, array) \<Rightarrow>
        if success \<noteq> 1 then None else Some (take (unat (scast arity :: u64)) array))"

text \<open>pid.rs.\<close>

definition wrapper_get_local_pid :: "('t, 'p, 'i) c_nif \<Rightarrow> 't \<Rightarrow> 'p option" where
  "wrapper_get_local_pid C t =
     (case raw_get_local_pid C t of (success, pid) \<Rightarrow> if success = 0 then None else Some pid)"

text \<open>binary.rs and env.rs.\<close>

definition wrapper_alloc :: "('t, 'p, 'i) c_nif \<Rightarrow> nat \<Rightarrow> bytes option" where
  "wrapper_alloc C sz =
     (case raw_alloc_binary C sz of (success, binary) \<Rightarrow>
        if success = 0 then None else Some binary)"

definition wrapper_realloc :: "('t, 'p, 'i) c_nif \<Rightarrow> bytes \<Rightarrow> nat \<Rightarrow> bool \<times> bytes" where
  "wrapper_realloc C binary sz =
     (case raw_realloc_binary C binary sz of (success, binary') \<Rightarrow> (success \<noteq> 0, binary'))"

definition wrapper_term_to_binary :: "('t, 'p, 'i) c_nif \<Rightarrow> 't \<Rightarrow> bytes option" where
  "wrapper_term_to_binary C t =
     (case raw_term_to_binary C t of (success, binary) \<Rightarrow>
        if success = 0 then None else Some binary)"

text \<open>
  The functions that make terms and raise exceptions pass their arguments on; a slice goes over as a
  pointer and its length, cast to 32 bits.
\<close>

definition wrapper_make_atom :: "('t, 'p, 'i) c_nif \<Rightarrow> bytes \<Rightarrow> 't" where
  "wrapper_make_atom C name = raw_make_atom_len C name"

definition wrapper_make_list :: "('t, 'p, 'i) c_nif \<Rightarrow> 't list \<Rightarrow> 't" where
  "wrapper_make_list C arr = raw_make_list_from_array C arr (word_of_nat (length arr))"

definition wrapper_make_list_cell :: "('t, 'p, 'i) c_nif \<Rightarrow> 't \<Rightarrow> 't \<Rightarrow> 't" where
  "wrapper_make_list_cell C head tail = raw_make_list_cell C head tail"

definition wrapper_make_tuple :: "('t, 'p, 'i) c_nif \<Rightarrow> 't list \<Rightarrow> 't" where
  "wrapper_make_tuple C terms = raw_make_tuple_from_array C terms (word_of_nat (length terms))"

definition wrapper_map_new :: "('t, 'p, 'i) c_nif \<Rightarrow> 't" where
  "wrapper_map_new C = raw_make_new_map C"

definition wrapper_make_pid :: "('t, 'p, 'i) c_nif \<Rightarrow> 'p \<Rightarrow> 't" where
  "wrapper_make_pid C pid = raw_make_pid C pid"

definition wrapper_raise_exception :: "('t, 'p, 'i) c_nif \<Rightarrow> 't \<Rightarrow> 't" where
  "wrapper_raise_exception C t = raw_raise_exception C t"

definition wrapper_raise_badarg :: "('t, 'p, 'i) c_nif \<Rightarrow> 't" where
  "wrapper_raise_badarg C = raw_make_badarg C"

definition wrapper_map_iterator_next :: "('t, 'p, 'i) c_nif \<Rightarrow> 'i \<Rightarrow> 'i" where
  "wrapper_map_iterator_next C iter = raw_map_iterator_next C iter"

text \<open>The transcoder of types/pid.rs.\<close>

definition decode_pid :: "('t, 'p, 'i) c_nif \<Rightarrow> ('t, 'p) decoder" where
  "decode_pid C t = ok_or_badarg (wrapper_get_local_pid C t)"

definition encode_pid :: "('t, 'p, 'i) c_nif \<Rightarrow> ('t, 'p) encoder" where
  "encode_pid C pid = Inr (wrapper_make_pid C pid)"

section \<open>The iterator over a map\<close>

definition raw_iterator_next :: "('t, 'p, 'i) c_nif \<Rightarrow> 'i \<Rightarrow> ('t \<times> 't) option \<times> 'i" where
  "raw_iterator_next C iter =
     (case wrapper_map_iterator_get_pair C iter of
        None \<Rightarrow> (None, iter)
      | Some (key, v) \<Rightarrow> (Some (key, v), wrapper_map_iterator_next C iter))"

text \<open>A C iterator that has the pairs \<open>ps\<close> still before it.\<close>

fun iterates :: "('t, 'p, 'i) c_nif \<Rightarrow> 'i \<Rightarrow> ('t \<times> 't) list \<Rightarrow> bool" where
  "iterates C iter [] \<longleftrightarrow> fst (raw_map_iterator_get_pair C iter) = 0"
| "iterates C iter (p # ps) \<longleftrightarrow> fst (raw_map_iterator_get_pair C iter) \<noteq> 0 \<and>
     snd (raw_map_iterator_get_pair C iter) = p \<and> iterates C (raw_map_iterator_next C iter) ps"

text \<open>\<open>for (key, value) in iter\<close>, with fuel.\<close>

fun drain :: "('t, 'p, 'i) c_nif \<Rightarrow> nat \<Rightarrow> 'i \<Rightarrow> (unit, ('t \<times> 't) list) outcome" where
  "drain C 0 iter = Timeout"
| "drain C (Suc fuel) iter =
     (case raw_iterator_next C iter of
        (None, _) \<Rightarrow> Ok []
      | (Some p, iter') \<Rightarrow> (case drain C fuel iter' of Ok ps \<Rightarrow> Ok (p # ps) | r \<Rightarrow> r))"

section \<open>What the C interface promises\<close>

text \<open>Success is 1 with the output set, failure 0; a tuple has fewer than \<open>2 ^ 24\<close> elements.\<close>

fun answers :: "i32 \<times> 'a \<Rightarrow> 'a option \<Rightarrow> bool" where
  "answers r None \<longleftrightarrow> fst r = 0"
| "answers r (Some a) \<longleftrightarrow> r = (1, a)"

definition tests :: "('t \<Rightarrow> i32) \<Rightarrow> ('t \<Rightarrow> bool) \<Rightarrow> bool" where
  "tests inner test \<longleftrightarrow> (\<forall>t. inner t = (if test t then 1 else 0))"

definition documented_tests :: "('t, 'p, 'i) c_nif \<Rightarrow> 't nif \<Rightarrow> bool" where
  "documented_tests C N \<longleftrightarrow>
     tests (raw_is_atom C) (enif_is_atom N) \<and> tests (raw_is_binary C) (enif_is_binary N) \<and>
     tests (raw_is_empty_list C) (enif_is_empty_list N) \<and>
     tests (raw_is_exception C) (enif_is_exception N) \<and> tests (raw_is_fun C) (enif_is_fun N) \<and>
     tests (raw_is_list C) (enif_is_list N) \<and> tests (raw_is_map C) (enif_is_map N) \<and>
     tests (raw_is_number C) (enif_is_number N) \<and> tests (raw_is_pid C) (enif_is_pid N) \<and>
     tests (raw_is_port C) (enif_is_port N) \<and> tests (raw_is_ref C) (enif_is_ref N) \<and>
     tests (raw_is_tuple C) (enif_is_tuple N)"

definition documented_maps :: "('t, 'p, 'i) c_nif \<Rightarrow> 't nif \<Rightarrow> bool" where
  "documented_maps C N \<longleftrightarrow>
     (\<forall>m k. answers (raw_get_map_value C m k) (enif_get_map_value N m k)) \<and>
     (\<forall>m. answers (raw_get_map_size C m) (enif_get_map_size N m)) \<and>
     (\<forall>m k v. answers (raw_make_map_put C m k v) (enif_make_map_put N m k v)) \<and>
     (\<forall>m k. answers (raw_make_map_remove C m k) (enif_make_map_remove N m k)) \<and>
     (\<forall>m k v. answers (raw_make_map_update C m k v) (enif_make_map_update N m k v)) \<and>
     (\<forall>m. case raw_map_iterator_create C m of (success, iter) \<Rightarrow>
        (case enif_map_pairs N m of None \<Rightarrow> success = 0
         | Some ps \<Rightarrow> success \<noteq> 0 \<and> iterates C iter ps))"

definition documented_lists :: "('t, 'p, 'i) c_nif \<Rightarrow> 't nif \<Rightarrow> bool" where
  "documented_lists C N \<longleftrightarrow>
     (\<forall>t. answers (raw_get_list_cell C t) (enif_get_list_cell N t)) \<and>
     (\<forall>t. answers (raw_get_list_length C t) (enif_get_list_length N t)) \<and>
     (\<forall>t. answers (raw_make_reverse_list C t) (enif_make_reverse_list N t)) \<and>
     (\<forall>t. case enif_get_tuple N t of
        None \<Rightarrow> fst (raw_get_tuple C t) = 0
      | Some ts \<Rightarrow> length ts < 2 ^ 24 \<longrightarrow> (\<exists>beyond.
          raw_get_tuple C t = (1, word_of_nat (length ts), ts @ beyond)))"

definition documented_binaries :: "('t, 'p, 'i) c_nif \<Rightarrow> 't nif \<Rightarrow> bool" where
  "documented_binaries C N \<longleftrightarrow>
     (\<forall>n. answers (raw_alloc_binary C n) (enif_alloc_binary N n)) \<and>
     (\<forall>b n. answers (raw_realloc_binary C b n) (enif_realloc_binary N b n))"

definition documented_makers :: "('t, 'p, 'i) c_nif \<Rightarrow> 't nif \<Rightarrow> bool" where
  "documented_makers C N \<longleftrightarrow>
     raw_make_atom_len C = enif_make_atom_len N \<and> raw_make_list_cell C = enif_make_list_cell N \<and>
     (\<forall>ts n. unat n \<le> length ts \<longrightarrow>
        raw_make_list_from_array C ts n = enif_make_list_from_array N (take (unat n) ts) \<and>
        raw_make_tuple_from_array C ts n = enif_make_tuple_from_array N (take (unat n) ts)) \<and>
     raw_make_new_map C = enif_make_new_map N \<and> raw_raise_exception C = enif_raise_exception N \<and>
     raw_make_badarg C = enif_make_badarg N"

definition documented :: "('t, 'p, 'i) c_nif \<Rightarrow> 't nif \<Rightarrow> bool" where
  "documented C N \<longleftrightarrow>
     documented_tests C N \<and> documented_maps C N \<and> documented_lists C N \<and> documented_binaries C N \<and>
     documented_makers C N"

section \<open>Opening a resource type\<close>

text \<open>
  wrapper/resource.rs, and in resource.rs what \<open>resource_struct_init\<close> expands to: the name of the
  struct is terminated by a null byte, which the wrapper asserts, and the static variable of the
  type is set; if the type cannot be opened, the load function returns false.
\<close>

definition wrapper_open_resource_type ::
  "('t, 'p, 'i) c_nif \<Rightarrow> bytes \<Rightarrow> u32 \<Rightarrow> nat option may_panic" where
  "wrapper_open_resource_type C name flags =
     (if name \<noteq> [] \<and> last name = 0 then Inr (raw_open_resource_type C name flags)
      else Inl ''assertion failed: `(left == right)`'')"

definition wrapper_get_resource :: "('t, 'p, 'i) c_nif \<Rightarrow> 't \<Rightarrow> nat \<Rightarrow> nat option" where
  "wrapper_get_resource C t typ =
     (case raw_get_resource C t typ of (res, obj) \<Rightarrow> if res = 0 then None else Some obj)"

definition open_struct_resource_type ::
  "('t, 'p, 'i) c_nif \<Rightarrow> string \<Rightarrow> u32 \<Rightarrow> nat option may_panic" where
  "open_struct_resource_type C name flags = wrapper_open_resource_type C (as_bytes name) flags"

definition ERL_NIF_RT_CREATE :: u32 where
  "ERL_NIF_RT_CREATE = 1"

definition resource_struct_init ::
  "('t, 'p, 'i) c_nif \<Rightarrow> string \<Rightarrow> rust_type \<Rightarrow> (bool \<times> rust_type) may_panic" where
  "resource_struct_init C struct_name T =
     panic_bind (open_struct_resource_type C (struct_name @ [CHR 0x00]) ERL_NIF_RT_CREATE) (\<lambda>r.
     case r of
       None \<Rightarrow> Inr (False, T)
     | Some res \<Rightarrow> Inr (True, T\<lparr>type_res := Some res\<rparr>))"

lemma resource_struct_init_never_panics:
  "\<exists>ok T'. resource_struct_init C struct_name T = Inr (ok, T') \<and>
     (if ok then \<exists>res. get_resource_type T' = Inr res \<and>
        raw_open_resource_type C (as_bytes struct_name @ [0]) ERL_NIF_RT_CREATE = Some res
      else T' = T)"
proof -
  have "as_bytes [CHR 0x00] = [0]" by (simp add: as_bytes_def)
  then show ?thesis
    by (auto simp: resource_struct_init_def open_struct_resource_type_def
        wrapper_open_resource_type_def get_resource_type_def split: option.split)
qed

section \<open>The wrappers implement the interface of the model\<close>

lemma answers_case:
  assumes "answers r x"
  shows "(case r of (success, v) \<Rightarrow> if success \<noteq> 1 then None else Some v) = x"
    "(case r of (success, v) \<Rightarrow> if success = 0 then None else Some v) = x"
    "(case r of (success, v) \<Rightarrow> if success \<noteq> 1 then None else Some (f v)) = map_option f x"
  using assms by (cases r; cases x; simp)+

lemma answers_case_pair:
  "answers r x \<Longrightarrow> (case r of (success, a, b) \<Rightarrow> if success \<noteq> 1 then None else Some (a, b)) = x"
  by (cases r; cases x; simp)

lemma tests_check: "tests inner test \<Longrightarrow> impl_check_fun inner = test"
  by (simp add: tests_def impl_check_fun_def fun_eq_iff)

text \<open>The C iterator simulates the list of pairs.\<close>

lemma raw_iterator_simulates:
  assumes "iterates C iter ps"
  shows "fst (raw_iterator_next C iter) = fst (map_iterator_next ps) \<and>
    iterates C (snd (raw_iterator_next C iter)) (snd (map_iterator_next ps))"
  using assms
  by (cases ps) (auto simp: raw_iterator_next_def wrapper_map_iterator_get_pair_def
      wrapper_map_iterator_next_def split: prod.splits)

lemma drain_pairs: "iterates C iter ps \<Longrightarrow> length ps < fuel \<Longrightarrow> drain C fuel iter = Ok ps"
proof (induction ps arbitrary: iter fuel)
  case Nil
  with raw_iterator_simulates [OF Nil(1)] show ?case
    by (cases fuel) (auto split: prod.splits)
next
  case (Cons p ps)
  then obtain f where f: "fuel = Suc f" "length ps < f" by (cases fuel) auto
  obtain item iter' where next_item: "raw_iterator_next C iter = (item, iter')" by force
  obtain k v where p: "p = (k, v)" by force
  have "item = Some p" "iterates C iter' ps"
    using raw_iterator_simulates [OF Cons.prems(1)] next_item p by auto
  with Cons.IH [of iter' f] f next_item show ?case by simp
qed

lemma scast_arity: "n < 2 ^ 24 \<Longrightarrow> unat (scast (word_of_nat n :: i32) :: u64) = n"
proof -
  assume "n < 2 ^ 24"
  then have "sint (word_of_nat n :: i32) = int n"
    by (simp add: signed_of_nat signed_take_bit_int_eq_self)
  then have "(scast (word_of_nat n :: i32) :: u64) = word_of_nat n" by (simp add: scast_eq)
  with \<open>n < 2 ^ 24\<close> show ?thesis by (simp add: unat_of_nat)
qed

lemma wrapper_maps:
  assumes "documented_maps C N"
  shows "wrapper_get_map_value C = enif_get_map_value N"
    "wrapper_get_map_size C = enif_get_map_size N"
    "wrapper_map_put C = enif_make_map_put N" "wrapper_map_remove C = enif_make_map_remove N"
    "wrapper_map_update C = enif_make_map_update N"
  unfolding wrapper_get_map_value_def wrapper_get_map_size_def wrapper_map_put_def
    wrapper_map_remove_def wrapper_map_update_def
  using assms unfolding documented_maps_def by (intro ext answers_case; blast)+

lemma wrapper_lists:
  assumes "documented_lists C N"
  shows "wrapper_get_list_cell C = enif_get_list_cell N"
    "wrapper_get_list_length C = map_option unat \<circ> enif_get_list_length N"
    "wrapper_make_reverse_list C = enif_make_reverse_list N"
  unfolding wrapper_get_list_cell_def wrapper_get_list_length_def wrapper_make_reverse_list_def comp_def
  using assms unfolding documented_lists_def by (intro ext answers_case answers_case_pair; blast)+

lemma wrapper_tuples:
  assumes "documented_lists C N"
  shows "enif_get_tuple N t = Some ts \<Longrightarrow> length ts < 2 ^ 24 \<Longrightarrow> wrapper_get_tuple C t = Some ts"
    and "enif_get_tuple N t = None \<Longrightarrow> wrapper_get_tuple C t = None"
proof -
  have law: "case enif_get_tuple N t of
        None \<Rightarrow> fst (raw_get_tuple C t) = 0
      | Some ts \<Rightarrow> length ts < 2 ^ 24 \<longrightarrow> (\<exists>beyond.
          raw_get_tuple C t = (1, word_of_nat (length ts), ts @ beyond))" for t
    using assms unfolding documented_lists_def by blast
  show "wrapper_get_tuple C t = Some ts" if "enif_get_tuple N t = Some ts" "length ts < 2 ^ 24"
    using law [of t] that by (auto simp: wrapper_get_tuple_def scast_arity)
  show "wrapper_get_tuple C t = None" if "enif_get_tuple N t = None"
    using law [of t] that by (auto simp: wrapper_get_tuple_def split: prod.splits)
qed

lemma wrapper_iterators:
  assumes "documented_maps C N"
  shows "case wrapper_map_iterator_create C m of
      None \<Rightarrow> map_iterator_new N m = None
    | Some iter \<Rightarrow> \<exists>ps. map_iterator_new N m = Some ps \<and> settles (\<lambda>fuel. drain C fuel iter) ps"
proof -
  obtain success iter where c: "raw_map_iterator_create C m = (success, iter)" by force
  have "case raw_map_iterator_create C m of (success, iter) \<Rightarrow>
      (case enif_map_pairs N m of None \<Rightarrow> success = 0
       | Some ps \<Rightarrow> success \<noteq> 0 \<and> iterates C iter ps)"
    using assms unfolding documented_maps_def by (elim conjE) (erule spec)
  moreover have "settles (\<lambda>fuel. drain C fuel iter) ps" if "iterates C iter ps" for ps
    using that by (intro settlesI [of "Suc (length ps)"] drain_pairs) auto
  ultimately show ?thesis
    by (simp add: wrapper_map_iterator_create_def map_iterator_new_def c split: option.splits)
qed

lemma wrapper_realloc_answers:
  assumes "\<forall>b n. answers (raw_realloc_binary C b n) (enif_realloc_binary N b n)"
  shows "case enif_realloc_binary N b n of
      Some b' \<Rightarrow> wrapper_realloc C b n = (True, b') | None \<Rightarrow> \<not> fst (wrapper_realloc C b n)"
proof -
  have "answers (raw_realloc_binary C b n) (enif_realloc_binary N b n)" using assms by blast
  then show ?thesis
    by (cases "enif_realloc_binary N b n") (auto simp: wrapper_realloc_def split: prod.splits)
qed

lemma wrapper_makers:
  assumes "documented_makers C N"
  shows "wrapper_make_atom C = enif_make_atom_len N" "wrapper_make_list_cell C = enif_make_list_cell N"
    "wrapper_make_list C = make_list N" "wrapper_make_tuple C = make_tuple N"
    "wrapper_map_new C = enif_make_new_map N" "wrapper_raise_exception C = enif_raise_exception N"
    "wrapper_raise_badarg C = enif_make_badarg N"
proof -
  have "unat (word_of_nat (length ts) :: u32) = length ts mod 2 ^ 32" for ts :: "'a list"
    by (simp add: unat_of_nat)
  then show "wrapper_make_list C = make_list N" "wrapper_make_tuple C = make_tuple N"
    using assms by (simp_all add: documented_makers_def wrapper_make_list_def wrapper_make_tuple_def
        make_list_def make_tuple_def fun_eq_iff)
qed (use assms in \<open>simp_all add: documented_makers_def wrapper_make_atom_def wrapper_make_list_cell_def
    wrapper_map_new_def wrapper_raise_exception_def wrapper_raise_badarg_def fun_eq_iff\<close>)

section \<open>A concrete C interface\<close>

definition answer :: "'a \<Rightarrow> 'a option \<Rightarrow> i32 \<times> 'a" where
  "answer output x = (case x of None \<Rightarrow> (0, output) | Some a \<Rightarrow> (1, a))"

lemma answer_answers: "answers (answer output x) x"
  by (cases x) (simp_all add: answer_def)

definition code :: "('t \<Rightarrow> bool) \<Rightarrow> 't \<Rightarrow> i32" where
  "code test t = (if test t then 1 else 0)"

definition demo_c :: "(eterm, nat, (eterm \<times> eterm) list) c_nif" where
  "demo_c =
     \<lparr>raw_is_atom = code (enif_is_atom demo_nif), raw_is_binary = code (enif_is_binary demo_nif),
      raw_is_empty_list = code (enif_is_empty_list demo_nif),
      raw_is_exception = code (enif_is_exception demo_nif), raw_is_fun = code (enif_is_fun demo_nif),
      raw_is_list = code (enif_is_list demo_nif), raw_is_map = code (enif_is_map demo_nif),
      raw_is_number = code (enif_is_number demo_nif), raw_is_pid = code (enif_is_pid demo_nif),
      raw_is_port = code (enif_is_port demo_nif), raw_is_ref = code (enif_is_ref demo_nif),
      raw_is_tuple = code (enif_is_tuple demo_nif),
      raw_get_map_value = (\<lambda>m k. answer ENil (enif_get_map_value demo_nif m k)),
      raw_get_map_size = (\<lambda>m. answer 0 (enif_get_map_size demo_nif m)),
      raw_make_map_put = (\<lambda>m k v. answer ENil (enif_make_map_put demo_nif m k v)),
      raw_make_map_remove = (\<lambda>m k. answer ENil (enif_make_map_remove demo_nif m k)),
      raw_make_map_update = (\<lambda>m k v. answer ENil (enif_make_map_update demo_nif m k v)),
      raw_map_iterator_create = (\<lambda>m. answer [] (enif_map_pairs demo_nif m)),
      raw_map_iterator_get_pair =
        (\<lambda>iter. answer (ENil, ENil) (case iter of [] \<Rightarrow> None | p # ps \<Rightarrow> Some p)),
      raw_map_iterator_next = tl,
      raw_get_list_cell = (\<lambda>t. answer (ENil, ENil) (enif_get_list_cell demo_nif t)),
      raw_get_list_length = (\<lambda>t. answer 0 (enif_get_list_length demo_nif t)),
      raw_make_reverse_list = (\<lambda>t. answer ENil (enif_make_reverse_list demo_nif t)),
      raw_get_tuple = (\<lambda>t. answer (0, []) (map_option (\<lambda>ts. (word_of_nat (length ts), ts))
        (enif_get_tuple demo_nif t))),
      raw_get_local_pid = (\<lambda>t. (0, 0)), raw_make_pid = (\<lambda>p. EInt (int p)),
      raw_alloc_binary = (\<lambda>n. answer [] (enif_alloc_binary demo_nif n)),
      raw_realloc_binary = (\<lambda>b n. answer b (enif_realloc_binary demo_nif b n)),
      raw_term_to_binary = (\<lambda>t. (0, [])), raw_open_resource_type = (\<lambda>name flags. Some 1),
      raw_get_resource = (\<lambda>t typ. (0, 0)),
      raw_make_atom_len = enif_make_atom_len demo_nif,
      raw_make_list_cell = enif_make_list_cell demo_nif,
      raw_make_list_from_array = (\<lambda>ts n. enif_make_list_from_array demo_nif (take (unat n) ts)),
      raw_make_tuple_from_array = (\<lambda>ts n. enif_make_tuple_from_array demo_nif (take (unat n) ts)),
      raw_make_new_map = enif_make_new_map demo_nif,
      raw_raise_exception = enif_raise_exception demo_nif,
      raw_make_badarg = enif_make_badarg demo_nif\<rparr>"

lemma demo_iterates: "iterates demo_c ps ps"
  by (induction ps) (simp_all add: demo_c_def answer_def)

lemma demo_c_documented: "documented demo_c demo_nif"
  unfolding documented_def
proof (intro conjI)
  show "documented_tests demo_c demo_nif"
    by (simp add: documented_tests_def tests_def demo_c_def code_def)
  have create: "raw_map_iterator_create demo_c m = answer [] (enif_map_pairs demo_nif m)" for m
    by (simp add: demo_c_def)
  have "case raw_map_iterator_create demo_c m of (success, iter) \<Rightarrow>
      (case enif_map_pairs demo_nif m of None \<Rightarrow> success = 0
       | Some ps \<Rightarrow> success \<noteq> 0 \<and> iterates demo_c iter ps)" for m
    unfolding create by (cases "enif_map_pairs demo_nif m") (simp_all add: answer_def demo_iterates)
  moreover have "\<forall>m k. answers (raw_get_map_value demo_c m k) (enif_get_map_value demo_nif m k)"
    "\<forall>m. answers (raw_get_map_size demo_c m) (enif_get_map_size demo_nif m)"
    "\<forall>m k v. answers (raw_make_map_put demo_c m k v) (enif_make_map_put demo_nif m k v)"
    "\<forall>m k. answers (raw_make_map_remove demo_c m k) (enif_make_map_remove demo_nif m k)"
    "\<forall>m k v. answers (raw_make_map_update demo_c m k v) (enif_make_map_update demo_nif m k v)"
    by (simp_all add: demo_c_def answer_answers)
  ultimately show "documented_maps demo_c demo_nif" unfolding documented_maps_def by blast
  have tuple: "raw_get_tuple demo_c t = answer (0, [])
      (map_option (\<lambda>ts. (word_of_nat (length ts), ts)) (enif_get_tuple demo_nif t))" for t
    by (simp add: demo_c_def)
  have "case enif_get_tuple demo_nif t of None \<Rightarrow> fst (raw_get_tuple demo_c t) = 0
      | Some ts \<Rightarrow> length ts < 2 ^ 24 \<longrightarrow> (\<exists>beyond.
          raw_get_tuple demo_c t = (1, word_of_nat (length ts), ts @ beyond))" for t
    unfolding tuple by (cases "enif_get_tuple demo_nif t") (simp_all add: answer_def)
  moreover have "\<forall>t. answers (raw_get_list_cell demo_c t) (enif_get_list_cell demo_nif t)"
    "\<forall>t. answers (raw_get_list_length demo_c t) (enif_get_list_length demo_nif t)"
    "\<forall>t. answers (raw_make_reverse_list demo_c t) (enif_make_reverse_list demo_nif t)"
    by (simp_all add: demo_c_def answer_answers)
  ultimately show "documented_lists demo_c demo_nif" unfolding documented_lists_def by blast
  show "documented_makers demo_c demo_nif"
    by (simp add: documented_makers_def demo_c_def)
  show "documented_binaries demo_c demo_nif"
    by (simp add: documented_binaries_def demo_c_def answer_answers answer_def [of "[]"])
qed

section \<open>Property\<close>

text \<open>
  C35: the wrappers around the C interface lose nothing and add nothing. If the C functions return
  codes as documented, then the wrappers of the type tests, of atoms, maps, lists, tuples, binaries
  and exceptions are the functions that the rest of the model works with; a loop over the C iterator of a map ends, with
  exactly the entries of the map.
\<close>

theorem wrappers_refine:
  assumes "documented C N"
  shows "map snd (type_checks C) =
      [enif_is_atom N, enif_is_binary N, enif_is_empty_list N, enif_is_exception N, enif_is_fun N,
       enif_is_list N, enif_is_map N, enif_is_number N, enif_is_pid N, enif_is_port N, enif_is_ref N,
       enif_is_tuple N] \<and>
    wrapper_get_map_value C = enif_get_map_value N \<and> wrapper_get_map_size C = enif_get_map_size N \<and>
    wrapper_map_put C = enif_make_map_put N \<and> wrapper_map_remove C = enif_make_map_remove N \<and>
    wrapper_map_update C = enif_make_map_update N \<and>
    wrapper_get_list_cell C = enif_get_list_cell N \<and>
    wrapper_get_list_length C = map_option unat \<circ> enif_get_list_length N \<and>
    wrapper_make_reverse_list C = enif_make_reverse_list N \<and>
    wrapper_make_atom C = enif_make_atom_len N \<and> wrapper_make_list C = make_list N \<and>
    wrapper_make_list_cell C = enif_make_list_cell N \<and> wrapper_make_tuple C = make_tuple N \<and>
    wrapper_map_new C = enif_make_new_map N \<and> wrapper_raise_exception C = enif_raise_exception N \<and>
    wrapper_raise_badarg C = enif_make_badarg N \<and>
    wrapper_alloc C = enif_alloc_binary N \<and>
    (\<forall>b n. case enif_realloc_binary N b n of
        Some b' \<Rightarrow> wrapper_realloc C b n = (True, b') | None \<Rightarrow> \<not> fst (wrapper_realloc C b n)) \<and>
    (\<forall>t ts. enif_get_tuple N t = Some ts \<and> length ts < 2 ^ 24 \<longrightarrow> wrapper_get_tuple C t = Some ts) \<and>
    (\<forall>t. enif_get_tuple N t = None \<longrightarrow> wrapper_get_tuple C t = None) \<and>
    (\<forall>m. case wrapper_map_iterator_create C m of
        None \<Rightarrow> map_iterator_new N m = None
      | Some iter \<Rightarrow> \<exists>ps. map_iterator_new N m = Some ps \<and> settles (\<lambda>fuel. drain C fuel iter) ps)"
  using assms
  by (auto simp: documented_def documented_tests_def documented_binaries_def tests_check type_checks_def
      wrapper_maps wrapper_lists wrapper_tuples wrapper_iterators wrapper_makers wrapper_alloc_def fun_eq_iff
      answers_case(2) wrapper_realloc_answers)

theorem wrappers_refine_witness:
  "wrapper_get_map_value demo_c (EMap [(ENil, EInt 3)]) ENil = Some (EInt 3) \<and>
   wrapper_get_tuple demo_c (ETuple [EInt 1, EInt 2]) = Some [EInt 1, EInt 2] \<and>
   (\<exists>iter. wrapper_map_iterator_create demo_c (EMap [(ENil, EInt 3)]) = Some iter \<and>
      settles (\<lambda>fuel. drain demo_c fuel iter) [(ENil, EInt 3)])"
  using wrappers_refine [OF demo_c_documented]
  by (auto simp: map_iterator_new_def demo_nif_def split: option.splits
      dest!: spec [of _ "EMap [(ENil, EInt 3)]"])

end
