(* ===== verification/Rustler_Format.thy ===== *)
theory Rustler_Format
  imports Prelude
begin

text \<open>
  wrapper/term.rs: the text of a term, for debugging. The C function \<open>enif_snprintf\<close> writes into a
  buffer of a given capacity and returns the number of bytes that the text needs, or a negative
  number; the buffer is enlarged until the text fits, in at most ten attempts. The buffer of the
  model is its capacity with the bytes that were written into it; \<open>set_len\<close> then claims the first
  of them as the content, and may not claim more than were written.
\<close>

record buffer =
  buf_capacity :: nat
  buf_written :: bytes

text \<open>The C function: the returned number and the bytes written, for a capacity.\<close>

type_synonym snprintf = "nat \<Rightarrow> int \<times> bytes"

definition SIZE :: nat where
  "SIZE = 1024"

definition ATTEMPTS :: nat where
  "ATTEMPTS = 10"

text \<open>
  \<open>reserve_exact\<close> on a vector whose length is still zero: it reallocates if the capacity is too
  small, and the new memory is not initialised.
\<close>

definition reserve_exact :: "nat \<Rightarrow> buffer \<Rightarrow> buffer" where
  "reserve_exact additional b =
     (if buf_capacity b < additional then \<lparr>buf_capacity = additional, buf_written = []\<rparr> else b)"

text \<open>
  One write: what is written replaces the first bytes of the buffer.
\<close>

definition write_text :: "snprintf \<Rightarrow> buffer \<Rightarrow> int \<times> buffer" where
  "write_text snprintf b =
     (case snprintf (buf_capacity b) of (i, bs) \<Rightarrow>
        (i, b\<lparr>buf_written := bs @ drop (length bs) (buf_written b)\<rparr>))"

fun fmt_loop :: "snprintf \<Rightarrow> nat \<Rightarrow> buffer \<Rightarrow> nat \<Rightarrow> buffer \<times> nat" where
  "fmt_loop snprintf 0 b n = (b, n)"
| "fmt_loop snprintf (Suc attempts) b n =
     (case write_text snprintf b of (i, b') \<Rightarrow>
        if i < 0 then (b', n)
        else if buf_capacity b' \<le> nat i
          then fmt_loop snprintf attempts (reserve_exact (2 * nat i + 1) b') 0
        else (b', nat i))"

text \<open>\<open>set_len\<close> is unsafe: its length must be initialised. \<open>None\<close> stands for undefined behaviour.\<close>

definition set_len :: "buffer \<Rightarrow> nat \<Rightarrow> bytes option" where
  "set_len b n =
     (if n \<le> buf_capacity b \<and> n \<le> length (buf_written b) then Some (take n (buf_written b)) else None)"

definition fmt :: "snprintf \<Rightarrow> (bytes \<Rightarrow> string) \<Rightarrow> string option" where
  "fmt snprintf from_utf8_lossy =
     (case fmt_loop snprintf ATTEMPTS \<lparr>buf_capacity = SIZE, buf_written = []\<rparr> 0 of (b, n) \<Rightarrow>
        map_option from_utf8_lossy (set_len b n))"

section \<open>The C function\<close>

text \<open>
  What \<open>enif_snprintf\<close> does with a term whose text is \<open>txt\<close>: it never writes more than the capacity,
  and a number below the capacity is the length of the text, which it has then written. A number of
  at least the capacity may be wrong, as a comment in the code observes; \<open>exact\<close> says it is not.
\<close>

definition writes_text :: "bytes \<Rightarrow> snprintf \<Rightarrow> bool" where
  "writes_text txt snprintf \<longleftrightarrow>
     (\<forall>cap i bs. snprintf cap = (i, bs) \<longrightarrow> length bs \<le> cap \<and>
        (0 \<le> i \<and> i < int cap \<longrightarrow> nat i = length txt \<and> take (length txt) bs = txt \<and>
           length txt \<le> length bs))"

definition exact_text :: "bytes \<Rightarrow> snprintf \<Rightarrow> bool" where
  "exact_text txt snprintf \<longleftrightarrow> (\<forall>cap. fst (snprintf cap) = int (length txt))"

definition demo_snprintf :: "bytes \<Rightarrow> snprintf" where
  "demo_snprintf txt cap = (int (length txt), take (cap - 1) txt @ (if cap = 0 then [] else [0]))"

lemma demo_snprintf_laws: "writes_text txt (demo_snprintf txt)" "exact_text txt (demo_snprintf txt)"
  by (auto simp: writes_text_def exact_text_def demo_snprintf_def)

section \<open>Whole or nothing\<close>

lemma write_text_fits:
  assumes "writes_text txt snprintf" and "write_text snprintf b = (i, b')"
  shows "buf_capacity b' = buf_capacity b"
    and "0 \<le> i \<Longrightarrow> i < int (buf_capacity b) \<Longrightarrow> set_len b' (nat i) = Some txt"
proof -
  obtain bs where s: "snprintf (buf_capacity b) = (i, bs)"
    "b' = b\<lparr>buf_written := bs @ drop (length bs) (buf_written b)\<rparr>"
    using assms(2) by (auto simp: write_text_def split: prod.splits)
  then show "buf_capacity b' = buf_capacity b" by simp
  assume "0 \<le> i" "i < int (buf_capacity b)"
  with assms(1) s(1) have "nat i = length txt" "take (length txt) bs = txt" "length txt \<le> length bs"
    unfolding writes_text_def by blast+
  with s(2) \<open>i < int (buf_capacity b)\<close> show "set_len b' (nat i) = Some txt"
    by (simp add: set_len_def)
qed

lemma fmt_loop_whole_or_nothing:
  assumes "writes_text txt snprintf" and "fmt_loop snprintf attempts b 0 = (b', n)"
  shows "set_len b' n = Some txt \<or> n = 0"
  using assms(2)
proof (induction attempts arbitrary: b)
  case (Suc attempts)
  obtain i b1 where w: "write_text snprintf b = (i, b1)" by force
  note fits = write_text_fits [OF assms(1) w]
  consider "i < 0" | "0 \<le> i" "buf_capacity b \<le> nat i" | "0 \<le> i" "i < int (buf_capacity b)"
    by linarith
  then show ?case
  proof cases
    case 2
    with Suc w fits(1) show ?thesis by (cases "i < 0") auto
  next
    case 3
    then have "\<not> buf_capacity b \<le> nat i" by linarith
    with 3 Suc.prems w fits show ?thesis by simp
  qed (use Suc.prems w in simp)
qed simp

lemma set_len_0 [simp]: "set_len b 0 = Some []"
  by (simp add: set_len_def)

lemma fmt_loop_exact:
  assumes laws: "writes_text txt snprintf" "exact_text txt snprintf"
    and "fmt_loop snprintf (Suc (Suc attempts)) b 0 = (b', n)"
  shows "set_len b' n = Some txt"
proof -
  have exact: "i = int (length txt)" if "write_text snprintf c = (i, c')" for c i c'
    using that laws(2) by (auto simp: write_text_def exact_text_def split: prod.splits) (metis fst_conv)
  obtain i b1 where w: "write_text snprintf b = (i, b1)" by force
  note first = write_text_fits [OF laws(1) w] exact [OF w]
  show ?thesis
  proof (cases "buf_capacity b \<le> length txt")
    case True
    define b2 where "b2 = reserve_exact (Suc (2 * length txt)) b1"
    have cap: "length txt < buf_capacity b2" by (simp add: b2_def reserve_exact_def)
    obtain i' b3 where w': "write_text snprintf b2 = (i', b3)" by force
    note second = write_text_fits [OF laws(1) w'] exact [OF w']
    show ?thesis
      using assms(3) w w' first second cap True by (auto simp: b2_def [symmetric])
  next
    case False
    with assms(3) w first show ?thesis by auto
  qed
qed

section \<open>Property\<close>

text \<open>
  C36: formatting a term is memory safe and yields the whole text or nothing. The length that is
  claimed for the buffer is always initialised, whatever estimates the C function gives; if these
  are exact, the text is complete after at most two of the ten attempts.
\<close>

theorem fmt_whole_or_nothing:
  assumes "writes_text txt snprintf"
  shows "(fmt snprintf lossy = Some (lossy txt) \<or> fmt snprintf lossy = Some (lossy [])) \<and>
    (exact_text txt snprintf \<longrightarrow> fmt snprintf lossy = Some (lossy txt))"
proof -
  obtain b n where r: "fmt_loop snprintf ATTEMPTS \<lparr>buf_capacity = SIZE, buf_written = []\<rparr> 0 = (b, n)"
    by force
  then have "fmt_loop snprintf (Suc (Suc 8)) \<lparr>buf_capacity = SIZE, buf_written = []\<rparr> 0 = (b, n)"
    by (simp add: ATTEMPTS_def eval_nat_numeral)
  from fmt_loop_whole_or_nothing [OF assms r] fmt_loop_exact [OF assms _ this]
  show ?thesis unfolding fmt_def by (auto simp: r)
qed

theorem fmt_whole_or_nothing_witness:
  "fmt (demo_snprintf (replicate 3000 65)) of_bytes = Some (of_bytes (replicate 3000 65))"
  using fmt_whole_or_nothing [OF demo_snprintf_laws(1)] demo_snprintf_laws(2) by blast

end
