(* ===== verification/Rustler_Export.thy ===== *)
theory Rustler_Export
  imports Rustler_Call
begin

text \<open>
  export.rs and schedule.rs: the table of a NIF library that the Erlang virtual machine reads when it
  loads the library, as the macro \<open>rustler_export_nifs\<close> builds it from the list of exported
  functions. The version numbers and the size of a C struct come from the crate erlang\_nif\_sys and
  are arguments; the callbacks for reloading are never set.
\<close>

section \<open>Scheduling\<close>

datatype scheduler_flags = Normal | DirtyCpu | DirtyIo

fun scheduler_number :: "scheduler_flags \<Rightarrow> u32" where
  "scheduler_number Normal = 0"
| "scheduler_number DirtyCpu = 1"
| "scheduler_number DirtyIo = 2"

definition consume_timeslice :: "(i32 \<Rightarrow> i32) \<Rightarrow> i32 \<Rightarrow> bool" where
  "consume_timeslice enif_consume_timeslice percent \<longleftrightarrow> enif_consume_timeslice percent = 1"

section \<open>The table\<close>

record 't nif_func =
  func_name :: bytes
  func_arity :: u32
  func_function :: "'t list \<Rightarrow> ('t nif_error, 't) outcome"
  func_flags :: u32

record 't nif_entry =
  entry_major :: i32
  entry_minor :: i32
  entry_name :: bytes
  num_of_funcs :: i32
  funcs :: "'t nif_func list"
  load_callback :: "'t \<Rightarrow> int may_panic"
  reload_callback :: "unit option"
  upgrade_callback :: "unit option"
  unload_callback :: "unit option"
  vm_variant :: bytes
  entry_options :: u32
  resource_type_init_size :: nat

text \<open>An item of the list: name, arity, function, and the optional flag.\<close>

type_synonym 't exported_nif = "string \<times> u32 \<times> 't nif_function \<times> scheduler_flags option"

text \<open>\<open>concat!(name, "\x00")\<close>.\<close>

definition c_string :: "string \<Rightarrow> bytes" where
  "c_string s = as_bytes (s @ [CHR 0x00])"

fun internal_item_init :: "'t nif \<Rightarrow> 't exported_nif \<Rightarrow> 't nif_func" where
  "internal_item_init N (nif_name, nif_arity, nif_fun, nif_flag) =
     \<lparr>func_name = c_string nif_name, func_arity = nif_arity,
      func_function = handle_nif_call N nif_fun,
      func_flags = scheduler_number (case nif_flag of None \<Rightarrow> Normal | Some flag \<Rightarrow> flag)\<rparr>"

definition rustler_export_nifs ::
  "'t nif \<Rightarrow> i32 \<Rightarrow> i32 \<Rightarrow> nat \<Rightarrow> string \<Rightarrow> 't exported_nif list \<Rightarrow> ('t \<Rightarrow> bool may_panic) option
     \<Rightarrow> 't nif_entry" where
  "rustler_export_nifs N major minor init_size name exported on_load =
     \<lparr>entry_major = major, entry_minor = minor, entry_name = c_string name,
      num_of_funcs = word_of_nat (length (map (internal_item_init N) exported)),
      funcs = map (internal_item_init N) exported,
      load_callback = handle_nif_init_call on_load, reload_callback = None, upgrade_callback = None, unload_callback = None,
      vm_variant = c_string ''beam.vanilla'', entry_options = 0,
      resource_type_init_size = init_size\<rparr>"

section \<open>Lemmas\<close>

text \<open>What C reads of a string: the bytes before the first null byte.\<close>

definition c_read :: "bytes \<Rightarrow> bytes" where
  "c_read bs = takeWhile (\<lambda>b. b \<noteq> 0) bs"

lemma c_read_c_string: "0 \<notin> set (as_bytes s) \<Longrightarrow> c_read (c_string s) = as_bytes s"
proof -
  assume "0 \<notin> set (as_bytes s)"
  then have "\<forall>b \<in> set (as_bytes s). b \<noteq> 0" by metis
  then have "takeWhile (\<lambda>b. b \<noteq> 0) (as_bytes s @ [0]) = as_bytes s" by simp
  moreover have "as_bytes [CHR 0x00] = [0]" by (simp add: as_bytes_def)
  ultimately show ?thesis by (simp add: c_read_def c_string_def)
qed

text \<open>A guarded function returns a term, or does not return.\<close>

lemma handle_nif_call_returns: "handle_nif_call N f terms = Timeout \<or> (\<exists>t. handle_nif_call N f terms = Ok t)"
  by (auto simp: handle_nif_call_def nif_panic_atom split: outcome.split)

end
