(* ===== verification/Ed25519.thy ===== *)
theory Ed25519
  imports Rustler_Export Rustler_Terms
begin

text \<open>
  native/ed25519/src/lib.rs: the four NIFs of Elixir.Crypto.Ed25519. The curve operations of the
  crate ed25519\_dalek and the system's random generator are not under src/: they are the record
  \<open>dalek\<close>, on key pairs \<open>'k\<close>, public keys \<open>'p\<close> and signatures \<open>'s\<close>. A malformed key or signature is
  unwrapped, so that it panics; the wrapper of Rustler turns that into an exception.
\<close>

record ('k, 'p, 's) dalek =
  generate_keypair :: "'k option"
  keypair_from_bytes :: "bytes \<Rightarrow> 'k option"
  keypair_to_bytes :: "'k \<Rightarrow> bytes"
  keypair_public :: "'k \<Rightarrow> 'p"
  public_as_bytes :: "'p \<Rightarrow> bytes"
  public_from_bytes :: "bytes \<Rightarrow> 'p option"
  sign_message :: "'k \<Rightarrow> bytes \<Rightarrow> 's"
  signature_to_bytes :: "'s \<Rightarrow> bytes"
  signature_from_bytes :: "bytes \<Rightarrow> 's option"
  verify_message :: "'p \<Rightarrow> bytes \<Rightarrow> 's \<Rightarrow> bool"

section \<open>The functions\<close>

text \<open>\<open>write_all\<close> into a buffer of the right length; its result is dropped.\<close>

definition to_binary :: "'t nif \<Rightarrow> bytes \<Rightarrow> bytes may_panic" where
  "to_binary N vec =
     (case owned_new N (length vec) of
        None \<Rightarrow> Inl unwrap_none_msg
      | Some binary \<Rightarrow> Inr (fst (slice_write binary vec)))"

definition release_binary :: "'t nif \<Rightarrow> bytes \<Rightarrow> 't may_panic" where
  "release_binary N vec =
     panic_bind (to_binary N vec) (\<lambda>bin. encode_binary (binary_from_owned N bin))"

definition lift_encode :: "'t may_panic \<Rightarrow> ('t, 't) nif_result" where
  "lift_encode r = (case r of Inl p \<Rightarrow> Panic p | Inr t \<Rightarrow> Ok t)"

definition unwrap_ok :: "'a option \<Rightarrow> ('t, 'a) nif_result" where
  "unwrap_ok x = (case x of None \<Rightarrow> Panic unwrap_err_msg | Some a \<Rightarrow> Ok a)"

text \<open>Indexing the argument slice panics out of bounds.\<close>

definition arg :: "'t list \<Rightarrow> nat \<Rightarrow> ('t, 't) nif_result" where
  "arg args n = (if n < length args then Ok (args ! n) else Panic ''index out of bounds'')"

definition decode_arg :: "'t nif \<Rightarrow> 't list \<Rightarrow> nat \<Rightarrow> ('t, bytes) nif_result" where
  "decode_arg N args n =
     result_bind (arg args n) (\<lambda>t. result_bind (binary_from_term N t) (\<lambda>b. Ok (bin_data b)))"

definition keypair :: "('k, 'p, 's) dalek \<Rightarrow> 't nif \<Rightarrow> 't nif_function" where
  "keypair C N args =
     result_bind (unwrap_ok (generate_keypair C)) (\<lambda>kp.
     lift_encode
       (panic_bind (release_binary N (public_as_bytes C (keypair_public C kp))) (\<lambda>public.
        panic_bind (release_binary N (keypair_to_bytes C kp)) (\<lambda>both.
        encode_pair N encode_term encode_term (public, both)))))"

definition sign :: "('k, 'p, 's) dalek \<Rightarrow> 't nif \<Rightarrow> 't nif_function" where
  "sign C N args =
     result_bind (decode_arg N args 0) (\<lambda>message.
     result_bind (decode_arg N args 1) (\<lambda>keypair_binary.
     result_bind (unwrap_ok (keypair_from_bytes C keypair_binary)) (\<lambda>kp.
     lift_encode (release_binary N (signature_to_bytes C (sign_message C kp message))))))"

definition valid_signature :: "('k, 'p, 's) dalek \<Rightarrow> 't nif \<Rightarrow> 't nif_function" where
  "valid_signature C N args =
     result_bind (decode_arg N args 0) (\<lambda>signature_binary.
     result_bind (decode_arg N args 1) (\<lambda>message.
     result_bind (decode_arg N args 2) (\<lambda>public_key.
     result_bind (unwrap_ok (signature_from_bytes C signature_binary)) (\<lambda>signature.
     result_bind (unwrap_ok (public_from_bytes C public_key)) (\<lambda>key.
     lift_encode (encode_bool N (verify_message C key message signature)))))))"

definition private_key_to_public_key :: "('k, 'p, 's) dalek \<Rightarrow> 't nif \<Rightarrow> 't nif_function" where
  "private_key_to_public_key C N args =
     result_bind (decode_arg N args 0) (\<lambda>keypair_binary.
     result_bind (unwrap_ok (keypair_from_bytes C keypair_binary)) (\<lambda>kp.
     lift_encode (release_binary N (public_as_bytes C (keypair_public C kp)))))"

text \<open>The table of the library.\<close>

definition ed25519_entry ::
  "('k, 'p, 's) dalek \<Rightarrow> 't nif \<Rightarrow> i32 \<Rightarrow> i32 \<Rightarrow> nat \<Rightarrow> 't nif_entry" where
  "ed25519_entry C N major minor init_size =
     rustler_export_nifs N major minor init_size ''Elixir.Crypto.Ed25519''
       [(''keypair'', 0, keypair C N, None),
        (''sign'', 2, sign C N, None),
        (''valid_signature'', 3, valid_signature C N, None),
        (''private_key_to_public_key'', 1, private_key_to_public_key C N, None)] None"

section \<open>What the crate promises\<close>

text \<open>
  Serialised values are read back, and a signature made with a generated key pair is valid under its
  public key. A key pair that was read need not be one: \<open>Keypair::from_bytes\<close> takes the two halves as
  they are, and nothing is said of the signatures of a pair whose halves do not belong together.
\<close>

definition dalek_laws :: "('k, 'p, 's) dalek \<Rightarrow> bool" where
  "dalek_laws C \<longleftrightarrow>
     (\<forall>k. keypair_from_bytes C (keypair_to_bytes C k) = Some k) \<and>
     (\<forall>p. public_from_bytes C (public_as_bytes C p) = Some p) \<and>
     (\<forall>k m. signature_from_bytes C (signature_to_bytes C (sign_message C k m)) = Some (sign_message C k m)) \<and>
     (\<forall>k m. generate_keypair C = Some k \<longrightarrow>
        verify_message C (keypair_public C k) m (sign_message C k m))"

text \<open>The allocator has memory.\<close>

definition can_allocate :: "'t nif \<Rightarrow> bool" where
  "can_allocate N \<longleftrightarrow> (\<forall>n. owned_new N n \<noteq> None)"

lemma release_binary_ok:
  assumes "nif_laws N" and "can_allocate N"
  shows "release_binary N bs = Inr (enif_make_binary N bs)"
proof -
  obtain bin where "owned_new N (length bs) = Some bin" using assms(2) by (auto simp: can_allocate_def)
  with owned_new_length [OF assms(1) this] show ?thesis
    by (simp add: release_binary_def to_binary_def slice_write_full encode_binary_def
        binary_from_owned_def)
qed

lemma decode_arg_binary:
  assumes "nif_laws N" and "n < length args" and "args ! n = enif_make_binary N bs"
  shows "decode_arg N args n = Ok bs"
  using assms by (simp add: decode_arg_def arg_def binary_from_term_def number_round_trips)

section \<open>A concrete crate\<close>

text \<open>
  The secret and the public key are single bytes, the public key the next one; a pair is read as it
  is. A signature is the byte of the secret with the message: enough to satisfy the laws, and to have
  malformed inputs and pairs that do not match.
\<close>

definition demo_dalek :: "(u8 \<times> u8, u8, u8 \<times> bytes) dalek" where
  "demo_dalek =
     \<lparr>generate_keypair = Some (7, 8),
      keypair_from_bytes = (\<lambda>bs. case bs of [a, b] \<Rightarrow> Some (a, b) | _ \<Rightarrow> None),
      keypair_to_bytes = (\<lambda>(a, b). [a, b]), keypair_public = snd, public_as_bytes = (\<lambda>p. [p]),
      public_from_bytes = (\<lambda>bs. case bs of [a] \<Rightarrow> Some a | _ \<Rightarrow> None),
      sign_message = (\<lambda>(a, b) m. (a, m)), signature_to_bytes = (\<lambda>(k, m). k # m),
      signature_from_bytes = (\<lambda>bs. case bs of [] \<Rightarrow> None | k # m \<Rightarrow> Some (k, m)),
      verify_message = (\<lambda>p m s. s = (p - 1, m))\<rparr>"

lemma demo_dalek_laws: "dalek_laws demo_dalek"
  by (auto simp: dalek_laws_def demo_dalek_def)

lemma demo_can_allocate: "can_allocate demo_nif"
  by (simp add: can_allocate_def owned_new_def)

section \<open>Properties\<close>

text \<open>
  C39: what the NIFs produce fits together, across their serialised forms. The key pair that \<open>keypair\<close>
  returns signs any message, \<open>valid_signature\<close> answers true for the signature, the message and the
  public key returned with the pair, and \<open>private_key_to_public_key\<close> recovers this public key from the
  pair. This is about generated pairs: a pair of halves that do not match is accepted as well, and
  its signatures need not be valid.
\<close>

theorem ed25519_sign_verify:
  assumes laws: "nif_laws N" "can_allocate N" "dalek_laws C" and kp: "generate_keypair C = Some kp"
  shows "\<exists>public both signature.
    keypair C N [] = Ok (make_tuple N [enif_make_binary N public, enif_make_binary N both]) \<and>
    sign C N [enif_make_binary N m, enif_make_binary N both] = Ok (enif_make_binary N signature) \<and>
    valid_signature C N
      [enif_make_binary N signature, enif_make_binary N m, enif_make_binary N public] =
      Ok (atom_named N ''true'') \<and>
    private_key_to_public_key C N [enif_make_binary N both] = Ok (enif_make_binary N public)"
proof -
  define public where "public = public_as_bytes C (keypair_public C kp)"
  define both where "both = keypair_to_bytes C kp"
  define signature where "signature = signature_to_bytes C (sign_message C kp m)"
  have parsed: "keypair_from_bytes C both = Some kp"
    "public_from_bytes C public = Some (keypair_public C kp)"
    "signature_from_bytes C signature = Some (sign_message C kp m)"
    "verify_message C (keypair_public C kp) m (sign_message C kp m)"
    using laws(3) kp by (simp_all add: dalek_laws_def public_def both_def signature_def)
  note defs = keypair_def sign_def valid_signature_def private_key_to_public_key_def unwrap_ok_def
    lift_encode_def release_binary_ok [OF laws(1,2)] decode_arg_binary [OF laws(1)] encode_pair_def
    encode_term_def encode_bool_def rustler_atom_plain parsed kp
  have "keypair C N [] = Ok (make_tuple N [enif_make_binary N public, enif_make_binary N both])"
    by (simp add: defs public_def both_def)
  moreover have "sign C N [enif_make_binary N m, enif_make_binary N both] =
      Ok (enif_make_binary N signature)"
    by (simp add: defs signature_def)
  moreover have "valid_signature C N
      [enif_make_binary N signature, enif_make_binary N m, enif_make_binary N public] =
      Ok (atom_named N ''true'')"
    by (simp add: defs)
  moreover have "private_key_to_public_key C N [enif_make_binary N both] =
      Ok (enif_make_binary N public)"
    by (simp add: defs public_def)
  ultimately show ?thesis by blast
qed

theorem ed25519_sign_verify_witness:
  "\<exists>public both signature.
    keypair demo_dalek demo_nif [] = Ok (make_tuple demo_nif [EBin public, EBin both]) \<and>
    sign demo_dalek demo_nif [EBin [1], EBin both] = Ok (EBin signature) \<and>
    valid_signature demo_dalek demo_nif [EBin signature, EBin [1], EBin public] =
      Ok (atom_named demo_nif ''true'') \<and>
    private_key_to_public_key demo_dalek demo_nif [EBin both] = Ok (EBin public)"
  using ed25519_sign_verify [OF demo_nif_laws demo_can_allocate demo_dalek_laws, of "(7, 8)" "[1]"]
  by (simp add: demo_dalek_def)

text \<open>A pair whose halves do not match makes signatures that its public key does not verify.\<close>

lemma mismatched_pair:
  "\<exists>signature. sign demo_dalek demo_nif [EBin [1], EBin [7, 7]] = Ok (EBin signature) \<and>
    valid_signature demo_dalek demo_nif [EBin signature, EBin [1], EBin [7]] =
      Ok (atom_named demo_nif ''false'')"
proof -
  have arg: "decode_arg demo_nif args n = Ok bs" if "n < length args" "args ! n = EBin bs" for args n bs
    using decode_arg_binary [OF demo_nif_laws that(1)] that(2) by simp
  have release: "release_binary demo_nif bs = Inr (EBin bs)" for bs
    using release_binary_ok [OF demo_nif_laws demo_can_allocate, of bs] by simp
  show ?thesis
    by (intro exI [of _ "[7, 1]"])
      (simp add: sign_def valid_signature_def arg release unwrap_ok_def lift_encode_def demo_dalek_def
        encode_bool_def rustler_atom_plain)
qed

text \<open>
  C40: a key that cannot be parsed is not a bad argument to these functions. They unwrap it, and what
  the Elixir caller sees is the exception nif\_panic of the wrapper, never the return of a value;
  only an argument that is no binary at all raises badarg.
\<close>

theorem ed25519_malformed_key:
  assumes laws: "nif_laws N" and "keypair_from_bytes C bs = None"
    and "enif_inspect_binary N t = None"
  shows "handle_nif_call N (sign C N) [enif_make_binary N m, enif_make_binary N bs] =
      Ok (enif_raise_exception N (atom_named N ''nif_panic'')) \<and>
    handle_nif_call N (private_key_to_public_key C N) [enif_make_binary N bs] =
      Ok (enif_raise_exception N (atom_named N ''nif_panic'')) \<and>
    handle_nif_call N (sign C N) [enif_make_binary N m, t] = Ok (enif_make_badarg N)"
proof -
  have t: "decode_arg N [enif_make_binary N m, t] (Suc 0) = Err BadArg"
    using assms(3) by (simp add: decode_arg_def arg_def binary_from_term_def)
  note defs = handle_nif_call_def nif_body_def sign_def private_key_to_public_key_def
    decode_arg_binary [OF laws] unwrap_ok_def assms(2) nif_panic_atom error_encode_def t
  show ?thesis by (intro conjI) (simp_all add: defs)
qed

theorem ed25519_malformed_key_witness:
  "handle_nif_call demo_nif (sign demo_dalek demo_nif) [EBin [1], EBin [2]] =
      Ok (EException (EAtom (as_bytes ''nif_panic''))) \<and>
   handle_nif_call demo_nif (private_key_to_public_key demo_dalek demo_nif) [EBin [2]] =
      Ok (EException (EAtom (as_bytes ''nif_panic''))) \<and>
   handle_nif_call demo_nif (sign demo_dalek demo_nif) [EBin [1], EInt 5] =
      Ok (EException (EAtom (as_bytes ''badarg'')))"
  using ed25519_malformed_key [OF demo_nif_laws, of demo_dalek "[2]" "EInt 5" "[1]"]
  by (simp add: demo_dalek_def atom_named_def demo_nif_def)

text \<open>
  C34: the table of a NIF library is what the list of exported functions says, and every function in
  it is guarded. The count is the number of functions, each entry has the declared name as C reads
  it, and its arity; whatever terms it is called with, a function returns a term or does not
  return. In particular this holds of the four functions of Crypto.Ed25519.
\<close>

theorem exported_nifs_guarded:
  assumes "length exported < 2 ^ 31"
    and "\<forall>(name, _) \<in> set exported. 0 \<notin> set (as_bytes name)"
    and "entry = rustler_export_nifs N major minor init_size module exported on_load"
  shows "sint (num_of_funcs entry) = int (length (funcs entry)) \<and>
    map (\<lambda>f. (c_read (func_name f), func_arity f)) (funcs entry) =
      map (\<lambda>(name, arity, _). (as_bytes name, arity)) exported \<and>
    (\<forall>f \<in> set (funcs entry). \<forall>terms. func_function f terms = Timeout \<or>
       (\<exists>t. func_function f terms = Ok t))"
proof (intro conjI)
  have funcs: "funcs entry = map (internal_item_init N) exported"
    by (simp add: assms(3) rustler_export_nifs_def)
  show "sint (num_of_funcs entry) = int (length (funcs entry))"
    using assms(1) by (simp add: assms(3) rustler_export_nifs_def signed_of_nat
        signed_take_bit_int_eq_self)
  show "map (\<lambda>f. (c_read (func_name f), func_arity f)) (funcs entry) =
      map (\<lambda>(name, arity, _). (as_bytes name, arity)) exported"
    using assms(2) by (auto simp: funcs c_read_c_string)
  show "\<forall>f \<in> set (funcs entry). \<forall>terms. func_function f terms = Timeout \<or>
      (\<exists>t. func_function f terms = Ok t)"
    using handle_nif_call_returns by (fastforce simp: funcs)
qed

theorem exported_nifs_guarded_witness:
  "num_of_funcs (ed25519_entry demo_dalek demo_nif 2 14 16) = 4 \<and>
   (func_function (funcs (ed25519_entry demo_dalek demo_nif 2 14 16) ! 1) [EInt 5] = Timeout \<or>
    (\<exists>t. func_function (funcs (ed25519_entry demo_dalek demo_nif 2 14 16) ! 1) [EInt 5] = Ok t))"
proof -
  let ?entry = "ed25519_entry demo_dalek demo_nif 2 14 16"
  have "\<forall>f \<in> set (funcs ?entry). \<forall>terms. func_function f terms = Timeout \<or>
      (\<exists>t. func_function f terms = Ok t)"
    using exported_nifs_guarded [OF _ _ ed25519_entry_def [of demo_dalek demo_nif 2 14 16]]
    by (simp add: as_bytes_def)
  moreover have "funcs ?entry ! 1 \<in> set (funcs ?entry)" "num_of_funcs ?entry = 4"
    by (simp_all add: ed25519_entry_def rustler_export_nifs_def)
  ultimately show ?thesis by blast
qed

end
