(* ===== verification/Spec2Isabelle.thy ===== *)
theory Spec2Isabelle
  imports Vm_Properties Processor_Replay Processor_Panics Hashfactor_Watch Rocksdb_Server Rustler_Properties
    Rustler_Slices Rustler_Tuples Rustler_Atoms Rustler_Wrapper Rustler_Format Ed25519
begin

text \<open>
  The Rust programs of ellipticoind, a blockchain node written in Elixir. The node starts its Rust
  programs as separate processes and talks to them over their standard input and output, and loads
  one of them, the signatures, as native functions (NIFs) through the bindings Rustler, a copy of
  which is part of the repository. This development models those programs and the bindings.

  \<^bold>\<open>The parts and how they interact.\<close>

    \<^item> The transaction processor (native/transaction\_processor) runs the transactions of a block.
      An ordinary transaction is run by the virtual machine; one sent to the system address deploys
      a contract. Afterwards the fee is collected by running the token contract on the virtual
      machine. The effects of a block are two changesets, of memory and of storage.
    \<^item> The virtual machine (native/vm) loads the code of a contract from the storage and calls one of
      its functions in a WebAssembly interpreter. The contract calls back: it reads and writes memory
      and storage through host functions, each of which is charged gas, and calls other contracts,
      which run on a nested machine that borrows the stores and the gas of its caller.
    \<^item> The miner (native/hashfactor) finds the proof of work of a block, the RocksDB server
      (native/rocksdb) owns the writable database, and native/ed25519 signs and verifies.
    \<^item> Rustler (priv/rustler) carries values between Erlang terms and Rust values, keeps terms and
      Rust values alive across calls, and guards every NIF against panics.

  \<^bold>\<open>How the code is modelled.\<close> A function that may panic, fail and change a state \<open>'s\<close> is of the type
  \<open>('s, 'e, 'a) rust\<close> of Prelude: a state goes to an outcome (\<open>Ok\<close>, \<open>Err\<close>, \<open>Panic\<close> or, for a loop
  that runs out of fuel or never returns, \<open>Timeout\<close>) and a state. Machine integers are words; where
  Rust checks for overflow in debug builds and wraps around in release builds, the \<open>build_mode\<close>
  decides. Crates that
  are not under src/ are arguments: the record \<open>platform\<close> (the interpreter metered\_wasmi and
  serde\_cbor), the record \<open>redis_conn\<close> and the lookup \<open>rocksdb\<close>, \<open>services\<close> (base64, the Redis lists),
  \<open>hasher\<close>, \<open>database\<close>, \<open>dalek\<close> (the curve operations) and \<open>nif\<close> (the C interface of the Erlang
  machine). What the properties need of them is a named hypothesis that states their documented
  behaviour, and each of these is shown to hold of a concrete instance (Vm\_Demo, Processor\_Demo,
  Rustler\_Terms and the end of Hashfactor, Rocksdb\_Server and Ed25519).

  \<^bold>\<open>The theories.\<close>

    \<^item> Prelude: outcomes, frame conditions (locale \<open>preorder_rel\<close>), the arithmetic of the two builds,
      UTF-8. Vm\_Helpers: native/vm/src/helpers.rs and gas\_costs.rs, little-endian bytes, padding.
    \<^item> Vm\_Store, Vm\_Memory, Vm\_Storage: memory.rs and storage.rs, each an instance of the locale
      \<open>staged_store\<close>, the contract of a store whose writes are pending until they are committed, which
      refines the abstract store \<open>shown\<close>.
    \<^item> Vm\_Data: env.rs, result.rs, the records of transaction.rs and \<open>platform\<close>. Vm\_Machine: the
      directory vm/src/vm, that is the gas counter, the linear memory, the calling convention, the
      host functions and the two tables that link them, with the interpreter's loop around them.
    \<^item> Vm\_Frames: what the operations of the machine leave alone, proved once in locales over a
      preorder and instantiated for the gas, the committed changesets, the context and the namespace.
      Vm\_Termination: the bound on the fuel, and that fuel does not matter beyond it.
      Vm\_Variants: one interpreter compared with another that behaves the same except in what is not
      asked about (locale \<open>vm_variant\<close>): one that gives up on start functions that loop, and one on which
      only a given function can run, by which what holds when no contract calls another is carried over
      to a function that calls none (\<open>calls_no_other\<close>), whatever the others do.
      Vm\_Transaction: \<open>Transaction::run\<close>, and the three ways in which a call ends.
      Vm\_Isolation: which keys a run can reach however contracts call one another. Vm\_Unmetered:
      the machine without gas that collects the fee, on which a call of another contract never returns.
      Vm\_Locality: two runs side by side, with the interface \<open>vm_pair\<close> for a relation between them; what
      a transaction depends on, and when two of them can be swapped.
      Vm\_Calls: external calls. Vm\_Demo, Vm\_Runs: a small interpreter and its runs.
      Vm\_Properties: the properties of the virtual machine.
    \<^item> System\_Contracts and Transaction\_Processor: the two files of the transaction processor.
      Processor\_Demo: an instance of its services. Processor\_Properties: its properties.
      Processor\_Replay: the two commands together, as a node and one that checks its block.
      Processor\_Panics: the queue and the transactions when a transaction panics.
    \<^item> Hashfactor and Rocksdb\_Server: the two programs, each with its properties. Hashfactor\_Watch:
      the miner as a process of two threads, of which one watches its input, with a step relation.
    \<^item> Rustler\_Nif: the C interface and its laws, error.rs, dynamic.rs and atoms. Rustler\_Types: the
      transcoders of types/. Rustler\_Codec: the contract of a transcoder as a locale, with an
      interpretation for each basic type and for composed ones. Rustler\_Tuples: tuples of every
      arity, built like the macro builds them. Rustler\_Codegen: the derive macros of
      rustler\_codegen. Rustler\_Atoms: the functions of \<open>rustler_atoms!\<close> called by several threads,
      a step relation. Rustler\_Env: env.rs and term.rs, with a step relation on the environments that
      a program owns. Rustler\_Binary: types/binary.rs with the buffers in memory, who owns them and
      what their slices can still see, and a step relation; Rustler\_Slices: how long programs may keep
      these slices, by the lifetimes in the signatures of the functions that return them.
      Rustler\_Resource: resource.rs, with a step relation on the references to resources. Rustler\_Call: codegen\_runtime.rs,
      thread.rs and the encoding of errors. Rustler\_Export: export.rs and schedule.rs. Rustler\_Terms: a datatype of terms that satisfies
      the laws. Rustler\_Properties: the properties of these.
    \<^item> Rustler\_Wrapper: the directory wrapper, which turns return codes of C functions into options,
      and the opening of resource types; that it provides the interface the other theories use.
      Rustler\_Format: the loop of wrapper/term.rs that formats a term for debugging.
    \<^item> Ed25519: native/ed25519/src/lib.rs and its properties.

  \<^bold>\<open>What the properties show.\<close> Of the virtual machine: every transaction ends, unless a start
  function does not, and its gas only decreases; a transaction whose function calls no other contract
  is atomic, depends on its own namespace alone and commutes with those of other contracts, with such
  calls it is not even atomic;
  with or without them, it stays in the namespaces of the contracts that were deployed before it;
  the two stores refine a simple one; each host function returns what its type says and charges what
  its price says. Of the transaction processor: what a transaction is charged and which keys it
  changes, that blocks complete their transactions in order, that a node which is given a block
  prints what the node that made it printed, that a panic loses the transactions completed so far and
  what it leaves in the lists of Redis, and what happens to fees that cannot be paid, to unknown
  functions, to start functions that loop, to deployments whose constructor fails and to malformed
  ones. Of the miner: what it
  prints is the first valid nonce, and it finds one if there is one; the thread that watches its
  input does not disturb it. Of the RocksDB server: it refines a map. Of Rustler: encoding and decoding
  are inverse, written by hand or generated; a saved term, a resource and a binary are never used
  after they were freed, except through the slices of binaries whose signatures do not tie them to
  the binary; no
  panic leaves a NIF that a library exports; the wrappers report what the C interface reports. The
  limits that the code has are stated in the same way: the price that wraps around, code that shares
  its keys with storage, keys that are unwrapped.

  \<^bold>\<open>Fuel.\<close> The interpreter and the nested calls recurse on fuel. Each instruction costs gas, a call of
  another contract is preceded by one, and gas is a 32-bit number, so two units of fuel per unit of
  gas, plus two, are enough (\<open>enough_fuel\<close>); a run that ends is the same with more fuel. The
  start function of a module (\<open>run_start\<close>) runs before there is any gas: a run of it that never returns
  is the answer \<open>StartLoops\<close> of the interpreter, and then the outcome is \<open>Timeout\<close> for any fuel. The
  transfer of the fee has no gas limit and need not end (\<open>fee_transfer_unmetered\<close>), so the
  properties that involve it speak of runs that end. The
  miner takes as many rounds as the first valid nonce is away from the start; the loop of a new block
  as many as there are readings of the clock before its end. A decoder of lists takes one unit per
  element; \<open>settles\<close> says that a result holds from some amount on.

  \<^bold>\<open>Not modelled.\<close> The declarations of the C interface and the re-exports, which pass their arguments
  on; the modules of native/vm that are not compiled. The Elixir and Go programs, the build tool and
  the tests are no Rust code of the node. Concurrency is an issue of two programs only: the miner,
  whose two threads share nothing but the process they can end, and Rustler, whose threads own all
  that they use; the others are single loops.
\<close>

end
